(* ===== verification/Prelude.thy ===== *)
theory Prelude
  imports Main "HOL-Library.Word"
begin

text \<open>
  Shared vocabulary of the development: machine integers and Rust's saturating arithmetic,
  byte strings and UTF-8, decimal printing and parsing, searching and trimming of text, the
  \<open>?\<close> operator on results and on state-passing results, and paths.
  Everything here models the Rust language or its standard library; nothing here models
  code of the repository.
\<close>

named_theorems flow_simps \<open>evaluation of the \<open>?\<close> operator and its variants\<close>
named_theorems op_simps \<open>unfolding of the operations of the components\<close>

section \<open>Machine integers\<close>

type_synonym byte = "8 word"
type_synonym bytes = "8 word list"
type_synonym u8 = "8 word"
type_synonym u16 = "16 word"
type_synonym u32 = "32 word"
type_synonym u64 = "64 word"

definition saturating_add :: "'l::len word \<Rightarrow> 'l word \<Rightarrow> 'l word" where
  "saturating_add a b = (if unat a + unat b < 2 ^ LENGTH('l) then a + b else - 1)"

definition saturating_sub :: "'l::len word \<Rightarrow> 'l word \<Rightarrow> 'l word" where
  "saturating_sub a b = (if a < b then 0 else a - b)"

lemma unat_max_word: "unat (- 1 :: 'l::len word) = 2 ^ LENGTH('l) - 1"
  by (simp add: unsigned_minus_1_eq_mask mask_eq_exp_minus_1)

lemma u64_max_iff: "x = - 1 \<longleftrightarrow> unat x = 2 ^ 64 - 1" for x :: u64
proof -
  have "unat (- 1 :: u64) = 2 ^ 64 - 1" by (simp add: unat_max_word)
  then show ?thesis by (simp only: word_unat_eq_iff)
qed

lemma unat_saturating_add:
  "unat (saturating_add a b) = min (unat a + unat b) (2 ^ LENGTH('l) - 1)"
  for a b :: "'l::len word"
  by (auto simp: saturating_add_def unat_max_word unat_word_ariths not_less min_def)

lemma unat_saturating_sub: "unat (saturating_sub a b) = unat a - unat b"
proof (cases "a < b")
  case True
  then show ?thesis by (simp add: saturating_sub_def word_less_nat_alt)
next
  case False
  then have "b \<le> a" by simp
  with False show ?thesis by (simp add: saturating_sub_def unat_sub)
qed

lemma saturating_add_ge: "a \<le> saturating_add a b"
  for a b :: "'l::len word"
proof -
  have "unat a < 2 ^ LENGTH('l)" by (rule unsigned_less)
  then have "unat a \<le> 2 ^ LENGTH('l) - 1" by linarith
  then show ?thesis by (simp add: word_le_nat_alt unat_saturating_add)
qed

lemma saturating_sub_self [simp]: "saturating_sub a a = 0"
  by (simp add: saturating_sub_def)

section \<open>Strings and decimal numbers\<close>

text \<open>A Rust string is its UTF-8 bytes, one \<open>char\<close> per byte; \<open>as_bytes\<close> reads them.\<close>

definition as_bytes :: "string \<Rightarrow> bytes" where
  "as_bytes s = map of_char s"

lemma of_char_byte_inj: "(of_char c :: 8 word) = of_char d \<Longrightarrow> c = d"
proof -
  assume "(of_char c :: 8 word) = of_char d"
  then have "unat (of_nat (of_char c) :: 8 word) = unat (of_nat (of_char d) :: 8 word)"
    by (simp add: of_nat_of_char)
  moreover have "(of_char c :: nat) < 256" "(of_char d :: nat) < 256"
    by simp_all
  ultimately have "(of_char c :: nat) = of_char d"
    by (simp add: unat_of_nat)
  then show "c = d" by simp
qed

lemma as_bytes_inject [simp]: "as_bytes s = as_bytes t \<longleftrightarrow> s = t"
proof
  assume "as_bytes s = as_bytes t"
  moreover have "inj (of_char :: char \<Rightarrow> 8 word)"
    by (rule injI) (rule of_char_byte_inj)
  ultimately show "s = t"
    by (simp add: as_bytes_def inj_map_eq_map)
qed simp

definition of_bytes :: "bytes \<Rightarrow> string" where
  "of_bytes bs = map (\<lambda>b. char_of (unat b)) bs"

lemma of_bytes_as_bytes [simp]: "of_bytes (as_bytes s) = s"
proof -
  have "char_of (unat (of_char c :: 8 word)) = c" for c
  proof -
    have "unat (of_char c :: 8 word) = unat (of_nat (of_char c) :: 8 word)"
      by (simp add: of_nat_of_char)
    also have "\<dots> = of_char c" by (simp only: unat_of_nat) simp
    finally show ?thesis by simp
  qed
  then show ?thesis by (simp add: of_bytes_def as_bytes_def o_def)
qed

definition digit_char :: "nat \<Rightarrow> char" where
  "digit_char d = char_of (48 + d)"

fun show_nat :: "nat \<Rightarrow> string" where
  "show_nat n = (if n < 10 then [digit_char n] else show_nat (n div 10) @ [digit_char (n mod 10)])"

declare show_nat.simps [simp del]

abbreviation show_u64 :: "'l::len word \<Rightarrow> string" where
  "show_u64 w \<equiv> show_nat (unat w)"

definition digit_of :: "char \<Rightarrow> nat option" where
  "digit_of c = (let n = (of_char c :: nat) in if 48 \<le> n \<and> n \<le> 57 then Some (n - 48) else None)"

text \<open>\<open>str::parse::<u64>\<close>: an optional plus sign, at least one digit, no overflow.\<close>

fun parse_digits :: "nat \<Rightarrow> string \<Rightarrow> nat option" where
  "parse_digits acc [] = Some acc"
| "parse_digits acc (c # cs) =
     (case digit_of c of None \<Rightarrow> None | Some d \<Rightarrow> parse_digits (10 * acc + d) cs)"

definition parse_u64 :: "string \<Rightarrow> u64 option" where
  "parse_u64 s =
     (let t = (case s of [] \<Rightarrow> [] | c # cs \<Rightarrow> if c = CHR ''+'' then cs else s)
      in if t = [] then None
         else case parse_digits 0 t of
           None \<Rightarrow> None
         | Some n \<Rightarrow> if n < 2 ^ 64 then Some (of_nat n) else None)"

lemma digit_of_digit_char: "d < 10 \<Longrightarrow> digit_of (digit_char d) = Some d"
  by (simp add: digit_of_def digit_char_def)

lemma parse_digits_append:
  "parse_digits acc (s @ t) = (case parse_digits acc s of None \<Rightarrow> None | Some n \<Rightarrow> parse_digits n t)"
  by (induction s arbitrary: acc) (auto split: option.splits)

lemma parse_digits_show_nat: "parse_digits 0 (show_nat n) = Some n"
proof (induction n rule: show_nat.induct)
  case (1 n)
  show ?case
  proof (cases "n < 10")
    case True
    then show ?thesis by (simp add: show_nat.simps [of n] digit_of_digit_char)
  next
    case False
    with 1 have "parse_digits 0 (show_nat (n div 10)) = Some (n div 10)" by simp
    with False show ?thesis
      by (simp add: show_nat.simps [of n] parse_digits_append digit_of_digit_char)
  qed
qed

lemma show_nat_Nil [simp]: "show_nat n \<noteq> []"
  by (subst show_nat.simps) simp

lemma show_nat_inject [simp]: "show_nat m = show_nat n \<longleftrightarrow> m = n"
  by (metis option.inject parse_digits_show_nat)

lemma set_show_nat: "c \<in> set (show_nat n) \<Longrightarrow> digit_of c \<noteq> None"
proof (induction n rule: show_nat.induct)
  case (1 n)
  then show ?case
    by (cases "n < 10") (auto simp: show_nat.simps [of n] digit_of_digit_char)
qed

lemma slash_not_in_show_nat [simp]: "CHR ''/'' \<notin> set (show_nat n)"
  using set_show_nat [of "CHR ''/''" n] by (auto simp: digit_of_def)

lemma show_nat_slash [simp]:
  "last (show_nat n) \<noteq> CHR ''/''" "show_nat n \<noteq> s @ CHR ''/'' # t"
proof -
  show "last (show_nat n) \<noteq> CHR ''/''"
    using last_in_set [OF show_nat_Nil, of n] slash_not_in_show_nat [of n] by metis
  show "show_nat n \<noteq> s @ CHR ''/'' # t"
    using slash_not_in_show_nat [of n] by (auto simp del: slash_not_in_show_nat)
qed

lemma show_digits: "show_nat 0 = ''0''" "show_nat (Suc 0) = ''1''" "show_nat 5 = ''5''" "show_nat 6 = ''6''" "show_nat 9 = ''9''"
  by code_simp+

lemma plus_not_digit: "digit_of (CHR ''+'') = None"
  by (simp add: digit_of_def)

lemma parse_u64_show: "parse_u64 (show_u64 (w :: u64)) = Some w"
proof -
  obtain c cs where c: "show_u64 w = c # cs"
    by (cases "show_u64 w") auto
  then have "c \<noteq> CHR ''+''"
    using set_show_nat [of c "unat w"] plus_not_digit by auto
  then show ?thesis
    using parse_digits_show_nat [of "unat w"] unsigned_less [of w, where ?'a = nat]
    by (simp add: parse_u64_def c)
qed

text \<open>
  \<open>str::trim\<close> removes the Unicode white space at both ends; these are the UTF-8 encodings of
  the code points with the property White\_Space.
\<close>

definition white_space :: "string list" where
  "white_space = [[CHR 0x09], [CHR 0x0A], [CHR 0x0B], [CHR 0x0C], [CHR 0x0D], [CHR 0x20],
     [CHR 0xC2, CHR 0x85], [CHR 0xC2, CHR 0xA0], [CHR 0xE1, CHR 0x9A, CHR 0x80],
     [CHR 0xE2, CHR 0x80, CHR 0x80], [CHR 0xE2, CHR 0x80, CHR 0x81], [CHR 0xE2, CHR 0x80, CHR 0x82],
     [CHR 0xE2, CHR 0x80, CHR 0x83], [CHR 0xE2, CHR 0x80, CHR 0x84], [CHR 0xE2, CHR 0x80, CHR 0x85],
     [CHR 0xE2, CHR 0x80, CHR 0x86], [CHR 0xE2, CHR 0x80, CHR 0x87], [CHR 0xE2, CHR 0x80, CHR 0x88],
     [CHR 0xE2, CHR 0x80, CHR 0x89], [CHR 0xE2, CHR 0x80, CHR 0x8A], [CHR 0xE2, CHR 0x80, CHR 0xA8],
     [CHR 0xE2, CHR 0x80, CHR 0xA9], [CHR 0xE2, CHR 0x80, CHR 0xAF], [CHR 0xE2, CHR 0x81, CHR 0x9F],
     [CHR 0xE3, CHR 0x80, CHR 0x80]]"

definition starts_with :: "string \<Rightarrow> string \<Rightarrow> bool" where
  "starts_with s w = (take (length w) s = w)"

function strip_start :: "string list \<Rightarrow> string \<Rightarrow> string" where
  "strip_start ws s = (case find (\<lambda>w. w \<noteq> [] \<and> starts_with s w) ws of
     None \<Rightarrow> s | Some w \<Rightarrow> strip_start ws (drop (length w) s))"
  by pat_completeness auto
termination
  by (relation "measure (\<lambda>(ws, s). length s)")
    (auto simp: find_Some_iff starts_with_def intro!: diff_less)

declare strip_start.simps [simp del]

definition trim :: "string \<Rightarrow> string" where
  "trim s = rev (strip_start (map rev white_space) (rev (strip_start white_space s)))"

lemma strip_start_id: "\<forall>w \<in> set ws. w \<noteq> [] \<longrightarrow> \<not> starts_with s w \<Longrightarrow> strip_start ws s = s"
proof -
  assume "\<forall>w \<in> set ws. w \<noteq> [] \<longrightarrow> \<not> starts_with s w"
  then have "find (\<lambda>w. w \<noteq> [] \<and> starts_with s w) ws = None" by (auto simp: find_None_iff)
  then show ?thesis by (simp add: strip_start.simps [of ws s])
qed

lemma strip_start_stripped: "w \<in> set ws \<Longrightarrow> w \<noteq> [] \<Longrightarrow> \<not> starts_with (strip_start ws s) w"
proof (induction ws s rule: strip_start.induct)
  case (1 ws s)
  show ?case
  proof (cases "find (\<lambda>w. w \<noteq> [] \<and> starts_with s w) ws")
    case None
    then have "strip_start ws s = s" by (simp add: strip_start.simps [of ws s])
    with None 1(2,3) show ?thesis by (auto simp: find_None_iff)
  next
    case (Some v)
    then have "strip_start ws s = strip_start ws (drop (length v) s)" by (simp add: strip_start.simps [of ws s])
    with Some 1 show ?thesis by simp
  qed
qed

lemma trim_Nil [simp]: "trim [] = []"
proof -
  have "strip_start ws [] = []" for ws
    by (rule strip_start_id) (simp add: starts_with_def)
  then show ?thesis by (simp add: trim_def)
qed

lemma strip_start_idem: "strip_start ws (strip_start ws s) = strip_start ws s"
  by (rule strip_start_id) (auto dest: strip_start_stripped)

text \<open>
  \<open>str::contains\<close>, and \<open>str::to_lowercase\<close> on the letters of ASCII. The other characters that
  lowercase to text with an ASCII letter in it give a \<open>k\<close> or an \<open>i\<close> with a combining dot; the
  words the program searches for contain neither.
\<close>

fun contains :: "string \<Rightarrow> string \<Rightarrow> bool" where
  "contains [] w = (w = [])"
| "contains (c # cs) w = (starts_with (c # cs) w \<or> contains cs w)"

definition lower_char :: "char \<Rightarrow> char" where
  "lower_char c = (let n = (of_char c :: nat) in if 65 \<le> n \<and> n \<le> 90 then char_of (n + 32) else c)"

definition to_lowercase :: "string \<Rightarrow> string" where
  "to_lowercase s = map lower_char s"

lemma contains_append: "contains (s @ w @ t) w"
proof (induction s)
  case Nil
  have "starts_with (w @ t) w" by (simp add: starts_with_def)
  then show ?case by (cases "w @ t") auto
qed simp

text \<open>The well-formed byte sequences of UTF-8, as \<open>String::from_utf8\<close> checks them.\<close>

definition continuation :: "nat \<Rightarrow> bool" where
  "continuation b = (0x80 \<le> b \<and> b \<le> 0xBF)"

definition lead3 :: "nat \<Rightarrow> nat \<Rightarrow> bool" where
  "lead3 a b = (a = 0xE0 \<and> 0xA0 \<le> b \<and> b \<le> 0xBF \<or> a = 0xED \<and> 0x80 \<le> b \<and> b \<le> 0x9F \<or>
     0xE1 \<le> a \<and> a \<le> 0xEF \<and> a \<noteq> 0xED \<and> continuation b)"

definition lead4 :: "nat \<Rightarrow> nat \<Rightarrow> bool" where
  "lead4 a b = (a = 0xF0 \<and> 0x90 \<le> b \<and> b \<le> 0xBF \<or> a = 0xF4 \<and> 0x80 \<le> b \<and> b \<le> 0x8F \<or>
     0xF1 \<le> a \<and> a \<le> 0xF3 \<and> continuation b)"

fun well_formed_utf8 :: "nat list \<Rightarrow> bool" where
  "well_formed_utf8 [] = True"
| "well_formed_utf8 (a # bs) =
     (if a < 0x80 then well_formed_utf8 bs
      else (case bs of [] \<Rightarrow> False | b # cs \<Rightarrow>
        if 0xC2 \<le> a \<and> a \<le> 0xDF \<and> continuation b then well_formed_utf8 cs
        else (case cs of [] \<Rightarrow> False | c # ds \<Rightarrow>
          if lead3 a b \<and> continuation c then well_formed_utf8 ds
          else (case ds of [] \<Rightarrow> False | d # es \<Rightarrow>
            lead4 a b \<and> continuation c \<and> continuation d \<and> well_formed_utf8 es))))"

definition valid_utf8 :: "bytes \<Rightarrow> bool" where
  "valid_utf8 bs = well_formed_utf8 (map unat bs)"

text \<open>\<open>u64::to_be_bytes\<close> and \<open>u64::from_be_bytes\<close>, and the same for \<open>u32\<close>.\<close>

fun be_encode :: "nat \<Rightarrow> nat \<Rightarrow> bytes" where
  "be_encode 0 n = []"
| "be_encode (Suc k) n = be_encode k (n div 256) @ [of_nat (n mod 256)]"

definition be_decode :: "bytes \<Rightarrow> nat" where
  "be_decode bs = foldl (\<lambda>acc b. 256 * acc + unat b) 0 bs"

definition to_be_bytes_u64 :: "u64 \<Rightarrow> bytes" where
  "to_be_bytes_u64 w = be_encode 8 (unat w)"

definition to_be_bytes_u32 :: "u32 \<Rightarrow> bytes" where
  "to_be_bytes_u32 w = be_encode 4 (unat w)"

definition from_be_bytes_u64 :: "bytes \<Rightarrow> u64" where
  "from_be_bytes_u64 bs = of_nat (be_decode bs)"

lemma length_be_encode [simp]: "length (be_encode k n) = k"
  by (induction k arbitrary: n) auto

lemma be_decode_encode: "be_decode (be_encode k n) = n mod 256 ^ k"
proof (induction k arbitrary: n)
  case 0
  then show ?case by (simp add: be_decode_def)
next
  case (Suc k)
  have "be_decode (be_encode (Suc k) n) = 256 * be_decode (be_encode k (n div 256)) + n mod 256"
    by (simp add: be_decode_def unat_of_nat)
  also have "\<dots> = n mod 256 ^ Suc k"
    by (simp add: Suc mod_mult2_eq)
  finally show ?case .
qed

lemma length_to_be_bytes [simp]:
  "length (to_be_bytes_u64 w) = 8" "length (to_be_bytes_u32 v) = 4"
  by (simp_all add: to_be_bytes_u64_def to_be_bytes_u32_def)

lemma from_to_be_bytes_u64 [simp]: "from_be_bytes_u64 (to_be_bytes_u64 w) = w"
proof -
  have "unat w mod 256 ^ 8 = unat w"
    using unsigned_less [of w, where ?'a = nat] by simp
  then show ?thesis
    by (simp add: from_be_bytes_u64_def to_be_bytes_u64_def be_decode_encode)
qed

section \<open>Results, and results with state\<close>

text \<open>
  A \<open>Result<T, E>\<close> is \<open>'e + 'a\<close> with \<open>Inl\<close> for \<open>Err\<close>. An operation on shared
  state that may fail returns the state it leaves behind together with the result, since
  Rust keeps the effects made before the failing \<open>?\<close>.
\<close>

definition and_then :: "'e + 'a \<Rightarrow> ('a \<Rightarrow> 'e + 'b) \<Rightarrow> 'e + 'b" where
  "and_then r k = (case r of Inl e \<Rightarrow> Inl e | Inr v \<Rightarrow> k v)"

definition try_then :: "'s \<times> ('e + 'a) \<Rightarrow> ('s \<Rightarrow> 'a \<Rightarrow> 's \<times> ('e + 'b)) \<Rightarrow> 's \<times> ('e + 'b)" where
  "try_then r k = (case r of (s, Inl e) \<Rightarrow> (s, Inl e) | (s, Inr v) \<Rightarrow> k s v)"

definition map_err :: "('e \<Rightarrow> 'f) \<Rightarrow> 'e + 'a \<Rightarrow> 'f + 'a" where
  "map_err f r = map_sum f id r"

definition map_err_st :: "('e \<Rightarrow> 'f) \<Rightarrow> 's \<times> ('e + 'a) \<Rightarrow> 's \<times> ('f + 'a)" where
  "map_err_st f r = map_prod id (map_err f) r"

definition ok_or :: "'e \<Rightarrow> 'a option \<Rightarrow> 'e + 'a" where
  "ok_or e x = (case x of None \<Rightarrow> Inl e | Some v \<Rightarrow> Inr v)"

text \<open>\<open>zoom\<close> runs an operation of a part of the state on the whole state.\<close>

definition zoom :: "('s \<Rightarrow> 't) \<Rightarrow> ('t \<Rightarrow> 's \<Rightarrow> 's) \<Rightarrow> ('t \<Rightarrow> 't \<times> 'r) \<Rightarrow> 's \<Rightarrow> 's \<times> 'r" where
  "zoom get put f s = (case f (get s) of (t, r) \<Rightarrow> (put t s, r))"

lemma and_then_simps [simp, flow_simps]:
  "and_then (Inl e) k = Inl e" "and_then (Inr v) k = k v"
  by (simp_all add: and_then_def)

lemma try_then_simps [simp, flow_simps]:
  "try_then (s, Inl e) k = (s, Inl e)" "try_then (s, Inr v) k = k s v"
  by (simp_all add: try_then_def)

lemma map_err_simps [simp, flow_simps]:
  "map_err f (Inl e) = Inl (f e)" "map_err f (Inr v) = Inr v"
  "map_err_st f (s, r) = (s, map_err f r)"
  by (simp_all add: map_err_def map_err_st_def)

lemma ok_or_simps [simp, flow_simps]: "ok_or e None = Inl e" "ok_or e (Some v) = Inr v"
  by (simp_all add: ok_or_def)

lemma map_err_Inr [simp]: "map_err f r = Inr v \<longleftrightarrow> r = Inr v"
  by (cases r) auto

lemma map_err_Inl: "map_err f r = Inl e \<longleftrightarrow> (\<exists>d. r = Inl d \<and> e = f d)"
  by (cases r) auto

lemma map_err_st_Inr [simp]: "map_err_st f p = (s, Inr v) \<longleftrightarrow> p = (s, Inr v)"
  by (cases p) auto

lemma fst_map_err_st [simp]: "fst (map_err_st f p) = fst p"
  by (cases p) auto

lemma snd_map_err_st [simp]: "snd (map_err_st f p) = map_err f (snd p)"
  by (cases p) auto

lemma ok_or_Inr [simp]: "ok_or e x = Inr v \<longleftrightarrow> x = Some v"
  by (cases x) auto

lemma ok_or_Inl [simp]: "ok_or e x = Inl d \<longleftrightarrow> x = None \<and> d = e"
  by (cases x) auto

lemma and_then_Inr: "and_then r k = Inr v \<longleftrightarrow> (\<exists>a. r = Inr a \<and> k a = Inr v)"
  by (cases r) auto

lemma and_then_Inl: "and_then r k = Inl e \<longleftrightarrow> r = Inl e \<or> (\<exists>a. r = Inr a \<and> k a = Inl e)"
  by (cases r) auto

lemma try_then_Inr:
  "try_then r k = (s', Inr v) \<longleftrightarrow> (\<exists>s a. r = (s, Inr a) \<and> k s a = (s', Inr v))"
  by (auto simp: try_then_def split: prod.splits sum.splits)

lemma try_then_Inl:
  "try_then r k = (s', Inl e) \<longleftrightarrow>
     r = (s', Inl e) \<or> (\<exists>s a. r = (s, Inr a) \<and> k s a = (s', Inl e))"
  by (auto simp: try_then_def split: prod.splits sum.splits)

text \<open>An invariant of the state passes through \<open>?\<close> when both sides keep it.\<close>

lemma try_then_inv:
  assumes "P (fst r)" and "\<And>s a. r = (s, Inr a) \<Longrightarrow> P s \<Longrightarrow> P (fst (k s a))"
  shows "P (fst (try_then r k))"
  using assms by (cases r) (auto simp: try_then_def split: sum.splits)

lemma zoom_simp [flow_simps]: "f (get s) = (t, r) \<Longrightarrow> zoom get put f s = (put t s, r)"
  by (simp add: zoom_def)

lemma zoom_eq: "zoom get put f s = (put (fst (f (get s))) s, snd (f (get s)))"
  by (simp add: zoom_def split: prod.split)

lemma zoom_iff: "zoom get put f s = (s', r) \<longleftrightarrow> (\<exists>t. f (get s) = (t, r) \<and> s' = put t s)"
  by (auto simp: zoom_def split: prod.split)

section \<open>Paths\<close>

type_synonym path = string

text \<open>\<open>PathBuf::join\<close> on Unix: an absolute right side replaces the left side.\<close>

definition path_join :: "path \<Rightarrow> path \<Rightarrow> path" where
  "path_join p q =
     (if q \<noteq> [] \<and> hd q = CHR ''/'' then q
      else if p = [] then q
      else if last p = CHR ''/'' then p @ q
      else p @ ''/'' @ q)"

lemma path_join_relative:
  "q \<noteq> [] \<Longrightarrow> hd q \<noteq> CHR ''/'' \<Longrightarrow> p \<noteq> [] \<Longrightarrow> last p \<noteq> CHR ''/'' \<Longrightarrow>
     path_join p q = p @ ''/'' @ q"
  by (simp add: path_join_def)

end
