(* ===== verification/World.thy ===== *)
theory World
  imports Prelude
begin

text \<open>
  What the program calls but does not define. The SurrealKV engine, the serialisation library
  postcard and the file system are parameters: records of operations that the definitions of
  the components take as arguments. Each comes with a predicate stating the documented
  behaviour that some theorems rely on (\<open>surrealkv_ok\<close>, \<open>codec_ok\<close>, \<open>files_ok\<close>) and
  with a small in-memory instance on which concrete runs are evaluated. The clock and the
  source of fresh UUIDs are sequences of readings in the state \<open>world\<close>, so two readings
  made by one function may differ.
\<close>

section \<open>SurrealKV\<close>

text \<open>
  A tree \<open>'t\<close> with transactions \<open>'x\<close>; \<open>tree_view\<close> opens the read-only transaction that
  \<open>Tree::view\<close> hands to its closure. \<open>create_checkpoint\<close> writes into the file
  system and returns the sequence number of its metadata; \<open>tree_open\<close> is
  \<open>TreeBuilder::with_path(..).build()\<close>. Errors are their display strings.
\<close>

record ('t, 'x, 'f) surrealkv =
  tree_begin :: "'t \<Rightarrow> string + 'x"
  tree_view :: "'t \<Rightarrow> string + 'x"
  txn_get :: "'x \<Rightarrow> bytes \<Rightarrow> string + bytes option"
  txn_set :: "'x \<Rightarrow> bytes \<Rightarrow> bytes \<Rightarrow> string + 'x"
  txn_delete :: "'x \<Rightarrow> bytes \<Rightarrow> string + 'x"
  txn_commit :: "'t \<Rightarrow> 'x \<Rightarrow> 't \<times> (string + unit)"
  create_checkpoint :: "'t \<Rightarrow> 'f \<Rightarrow> path \<Rightarrow> 'f \<times> (string + u64)"
  tree_open :: "'f \<Rightarrow> path \<Rightarrow> 'f \<times> (string + 't)"

text \<open>
  Transactions are atomic and read a snapshot: a read sees the tree the transaction began on,
  writes are buffered, a successful commit applies exactly the buffered writes, and a failed
  commit applies none. \<open>view\<close> is the content of a tree, \<open>pend\<close> the buffered writes.
\<close>

definition surrealkv_ok ::
  "('t, 'x, 'f) surrealkv \<Rightarrow> ('t \<Rightarrow> bytes \<Rightarrow> bytes option) \<Rightarrow>
   ('x \<Rightarrow> bytes \<Rightarrow> bytes option option) \<Rightarrow> bool" where
  "surrealkv_ok kv view pend \<longleftrightarrow>
     (\<forall>t x. tree_begin kv t = Inr x \<longrightarrow>
        pend x = (\<lambda>_. None) \<and> (\<forall>k v. txn_get kv x k = Inr v \<longrightarrow> v = view t k)) \<and>
     (\<forall>t x k v. tree_view kv t = Inr x \<longrightarrow> txn_get kv x k = Inr v \<longrightarrow> v = view t k) \<and>
     (\<forall>x k v x'. txn_set kv x k v = Inr x' \<longrightarrow> pend x' = (pend x)(k := Some (Some v))) \<and>
     (\<forall>x k x'. txn_delete kv x k = Inr x' \<longrightarrow> pend x' = (pend x)(k := Some None)) \<and>
     (\<forall>t x t' u. txn_commit kv t x = (t', Inr u) \<longrightarrow>
        view t' = (\<lambda>k. case pend x k of None \<Rightarrow> view t k | Some v \<Rightarrow> v)) \<and>
     (\<forall>t x t' e. txn_commit kv t x = (t', Inl e) \<longrightarrow> view t' = view t)"

lemma surrealkv_begin:
  "surrealkv_ok kv view pend \<Longrightarrow> tree_begin kv t = Inr x \<Longrightarrow> pend x = (\<lambda>_. None)"
  "surrealkv_ok kv view pend \<Longrightarrow> tree_begin kv t = Inr x \<Longrightarrow> txn_get kv x k = Inr v \<Longrightarrow> v = view t k"
  by (auto simp: surrealkv_ok_def)

lemma surrealkv_view:
  "surrealkv_ok kv view pend \<Longrightarrow> tree_view kv t = Inr x \<Longrightarrow> txn_get kv x k = Inr v \<Longrightarrow> v = view t k"
  unfolding surrealkv_ok_def by blast

lemma surrealkv_set:
  "surrealkv_ok kv view pend \<Longrightarrow> txn_set kv x k v = Inr x' \<Longrightarrow> pend x' = (pend x)(k := Some (Some v))"
  by (auto simp: surrealkv_ok_def)

lemma surrealkv_delete:
  "surrealkv_ok kv view pend \<Longrightarrow> txn_delete kv x k = Inr x' \<Longrightarrow> pend x' = (pend x)(k := Some None)"
  by (auto simp: surrealkv_ok_def)

lemma surrealkv_commit:
  "surrealkv_ok kv view pend \<Longrightarrow> txn_commit kv t x = (t', Inr u) \<Longrightarrow>
     view t' = (\<lambda>k. case pend x k of None \<Rightarrow> view t k | Some v \<Rightarrow> v)"
  "surrealkv_ok kv view pend \<Longrightarrow> txn_commit kv t x = (t', Inl e) \<Longrightarrow> view t' = view t"
  unfolding surrealkv_ok_def by blast+

lemmas surrealkv_laws = surrealkv_begin(1) surrealkv_set surrealkv_delete surrealkv_commit

section \<open>postcard\<close>

text \<open>
  The codec of one serialisable type: \<open>postcard::to_stdvec\<close> and \<open>postcard::from_bytes\<close>.
  The documented property used is that what was encoded decodes to the same value.
\<close>

record 'a codec =
  to_stdvec :: "'a \<Rightarrow> string + bytes"
  from_bytes :: "bytes \<Rightarrow> string + 'a"

definition codec_ok :: "'a codec \<Rightarrow> bool" where
  "codec_ok c \<longleftrightarrow> (\<forall>x bs. to_stdvec c x = Inr bs \<longrightarrow> from_bytes c bs = Inr x)"

lemma codec_okD: "codec_ok c \<Longrightarrow> to_stdvec c x = Inr bs \<Longrightarrow> from_bytes c bs = Inr x"
  by (simp add: codec_ok_def)

text \<open>A codec for the values of a finite table; any other value fails to encode.\<close>

fun index_in :: "'a \<Rightarrow> 'a list \<Rightarrow> nat option" where
  "index_in x [] = None"
| "index_in x (y # ys) = (if x = y then Some 0 else map_option Suc (index_in x ys))"

definition table_codec :: "'a list \<Rightarrow> 'a codec" where
  "table_codec xs = \<lparr>
     to_stdvec = (\<lambda>x. case index_in x xs of
        Some i \<Rightarrow> Inr (be_encode 2 i) | None \<Rightarrow> Inl ''value not in table''),
     from_bytes = (\<lambda>bs. if be_decode bs < length xs then Inr (xs ! be_decode bs)
        else Inl ''index out of table'')\<rparr>"

lemma to_stdvec_table_codec:
  "to_stdvec (table_codec xs) x =
     (case index_in x xs of Some i \<Rightarrow> Inr (be_encode 2 i) | None \<Rightarrow> Inl ''value not in table'')"
  by (simp add: table_codec_def)

lemma index_in_Some: "index_in x xs = Some i \<Longrightarrow> i < length xs \<and> xs ! i = x"
  by (induction xs arbitrary: i) (auto split: if_splits)

lemma table_codec_ok: "length xs < 65536 \<Longrightarrow> codec_ok (table_codec xs)"
  by (auto simp: codec_ok_def table_codec_def be_decode_encode dest!: index_in_Some
      simp del: be_encode.simps split: option.splits)

section \<open>The file system\<close>

text \<open>
  \<open>std::fs\<close> and \<open>tokio::fs\<close> as operations on a file-system state \<open>'f\<close>. A modification
  time is nanoseconds since the Unix epoch, and may be unavailable.
\<close>

record file_meta =
  is_dir :: bool
  is_file :: bool
  file_len :: u64
  modified :: "int option"

record dir_entry =
  entry_path :: path
  entry_name :: string
  entry_meta :: "string + file_meta"

record 'f filesystem =
  fs_metadata :: "'f \<Rightarrow> path \<Rightarrow> string + file_meta"
  fs_read :: "'f \<Rightarrow> path \<Rightarrow> string + bytes"
  fs_read_dir :: "'f \<Rightarrow> path \<Rightarrow> string + (string + dir_entry) list"
  fs_write :: "path \<Rightarrow> bytes \<Rightarrow> 'f \<Rightarrow> 'f \<times> (string + unit)"
  fs_create_dir_all :: "path \<Rightarrow> 'f \<Rightarrow> 'f \<times> (string + unit)"
  fs_remove_file :: "path \<Rightarrow> 'f \<Rightarrow> 'f \<times> (string + unit)"
  fs_remove_dir_all :: "path \<Rightarrow> 'f \<Rightarrow> 'f \<times> (string + unit)"
  fs_hard_link :: "path \<Rightarrow> path \<Rightarrow> 'f \<Rightarrow> 'f \<times> (string + unit)"
  fs_copy :: "path \<Rightarrow> path \<Rightarrow> 'f \<Rightarrow> 'f \<times> (string + unit)"

definition path_exists :: "'f filesystem \<Rightarrow> 'f \<Rightarrow> path \<Rightarrow> bool" where
  "path_exists fs f p = (\<not> isl (fs_metadata fs f p))"

text \<open>
  A successful write of a file is what a later read of that path returns, and exists;
  other paths read as before. Creating a directory makes it exist and changes no file.
\<close>

definition files_ok :: "'f filesystem \<Rightarrow> bool" where
  "files_ok fs \<longleftrightarrow>
     (\<forall>f p b f' u. fs_write fs p b f = (f', Inr u) \<longrightarrow>
        fs_read fs f' p = Inr b \<and> path_exists fs f' p \<and>
        (\<forall>q. q \<noteq> p \<longrightarrow> fs_read fs f' q = fs_read fs f q) \<and>
        (\<forall>q. path_exists fs f q \<longrightarrow> path_exists fs f' q)) \<and>
     (\<forall>f p f' u. fs_create_dir_all fs p f = (f', Inr u) \<longrightarrow>
        path_exists fs f' p \<and> (\<forall>q. fs_read fs f' q = fs_read fs f q) \<and>
        (\<forall>q. path_exists fs f q \<longrightarrow> path_exists fs f' q))"

lemma files_ok_write:
  "files_ok fs \<Longrightarrow> fs_write fs p b f = (f', Inr u) \<Longrightarrow> fs_read fs f' p = Inr b"
  "files_ok fs \<Longrightarrow> fs_write fs p b f = (f', Inr u) \<Longrightarrow> path_exists fs f' p"
  "files_ok fs \<Longrightarrow> fs_write fs p b f = (f', Inr u) \<Longrightarrow> q \<noteq> p \<Longrightarrow> fs_read fs f' q = fs_read fs f q"
  "files_ok fs \<Longrightarrow> fs_write fs p b f = (f', Inr u) \<Longrightarrow> path_exists fs f q \<Longrightarrow> path_exists fs f' q"
  unfolding files_ok_def by blast+

lemma files_ok_create_dir:
  "files_ok fs \<Longrightarrow> fs_create_dir_all fs p f = (f', Inr u) \<Longrightarrow> path_exists fs f' p"
  "files_ok fs \<Longrightarrow> fs_create_dir_all fs p f = (f', Inr u) \<Longrightarrow> fs_read fs f' q = fs_read fs f q"
  "files_ok fs \<Longrightarrow> fs_create_dir_all fs p f = (f', Inr u) \<Longrightarrow> path_exists fs f q \<Longrightarrow> path_exists fs f' q"
  unfolding files_ok_def by blast+

text \<open>\<open>std::fs::read_to_string\<close>.\<close>

definition read_to_string :: "'f filesystem \<Rightarrow> 'f \<Rightarrow> path \<Rightarrow> string + string" where
  "read_to_string fs f p = and_then (fs_read fs f p) (\<lambda>b.
     if valid_utf8 b then Inr (of_bytes b) else Inl ''stream did not contain valid UTF-8'')"

text \<open>An in-memory file system: each path is absent, a directory or a file with its bytes.\<close>

datatype node = DirNode | FileNode bytes

type_synonym mem_files = "(path \<times> node) list"

definition node_meta :: "node \<Rightarrow> file_meta" where
  "node_meta n = (case n of
     DirNode \<Rightarrow> \<lparr>is_dir = True, is_file = False, file_len = 0, modified = None\<rparr>
   | FileNode b \<Rightarrow> \<lparr>is_dir = False, is_file = True, file_len = of_nat (length b), modified = None\<rparr>)"

definition child_of :: "path \<Rightarrow> path \<Rightarrow> bool" where
  "child_of d p = (let pre = d @ ''/'' in
     length pre < length p \<and> take (length pre) p = pre \<and> CHR ''/'' \<notin> set (drop (length pre) p))"

definition mem_fs :: "mem_files filesystem" where
  "mem_fs = \<lparr>
     fs_metadata = (\<lambda>f p. case map_of f p of None \<Rightarrow> Inl ''not found'' | Some n \<Rightarrow> Inr (node_meta n)),
     fs_read = (\<lambda>f p. case map_of f p of Some (FileNode b) \<Rightarrow> Inr b | _ \<Rightarrow> Inl ''not found''),
     fs_read_dir = (\<lambda>f p. if map_of f p = Some DirNode
        then Inr (map (\<lambda>(q, n). Inr \<lparr>entry_path = q, entry_name = drop (length p + 1) q,
               entry_meta = Inr (node_meta n)\<rparr>) (filter (\<lambda>(q, n). child_of p q) f))
        else Inl ''not a directory''),
     fs_write = (\<lambda>p b f. if map_of f p = Some DirNode then (f, Inl ''is a directory'')
        else ((p, FileNode b) # filter (\<lambda>(q, n). q \<noteq> p) f, Inr ())),
     fs_create_dir_all = (\<lambda>p f. case map_of f p of
        None \<Rightarrow> ((p, DirNode) # f, Inr ())
      | Some DirNode \<Rightarrow> (f, Inr ())
      | Some (FileNode b) \<Rightarrow> (f, Inl ''file exists'')),
     fs_remove_file = (\<lambda>p f. case map_of f p of
        Some (FileNode b) \<Rightarrow> (filter (\<lambda>(q, n). q \<noteq> p) f, Inr ())
      | _ \<Rightarrow> (f, Inl ''not found'')),
     fs_remove_dir_all = (\<lambda>p f. if map_of f p = Some DirNode
        then (filter (\<lambda>(q, n). q \<noteq> p \<and> take (length p + 1) q \<noteq> p @ ''/'') f, Inr ())
        else (f, Inl ''not a directory'')),
     fs_hard_link = (\<lambda>p q f. (f, Inl ''not supported'')),
     fs_copy = (\<lambda>p q f. case map_of f p of
        Some (FileNode b) \<Rightarrow> ((q, FileNode b) # filter (\<lambda>(r, n). r \<noteq> q) f, Inr ())
      | _ \<Rightarrow> (f, Inl ''not found''))\<rparr>"

lemma mem_fs_simps [simp]:
  "fs_metadata mem_fs f p = (case map_of f p of None \<Rightarrow> Inl ''not found'' | Some n \<Rightarrow> Inr (node_meta n))"
  "fs_read mem_fs f p = (case map_of f p of Some (FileNode b) \<Rightarrow> Inr b | _ \<Rightarrow> Inl ''not found'')"
  "fs_write mem_fs p b f = (if map_of f p = Some DirNode then (f, Inl ''is a directory'')
     else ((p, FileNode b) # filter (\<lambda>(q, n). q \<noteq> p) f, Inr ()))"
  "fs_create_dir_all mem_fs p f = (case map_of f p of
        None \<Rightarrow> ((p, DirNode) # f, Inr ())
      | Some DirNode \<Rightarrow> (f, Inr ())
      | Some (FileNode b) \<Rightarrow> (f, Inl ''file exists''))"
  "fs_remove_file mem_fs p f = (case map_of f p of
        Some (FileNode b) \<Rightarrow> (filter (\<lambda>(q, n). q \<noteq> p) f, Inr ())
      | _ \<Rightarrow> (f, Inl ''not found''))"
  by (simp_all add: mem_fs_def)

lemma map_of_filter_neq: "map_of (filter (\<lambda>(q, n). q \<noteq> p) f) r = (if r = p then None else map_of f r)"
  by (induction f) auto

lemma mem_fs_ok: "files_ok mem_fs"
  unfolding files_ok_def mem_fs_def path_exists_def
  by (auto simp: map_of_filter_neq split: option.splits node.splits if_splits)

text \<open>An in-memory engine: the tree is its content, a transaction a snapshot and its writes.\<close>

type_synonym mem_tree = "bytes \<Rightarrow> bytes option"
type_synonym mem_txn = "mem_tree \<times> (bytes \<Rightarrow> bytes option option)"

definition mem_kv :: "(mem_tree, mem_txn, mem_files) surrealkv" where
  "mem_kv = \<lparr>
     tree_begin = (\<lambda>t. Inr (t, \<lambda>_. None)),
     tree_view = (\<lambda>t. Inr (t, \<lambda>_. None)),
     txn_get = (\<lambda>(t, p) k. Inr (case p k of None \<Rightarrow> t k | Some v \<Rightarrow> v)),
     txn_set = (\<lambda>(t, p) k v. Inr (t, p(k := Some (Some v)))),
     txn_delete = (\<lambda>(t, p) k. Inr (t, p(k := Some None))),
     txn_commit = (\<lambda>t (_, p). (\<lambda>k. case p k of None \<Rightarrow> t k | Some v \<Rightarrow> v, Inr ())),
     create_checkpoint = (\<lambda>t f p. (f, Inr 7)),
     tree_open = (\<lambda>f p. (f, Inr (\<lambda>_. None)))\<rparr>"

lemma mem_kv_ok: "surrealkv_ok mem_kv (\<lambda>t. t) snd"
  by (auto simp: surrealkv_ok_def mem_kv_def)

lemma mem_kv_simps [simp]:
  "tree_begin mem_kv t = Inr (t, \<lambda>_. None)"
  "tree_view mem_kv t = Inr (t, \<lambda>_. None)"
  "txn_get mem_kv (t, p) k = Inr (case p k of None \<Rightarrow> t k | Some v \<Rightarrow> v)"
  "txn_set mem_kv (t, p) k v = Inr (t, p(k := Some (Some v)))"
  "txn_delete mem_kv (t, p) k = Inr (t, p(k := Some None))"
  "txn_commit mem_kv t' (t, p) = (\<lambda>k. case p k of None \<Rightarrow> t' k | Some v \<Rightarrow> v, Inr ())"
  "create_checkpoint mem_kv t f q = (f, Inr 7)"
  "tree_open mem_kv f q = (f, Inr (\<lambda>_. None))"
  by (simp_all add: mem_kv_def)

section \<open>Clock, UUIDs, and the state they live in\<close>

record 'f world =
  files :: 'f
  clock :: "nat \<Rightarrow> u64 option" \<comment> \<open>the readings, \<open>None\<close> for a time before the epoch\<close>
  ticks :: nat
  uuid_source :: "nat \<Rightarrow> string"
  uuids :: nat

text \<open>\<open>SystemTime::now().duration_since(UNIX_EPOCH).map(|d| d.as_secs())\<close>\<close>

definition system_time :: "'f world \<Rightarrow> 'f world \<times> u64 option" where
  "system_time w = (w\<lparr>ticks := Suc (ticks w)\<rparr>, clock w (ticks w))"

definition new_uuid :: "'f world \<Rightarrow> 'f world \<times> string" where
  "new_uuid w = (w\<lparr>uuids := Suc (uuids w)\<rparr>, uuid_source w (uuids w))"

definition on_files :: "('f \<Rightarrow> 'f \<times> 'r) \<Rightarrow> 'f world \<Rightarrow> 'f world \<times> 'r" where
  "on_files op w = (case op (files w) of (f, r) \<Rightarrow> (w\<lparr>files := f\<rparr>, r))"

lemma on_files_simps [simp]:
  "clock (fst (on_files op w)) = clock w" "ticks (fst (on_files op w)) = ticks w"
  "files (fst (on_files op w)) = fst (op (files w))" "snd (on_files op w) = snd (op (files w))"
  by (simp_all add: on_files_def split: prod.splits)

lemma on_files_eq: "on_files op w = (w', r) \<longleftrightarrow> (\<exists>f. op (files w) = (f, r) \<and> w' = w\<lparr>files := f\<rparr>)"
  by (auto simp: on_files_def split: prod.splits)

definition mem_world :: "mem_files \<Rightarrow> (nat \<Rightarrow> u64) \<Rightarrow> mem_files world" where
  "mem_world f t = \<lparr>files = f, clock = Some \<circ> t, ticks = 0, uuid_source = show_nat, uuids = 0\<rparr>"

end
