(* ===== verification/Types.thy ===== *)
theory Types
  imports World
begin

text \<open>
  The data of \<open>src/types.rs\<close>, \<open>src/error.rs\<close> and \<open>src/snapshot/metadata.rs\<close> with their
  constructors, builders and display functions, and the shapes of the OpenRaft values that the
  storage layer takes apart and builds (log ids, votes, entries, snapshots). A cluster
  membership stays abstract: it is the type parameter \<open>'m\<close>.
\<close>

section \<open>Errors (error.rs)\<close>

text \<open>An \<open>io::Error\<close> is its display string.\<close>

datatype RaftError =
    Io string
  | Serialization string
  | Storage string
  | Network string
  | RaftProto string
  | Snapshot string
  | StateMachine string
  | Other string

primrec display_RaftError :: "RaftError \<Rightarrow> string" where
  "display_RaftError (Io e) = ''IO error: '' @ e"
| "display_RaftError (Serialization msg) = ''Serialization error: '' @ msg"
| "display_RaftError (Storage msg) = ''Storage error: '' @ msg"
| "display_RaftError (Network msg) = ''Network error: '' @ msg"
| "display_RaftError (RaftProto msg) = ''Raft protocol error: '' @ msg"
| "display_RaftError (Snapshot msg) = ''Snapshot error: '' @ msg"
| "display_RaftError (StateMachine msg) = ''State machine error: '' @ msg"
| "display_RaftError (Other msg) = ''Error: '' @ msg"

text \<open>The \<open>From\<close> conversions that \<open>?\<close> applies.\<close>

definition from_io_error :: "string \<Rightarrow> RaftError" where
  "from_io_error err = Io err"

definition from_postcard_error :: "string \<Rightarrow> RaftError" where
  "from_postcard_error err = Serialization err"

definition from_anyhow_error :: "string \<Rightarrow> RaftError" where
  "from_anyhow_error err = Other err"

definition from_surrealkv_error :: "string \<Rightarrow> RaftError" where
  "from_surrealkv_error err = Storage (''SurrealKV error: '' @ err)"

section \<open>Requests and responses (types.rs)\<close>

datatype KVRequest = Set string bytes | Delete string

datatype KVResponse = Ok | Value bytes | Err string

fun debug_bytes_tail :: "bytes \<Rightarrow> string" where
  "debug_bytes_tail [] = '']''"
| "debug_bytes_tail (b # bs) = '', '' @ show_u64 b @ debug_bytes_tail bs"

definition debug_bytes :: "bytes \<Rightarrow> string" where
  "debug_bytes bs = (case bs of [] \<Rightarrow> ''[]'' | b # bs' \<Rightarrow> ''['' @ show_u64 b @ debug_bytes_tail bs')"

primrec display_KVRequest :: "KVRequest \<Rightarrow> string" where
  "display_KVRequest (Set key value) =
     ''Set { key: '' @ [CHR 0x22] @ key @ [CHR 0x22] @ '', value: '' @ debug_bytes value @ '' }''"
| "display_KVRequest (Delete key) =
     ''Delete { key: '' @ [CHR 0x22] @ key @ [CHR 0x22] @ '' }''"

primrec display_KVResponse :: "KVResponse \<Rightarrow> string" where
  "display_KVResponse Ok = ''Ok''"
| "display_KVResponse (Value v) = ''Value''"
| "display_KVResponse (Err e) = ''Err: '' @ e"

section \<open>Checkpoint metadata (snapshot/metadata.rs)\<close>

record CheckpointMetadata =
  cm_applied_index :: u64
  cm_term :: u64
  cm_sequence_number :: u64
  cm_timestamp :: u64
  cm_crc32 :: u32
  cm_checkpoint_dir :: path
  cm_compressed_size :: u64

text \<open>\<open>now_secs\<close>, defined identically in three modules: the clock, 0 before the epoch.\<close>

definition now_secs :: "'f world \<Rightarrow> 'f world \<times> u64" where
  "now_secs w = (case system_time w of (w', t) \<Rightarrow> (w', case t of None \<Rightarrow> 0 | Some s \<Rightarrow> s))"

definition CheckpointMetadata_new ::
  "u64 \<Rightarrow> u64 \<Rightarrow> u64 \<Rightarrow> path \<Rightarrow> 'f world \<Rightarrow> 'f world \<times> CheckpointMetadata" where
  "CheckpointMetadata_new applied_index term sequence_number checkpoint_dir w =
     (case now_secs w of (w', timestamp) \<Rightarrow>
        (w', \<lparr>cm_applied_index = applied_index, cm_term = term,
              cm_sequence_number = sequence_number, cm_timestamp = timestamp, cm_crc32 = 0,
              cm_checkpoint_dir = checkpoint_dir, cm_compressed_size = 0\<rparr>))"

definition with_crc32 :: "u32 \<Rightarrow> CheckpointMetadata \<Rightarrow> CheckpointMetadata" where
  "with_crc32 crc m = m\<lparr>cm_crc32 := crc\<rparr>"

definition with_compressed_size :: "u64 \<Rightarrow> CheckpointMetadata \<Rightarrow> CheckpointMetadata" where
  "with_compressed_size sz m = m\<lparr>cm_compressed_size := sz\<rparr>"

definition verify_consistency :: "CheckpointMetadata \<Rightarrow> u64 \<Rightarrow> bool" where
  "verify_consistency m expected_index = (cm_applied_index m = expected_index)"

definition dir_name :: "CheckpointMetadata \<Rightarrow> string" where
  "dir_name m = ''checkpoint_'' @ show_u64 (cm_timestamp m)"

lemma dir_name_inject [simp]: "dir_name m = dir_name m' \<longleftrightarrow> cm_timestamp m = cm_timestamp m'"
  by (simp add: dir_name_def word_unat_eq_iff)

lemma dir_name_relative: "dir_name m \<noteq> []" "hd (dir_name m) \<noteq> CHR ''/''"
  by (simp_all add: dir_name_def)

section \<open>Delta entries and snapshot formats (types.rs)\<close>

record DeltaEntry =
  de_term :: u64
  de_index :: u64
  de_payload :: bytes

definition DeltaEntry_new :: "u64 \<Rightarrow> u64 \<Rightarrow> bytes \<Rightarrow> DeltaEntry" where
  "DeltaEntry_new term index payload = \<lparr>de_term = term, de_index = index, de_payload = payload\<rparr>"

datatype SnapshotFormat =
    Full CheckpointMetadata
  | Delta (base_index: u64) (entry_count: u64)

record DeltaMetadata =
  dm_format :: SnapshotFormat
  dm_size_bytes :: u64
  dm_created_at :: u64
  dm_file_path :: "string option"
  dm_version :: u16

definition DeltaMetadata_new :: "SnapshotFormat \<Rightarrow> u64 \<Rightarrow> u64 \<Rightarrow> DeltaMetadata" where
  "DeltaMetadata_new format size_bytes created_at =
     \<lparr>dm_format = format, dm_size_bytes = size_bytes, dm_created_at = created_at,
      dm_file_path = None, dm_version = 2\<rparr>"

definition DeltaMetadata_with_file_path :: "string \<Rightarrow> DeltaMetadata \<Rightarrow> DeltaMetadata" where
  "DeltaMetadata_with_file_path p m = m\<lparr>dm_file_path := Some p\<rparr>"

section \<open>OpenRaft values\<close>

text \<open>
  The parts of OpenRaft's types that the source reads or writes. With the leader id of
  \<open>leader_id_std\<close> a log id is a term and an index (\<open>LogId::new_term_index\<close>,
  \<open>committed_leader_id\<close>), and a vote is a term, the candidate voted for and whether a
  quorum granted it.
\<close>

record LogId =
  li_term :: u64
  li_index :: u64

definition new_term_index :: "u64 \<Rightarrow> u64 \<Rightarrow> LogId" where
  "new_term_index t i = \<lparr>li_term = t, li_index = i\<rparr>"

record Vote =
  vote_term :: u64
  vote_voted_for :: "u64 option"
  vote_committed :: bool

datatype 'm EntryPayload = Blank | Normal KVRequest | Membership 'm

record 'm Entry =
  entry_log_id :: LogId
  entry_payload :: "'m EntryPayload"

record 'm StoredMembership =
  sm_log_id :: "LogId option"
  sm_membership :: 'm

record 'm SnapshotMeta =
  meta_last_log_id :: "LogId option"
  meta_snapshot_id :: string
  meta_last_membership :: "'m StoredMembership"

record 'm RaftSnapshot =
  snap_meta :: "'m SnapshotMeta"
  snap_data :: bytes

record LogState =
  ls_last_purged_log_id :: "LogId option"
  ls_last_log_id :: "LogId option"

end
