(* ===== verification/State.thy ===== *)
theory State
  imports Types
begin

text \<open>
  \<open>src/state.rs\<close>: the persistent metadata of a node. Four values (voting state, applied
  state, snapshot state, merge progress) are cached in memory and stored in the tree under
  fixed keys. The manager is the record \<open>MetadataManager\<close>; its tree is the one the storage
  layer shares. \<open>metadata_slot\<close> is the contract of one such value: a successful save is
  what the cache and a later load return, a failed save changes neither.
\<close>

section \<open>Data\<close>

record VotingState =
  current_term :: u64
  voted_for :: "u64 option"

definition VotingState_new :: VotingState where
  "VotingState_new = \<lparr>current_term = 0, voted_for = None\<rparr>"

record AppliedState =
  last_applied_index :: u64
  last_applied_term :: u64

definition AppliedState_new :: AppliedState where
  "AppliedState_new = \<lparr>last_applied_index = 0, last_applied_term = 0\<rparr>"

text \<open>\<open>state::CheckpointMetadata\<close>, imported elsewhere as \<open>PersistedCheckpointMetadata\<close>.\<close>

record PersistedCheckpointMetadata =
  checkpoint_index :: u64
  checkpoint_term :: u64
  sequence_number :: u64
  cp_created_at :: u64
  checkpoint_path :: "string option"

definition PersistedCheckpointMetadata_new ::
  "u64 \<Rightarrow> u64 \<Rightarrow> u64 \<Rightarrow> u64 \<Rightarrow> PersistedCheckpointMetadata" where
  "PersistedCheckpointMetadata_new index term seq timestamp =
     \<lparr>checkpoint_index = index, checkpoint_term = term, sequence_number = seq,
      cp_created_at = timestamp, checkpoint_path = None\<rparr>"

definition with_checkpoint_path ::
  "string \<Rightarrow> PersistedCheckpointMetadata \<Rightarrow> PersistedCheckpointMetadata" where
  "with_checkpoint_path p cp = cp\<lparr>checkpoint_path := Some p\<rparr>"

record DeltaInfo =
  start_index :: u64
  end_index :: u64
  di_size_bytes :: u64
  di_created_at :: u64
  di_file_path :: "string option"

definition DeltaInfo_new :: "u64 \<Rightarrow> u64 \<Rightarrow> u64 \<Rightarrow> u64 \<Rightarrow> DeltaInfo" where
  "DeltaInfo_new st en sz timestamp =
     \<lparr>start_index = st, end_index = en, di_size_bytes = sz, di_created_at = timestamp,
      di_file_path = None\<rparr>"

definition DeltaInfo_with_file_path :: "string \<Rightarrow> DeltaInfo \<Rightarrow> DeltaInfo" where
  "DeltaInfo_with_file_path p d = d\<lparr>di_file_path := Some p\<rparr>"

record MergeProgressState =
  in_progress :: bool
  trigger_reason :: "string option"
  attempt :: u8
  max_retries :: u8
  started_at :: u64
  updated_at :: u64
  last_error :: "string option"

definition MergeProgressState_new :: MergeProgressState where
  "MergeProgressState_new =
     \<lparr>in_progress = False, trigger_reason = None, attempt = 0, max_retries = 0,
      started_at = 0, updated_at = 0, last_error = None\<rparr>"

definition MergeProgressState_started :: "string \<Rightarrow> u8 \<Rightarrow> u8 \<Rightarrow> u64 \<Rightarrow> MergeProgressState" where
  "MergeProgressState_started reason att retries now =
     \<lparr>in_progress = True, trigger_reason = Some reason, attempt = att, max_retries = retries,
      started_at = now, updated_at = now, last_error = None\<rparr>"

definition MergeProgressState_succeeded :: "string \<Rightarrow> u8 \<Rightarrow> u8 \<Rightarrow> u64 \<Rightarrow> MergeProgressState" where
  "MergeProgressState_succeeded reason att retries started =
     \<lparr>in_progress = False, trigger_reason = Some reason, attempt = att, max_retries = retries,
      started_at = started, updated_at = started, last_error = None\<rparr>"

definition MergeProgressState_failed ::
  "string \<Rightarrow> u8 \<Rightarrow> u8 \<Rightarrow> u64 \<Rightarrow> string \<Rightarrow> MergeProgressState" where
  "MergeProgressState_failed reason att retries started err =
     \<lparr>in_progress = False, trigger_reason = Some reason, attempt = att, max_retries = retries,
      started_at = started, updated_at = started, last_error = Some err\<rparr>"

record SnapshotMetaState =
  last_checkpoint :: "PersistedCheckpointMetadata option"
  delta_chain :: "DeltaInfo list"
  total_delta_bytes :: u64

definition SnapshotMetaState_new :: SnapshotMetaState where
  "SnapshotMetaState_new = \<lparr>last_checkpoint = None, delta_chain = [], total_delta_bytes = 0\<rparr>"

definition SnapshotMetaState_should_merge :: "SnapshotMetaState \<Rightarrow> bool" where
  "SnapshotMetaState_should_merge st =
     (length (delta_chain st) \<ge> 5 \<or> total_delta_bytes st \<ge> 300 * 1024 * 1024)"

section \<open>The metadata manager\<close>

record 't MetadataManager =
  tree :: 't
  voting_state :: VotingState
  applied_state :: AppliedState
  snapshot_state :: SnapshotMetaState
  merge_progress_state :: MergeProgressState

definition MetadataManager_new :: "'t \<Rightarrow> 't MetadataManager" where
  "MetadataManager_new t =
     \<lparr>tree = t, voting_state = VotingState_new, applied_state = AppliedState_new,
      snapshot_state = SnapshotMetaState_new, merge_progress_state = MergeProgressState_new\<rparr>"

text \<open>The postcard codecs of the four stored types, and the keys they are stored under.\<close>

record meta_codecs =
  voting_codec :: "VotingState codec"
  applied_codec :: "AppliedState codec"
  snapshot_codec :: "SnapshotMetaState codec"
  progress_codec :: "MergeProgressState codec"

abbreviation key_vote :: bytes where "key_vote \<equiv> as_bytes ''raft_vote''"
abbreviation key_applied :: bytes where "key_applied \<equiv> as_bytes ''raft_applied''"
abbreviation key_snapshot :: bytes where "key_snapshot \<equiv> as_bytes ''raft_snapshot_meta''"
abbreviation key_progress :: bytes where "key_progress \<equiv> as_bytes ''raft_merge_progress''"

text \<open>One read of \<open>load\<close>: \<open>txn.get\<close>, decode when present, assign.\<close>

definition load_slot ::
  "('t, 'x, 'f) surrealkv \<Rightarrow> 'x \<Rightarrow> bytes \<Rightarrow> 'a codec \<Rightarrow> ('a \<Rightarrow> 's \<Rightarrow> 's) \<Rightarrow> 's \<Rightarrow> 's \<times> (RaftError + unit)" where
  "load_slot kv txn key c assign m =
     (case txn_get kv txn key of
        Inl e \<Rightarrow> (m, Inl (from_surrealkv_error e))
      | Inr None \<Rightarrow> (m, Inr ())
      | Inr (Some bs) \<Rightarrow> (case from_bytes c bs of
            Inl e \<Rightarrow> (m, Inl (from_postcard_error e))
          | Inr st \<Rightarrow> (assign st m, Inr ())))"

definition load ::
  "('t, 'x, 'f) surrealkv \<Rightarrow> meta_codecs \<Rightarrow> 't MetadataManager \<Rightarrow>
   't MetadataManager \<times> (RaftError + unit)" where
  "load kv mc m =
     (case tree_begin kv (tree m) of
        Inl e \<Rightarrow> (m, Inl (from_surrealkv_error e))
      | Inr txn \<Rightarrow>
          try_then (load_slot kv txn key_vote (voting_codec mc)
              (\<lambda>st. voting_state_update (\<lambda>_. st)) m) (\<lambda>m _.
          try_then (load_slot kv txn key_applied (applied_codec mc)
              (\<lambda>st. applied_state_update (\<lambda>_. st)) m) (\<lambda>m _.
          try_then (load_slot kv txn key_snapshot (snapshot_codec mc)
              (\<lambda>st. snapshot_state_update (\<lambda>_. st)) m) (\<lambda>m _.
          load_slot kv txn key_progress (progress_codec mc)
              (\<lambda>st. merge_progress_state_update (\<lambda>_. st)) m))))"

text \<open>The four savers have one body: encode, \<open>begin\<close>, one \<open>set\<close>, \<open>commit\<close>, assign the cache.\<close>

definition txn_put ::
  "('t, 'x, 'f) surrealkv \<Rightarrow> bytes \<Rightarrow> bytes \<Rightarrow> 't \<Rightarrow> 't \<times> (RaftError + unit)" where
  "txn_put kv key bs t =
     (case tree_begin kv t of
        Inl e \<Rightarrow> (t, Inl (from_surrealkv_error e))
      | Inr x \<Rightarrow> (case txn_set kv x key bs of
            Inl e \<Rightarrow> (t, Inl (from_surrealkv_error e))
          | Inr x' \<Rightarrow> map_err_st from_surrealkv_error (txn_commit kv t x')))"

definition on_tree ::
  "('t \<Rightarrow> 't \<times> 'r) \<Rightarrow> 't MetadataManager \<Rightarrow> 't MetadataManager \<times> 'r" where
  "on_tree op m = zoom tree (\<lambda>t. tree_update (\<lambda>_. t)) op m"

definition save_slot ::
  "('t, 'x, 'f) surrealkv \<Rightarrow> bytes \<Rightarrow> 'a codec \<Rightarrow> ('a \<Rightarrow> 't MetadataManager \<Rightarrow> 't MetadataManager) \<Rightarrow>
   'a \<Rightarrow> 't MetadataManager \<Rightarrow> 't MetadataManager \<times> (RaftError + unit)" where
  "save_slot kv key c assign st m =
     (case to_stdvec c st of
        Inl e \<Rightarrow> (m, Inl (from_postcard_error e))
      | Inr bs \<Rightarrow> try_then (on_tree (txn_put kv key bs) m) (\<lambda>m _. (assign st m, Inr ())))"

definition save_voting_state ::
  "('t, 'x, 'f) surrealkv \<Rightarrow> meta_codecs \<Rightarrow> VotingState \<Rightarrow> 't MetadataManager \<Rightarrow>
   't MetadataManager \<times> (RaftError + unit)" where
  "save_voting_state kv mc st m =
     save_slot kv key_vote (voting_codec mc) (\<lambda>st. voting_state_update (\<lambda>_. st)) st m"

definition save_applied_state ::
  "('t, 'x, 'f) surrealkv \<Rightarrow> meta_codecs \<Rightarrow> AppliedState \<Rightarrow> 't MetadataManager \<Rightarrow>
   't MetadataManager \<times> (RaftError + unit)" where
  "save_applied_state kv mc st m =
     save_slot kv key_applied (applied_codec mc) (\<lambda>st. applied_state_update (\<lambda>_. st)) st m"

definition save_snapshot_state ::
  "('t, 'x, 'f) surrealkv \<Rightarrow> meta_codecs \<Rightarrow> SnapshotMetaState \<Rightarrow> 't MetadataManager \<Rightarrow>
   't MetadataManager \<times> (RaftError + unit)" where
  "save_snapshot_state kv mc st m =
     save_slot kv key_snapshot (snapshot_codec mc) (\<lambda>st. snapshot_state_update (\<lambda>_. st)) st m"

definition save_merge_progress_state ::
  "('t, 'x, 'f) surrealkv \<Rightarrow> meta_codecs \<Rightarrow> MergeProgressState \<Rightarrow> 't MetadataManager \<Rightarrow>
   't MetadataManager \<times> (RaftError + unit)" where
  "save_merge_progress_state kv mc st m =
     save_slot kv key_progress (progress_codec mc) (\<lambda>st. merge_progress_state_update (\<lambda>_. st)) st m"

text \<open>Both values in one transaction.\<close>

definition save_snapshot_and_merge_state ::
  "('t, 'x, 'f) surrealkv \<Rightarrow> meta_codecs \<Rightarrow> SnapshotMetaState \<Rightarrow> MergeProgressState \<Rightarrow>
   't MetadataManager \<Rightarrow> 't MetadataManager \<times> (RaftError + unit)" where
  "save_snapshot_and_merge_state kv mc snap merge m =
     (case and_then (map_err from_postcard_error (to_stdvec (snapshot_codec mc) snap)) (\<lambda>sb.
           and_then (map_err from_postcard_error (to_stdvec (progress_codec mc) merge)) (\<lambda>mb.
           and_then (map_err from_surrealkv_error (tree_begin kv (tree m))) (\<lambda>x.
           and_then (map_err from_surrealkv_error (txn_set kv x key_snapshot sb)) (\<lambda>x.
           map_err from_surrealkv_error (txn_set kv x key_progress mb))))) of
        Inl e \<Rightarrow> (m, Inl e)
      | Inr x \<Rightarrow> try_then (on_tree (\<lambda>t. map_err_st from_surrealkv_error (txn_commit kv t x)) m) (\<lambda>m _.
          (m\<lparr>snapshot_state := snap, merge_progress_state := merge\<rparr>, Inr ())))"

section \<open>The contract of one stored value\<close>

text \<open>
  \<open>get\<close> reads the cache, \<open>durable\<close> is what a load would produce from the tree, \<open>ok\<close>
  collects the assumptions on the environment.
\<close>

locale metadata_slot =
  fixes save :: "'v \<Rightarrow> 's \<Rightarrow> 's \<times> (RaftError + unit)"
    and get :: "'s \<Rightarrow> 'v"
    and durable :: "'s \<Rightarrow> string + 'v"
    and ok :: "'s \<Rightarrow> bool"
  assumes save_keeps_ok: "ok s \<Longrightarrow> ok (fst (save v s))"
    and save_Inr: "ok s \<Longrightarrow> save v s = (s', Inr u) \<Longrightarrow> get s' = v \<and> durable s' = Inr v"
    and save_Inl: "ok s \<Longrightarrow> save v s = (s', Inl e) \<Longrightarrow> get s' = get s \<and> durable s' = durable s"
begin

lemma save_agree:
  assumes "ok s" "durable s = Inr (get s)"
  shows "durable (fst (save v s)) = Inr (get (fst (save v s)))"
proof (cases "save v s")
  case (Pair s' r)
  then show ?thesis using assms save_Inr [of s v s'] save_Inl [of s v s'] by (cases r) auto
qed

text \<open>
  After any sequence of saves, some of which may have failed, the value is the one of the last
  save that succeeded, in memory and on disk.
\<close>

lemma saves_last:
  assumes "ok s" "durable s = Inr (get s)"
  shows "durable (fold (\<lambda>v s. fst (save v s)) vs s) = Inr (get (fold (\<lambda>v s. fst (save v s)) vs s))"
    and "get (fold (\<lambda>v s. fst (save v s)) vs s) \<in> insert (get s) (set vs)"
  using assms
proof (induction vs arbitrary: s)
  case Nil
  { case 1 then show ?case by simp }
  { case 2 then show ?case by simp }
next
  case (Cons v vs)
  { case 1 with Cons.IH(1) [of "fst (save v s)"] show ?case
      by (simp add: save_keeps_ok save_agree) }
  { case 2
    have "get (fst (save v s)) \<in> {v, get s}"
    proof (cases "save v s")
      case (Pair s' r)
      then show ?thesis
        using 2 save_Inr [of s v s'] save_Inl [of s v s'] by (cases r) auto
    qed
    with Cons.IH(2) [of "fst (save v s)"] 2 show ?case
      by (auto simp: save_keeps_ok save_agree) }
qed

end

section \<open>The stored values satisfy it\<close>

definition durable_slot :: "'a codec \<Rightarrow> 'a \<Rightarrow> bytes option \<Rightarrow> string + 'a" where
  "durable_slot c d v = (case v of None \<Rightarrow> Inr d | Some bs \<Rightarrow> from_bytes c bs)"

definition durable_voting ::
  "('t \<Rightarrow> bytes \<Rightarrow> bytes option) \<Rightarrow> meta_codecs \<Rightarrow> 't MetadataManager \<Rightarrow> string + VotingState" where
  "durable_voting view mc m = durable_slot (voting_codec mc) VotingState_new (view (tree m) key_vote)"

definition durable_applied ::
  "('t \<Rightarrow> bytes \<Rightarrow> bytes option) \<Rightarrow> meta_codecs \<Rightarrow> 't MetadataManager \<Rightarrow> string + AppliedState" where
  "durable_applied view mc m = durable_slot (applied_codec mc) AppliedState_new (view (tree m) key_applied)"

definition durable_snapshot ::
  "('t \<Rightarrow> bytes \<Rightarrow> bytes option) \<Rightarrow> meta_codecs \<Rightarrow> 't MetadataManager \<Rightarrow> string + SnapshotMetaState" where
  "durable_snapshot view mc m =
     durable_slot (snapshot_codec mc) SnapshotMetaState_new (view (tree m) key_snapshot)"

definition durable_progress ::
  "('t \<Rightarrow> bytes \<Rightarrow> bytes option) \<Rightarrow> meta_codecs \<Rightarrow> 't MetadataManager \<Rightarrow> string + MergeProgressState" where
  "durable_progress view mc m =
     durable_slot (progress_codec mc) MergeProgressState_new (view (tree m) key_progress)"

lemmas durable_defs = durable_voting_def durable_applied_def durable_snapshot_def durable_progress_def

definition env_ok ::
  "('t, 'x, 'f) surrealkv \<Rightarrow> ('t \<Rightarrow> bytes \<Rightarrow> bytes option) \<Rightarrow> ('x \<Rightarrow> bytes \<Rightarrow> bytes option option) \<Rightarrow>
   meta_codecs \<Rightarrow> bool" where
  "env_ok kv view pend mc \<longleftrightarrow> surrealkv_ok kv view pend \<and> codec_ok (voting_codec mc) \<and>
     codec_ok (applied_codec mc) \<and> codec_ok (snapshot_codec mc) \<and> codec_ok (progress_codec mc)"

lemma txn_put_Inr:
  "surrealkv_ok kv view pend \<Longrightarrow> txn_put kv key bs t = (t', Inr u) \<Longrightarrow> view t' = (view t)(key \<mapsto> bs)"
  by (auto simp: txn_put_def fun_eq_iff surrealkv_laws split: sum.splits)

lemma txn_put_Inl:
  "surrealkv_ok kv view pend \<Longrightarrow> txn_put kv key bs t = (t', Inl e) \<Longrightarrow> view t' = view t"
proof -
  assume ok: "surrealkv_ok kv view pend" and put: "txn_put kv key bs t = (t', Inl e)"
  show "view t' = view t"
  proof (cases "t' = t")
    case False
    then obtain x d where "txn_commit kv t x = (t', Inl d)"
      using put by (auto simp: txn_put_def map_err_st_def map_err_Inl map_prod_def
          split: sum.splits prod.splits)
    with ok show ?thesis by (rule surrealkv_commit(2))
  qed simp
qed

lemma on_tree_simps [simp]:
  "tree (fst (on_tree op m)) = fst (op (tree m))" "snd (on_tree op m) = snd (op (tree m))"
  "voting_state (fst (on_tree op m)) = voting_state m"
  "applied_state (fst (on_tree op m)) = applied_state m"
  "snapshot_state (fst (on_tree op m)) = snapshot_state m"
  "merge_progress_state (fst (on_tree op m)) = merge_progress_state m"
  by (simp_all add: on_tree_def zoom_eq)

lemma on_tree_eq: "on_tree op m = (m\<lparr>tree := fst (op (tree m))\<rparr>, snd (op (tree m)))"
  by (simp add: on_tree_def zoom_eq)

lemmas save_defs = save_voting_state_def save_applied_state_def save_snapshot_state_def
  save_merge_progress_state_def

text \<open>Every saver writes one key and, on success, one cache field.\<close>

lemma save_slot_cases:
  assumes "surrealkv_ok kv view pend" and "save_slot kv key c assign st m = (m', r)"
  obtains (Ok) bs t where "r = Inr ()" "to_stdvec c st = Inr bs"
      "view t = (view (tree m))(key \<mapsto> bs)" "m' = assign st (m\<lparr>tree := t\<rparr>)"
    | (Err) e t where "r = Inl e" "view t = view (tree m)" "m' = m\<lparr>tree := t\<rparr>"
proof (cases "to_stdvec c st")
  case (Inl e)
  with assms(2) show ?thesis by (intro Err [of _ "tree m"]) (auto simp: save_slot_def)
next
  case (Inr bs)
  obtain t q where put: "txn_put kv key bs (tree m) = (t, q)" by fastforce
  then show ?thesis
  proof (cases q)
    case (Inl e)
    with put txn_put_Inl [OF assms(1)] have "view t = view (tree m)" by blast
    with put Inl Inr assms(2) show ?thesis
      by (intro Err [of e t]) (auto simp: save_slot_def on_tree_eq)
  next
    case (Inr u)
    with put txn_put_Inr [OF assms(1)] have "view t = (view (tree m))(key \<mapsto> bs)" by blast
    with put Inr \<open>to_stdvec c st = Inr bs\<close> assms(2) show ?thesis
      by (intro Ok [of bs t]) (auto simp: save_slot_def on_tree_eq)
  qed
qed

interpretation voting_slot: metadata_slot "save_voting_state kv mc" voting_state
  "durable_voting view mc" "\<lambda>_. env_ok kv view pend mc" for kv view pend mc
  by unfold_locales
    (auto simp: save_voting_state_def durable_defs durable_slot_def env_ok_def codec_okD elim!: save_slot_cases)

interpretation applied_slot: metadata_slot "save_applied_state kv mc" applied_state
  "durable_applied view mc" "\<lambda>_. env_ok kv view pend mc" for kv view pend mc
  by unfold_locales
    (auto simp: save_applied_state_def durable_defs durable_slot_def env_ok_def codec_okD elim!: save_slot_cases)

interpretation snapshot_slot: metadata_slot "save_snapshot_state kv mc" snapshot_state
  "durable_snapshot view mc" "\<lambda>_. env_ok kv view pend mc" for kv view pend mc
  by unfold_locales
    (auto simp: save_snapshot_state_def durable_defs durable_slot_def env_ok_def codec_okD elim!: save_slot_cases)

interpretation progress_slot: metadata_slot "save_merge_progress_state kv mc" merge_progress_state
  "durable_progress view mc" "\<lambda>_. env_ok kv view pend mc" for kv view pend mc
  by unfold_locales
    (auto simp: save_merge_progress_state_def durable_defs durable_slot_def env_ok_def codec_okD
      elim!: save_slot_cases)

section \<open>Cache and tree agree in every reachable state\<close>

definition synced ::
  "('t \<Rightarrow> bytes \<Rightarrow> bytes option) \<Rightarrow> meta_codecs \<Rightarrow> 't MetadataManager \<Rightarrow> bool" where
  "synced view mc m \<longleftrightarrow>
     durable_voting view mc m = Inr (voting_state m) \<and>
     durable_applied view mc m = Inr (applied_state m) \<and>
     durable_snapshot view mc m = Inr (snapshot_state m) \<and>
     durable_progress view mc m = Inr (merge_progress_state m)"

text \<open>The states of a manager: a successful load of any tree, then savers in any order.\<close>

inductive meta_reach ::
  "('t, 'x, 'f) surrealkv \<Rightarrow> meta_codecs \<Rightarrow> 't MetadataManager \<Rightarrow> bool" for kv mc where
  loaded: "load kv mc (MetadataManager_new t) = (m, Inr ()) \<Longrightarrow> meta_reach kv mc m"
| vote: "meta_reach kv mc m \<Longrightarrow> meta_reach kv mc (fst (save_voting_state kv mc v m))"
| applied: "meta_reach kv mc m \<Longrightarrow> meta_reach kv mc (fst (save_applied_state kv mc a m))"
| snapshot: "meta_reach kv mc m \<Longrightarrow> meta_reach kv mc (fst (save_snapshot_state kv mc ss m))"
| progress: "meta_reach kv mc m \<Longrightarrow> meta_reach kv mc (fst (save_merge_progress_state kv mc p m))"
| both: "meta_reach kv mc m \<Longrightarrow>
    meta_reach kv mc (fst (save_snapshot_and_merge_state kv mc ss p m))"

lemma save_slot_synced:
  assumes env: "env_ok kv view pend mc" and sy: "synced view mc m"
  shows "synced view mc (fst (save_voting_state kv mc v m))"
    and "synced view mc (fst (save_applied_state kv mc a m))"
    and "synced view mc (fst (save_snapshot_state kv mc ss m))"
    and "synced view mc (fst (save_merge_progress_state kv mc p m))"
proof -
  have kv: "surrealkv_ok kv view pend" using env by (simp add: env_ok_def)
  note defs = synced_def durable_defs durable_slot_def
  obtain m' r where run: "save_slot kv key_vote (voting_codec mc)
      (\<lambda>st. voting_state_update (\<lambda>_. st)) v m = (m', r)"
    by fastforce
  from kv run show "synced view mc (fst (save_voting_state kv mc v m))"
    by (cases rule: save_slot_cases) (use sy env run in \<open>auto simp: save_voting_state_def defs env_ok_def codec_okD\<close>)
  obtain m' r where run: "save_slot kv key_applied (applied_codec mc)
      (\<lambda>st. applied_state_update (\<lambda>_. st)) a m = (m', r)"
    by fastforce
  from kv run show "synced view mc (fst (save_applied_state kv mc a m))"
    by (cases rule: save_slot_cases) (use sy env run in \<open>auto simp: save_applied_state_def defs env_ok_def codec_okD\<close>)
  obtain m' r where run: "save_slot kv key_snapshot (snapshot_codec mc)
      (\<lambda>st. snapshot_state_update (\<lambda>_. st)) ss m = (m', r)"
    by fastforce
  from kv run show "synced view mc (fst (save_snapshot_state kv mc ss m))"
    by (cases rule: save_slot_cases) (use sy env run in \<open>auto simp: save_snapshot_state_def defs env_ok_def codec_okD\<close>)
  obtain m' r where run: "save_slot kv key_progress (progress_codec mc)
      (\<lambda>st. merge_progress_state_update (\<lambda>_. st)) p m = (m', r)"
    by fastforce
  from kv run show "synced view mc (fst (save_merge_progress_state kv mc p m))"
    by (cases rule: save_slot_cases) (use sy env run in \<open>auto simp: save_merge_progress_state_def defs env_ok_def codec_okD\<close>)
qed

lemma save_both_cases:
  assumes kv: "surrealkv_ok kv view pend"
    and run: "save_snapshot_and_merge_state kv mc ss p m = (m', r)"
  obtains (Ok) sb pb t where "r = Inr ()" "to_stdvec (snapshot_codec mc) ss = Inr sb"
      "to_stdvec (progress_codec mc) p = Inr pb"
      "view t = (view (tree m))(key_snapshot \<mapsto> sb, key_progress \<mapsto> pb)"
      "m' = m\<lparr>tree := t, snapshot_state := ss, merge_progress_state := p\<rparr>"
    | (Err) e t where "r = Inl e" "view t = view (tree m)" "m' = m\<lparr>tree := t\<rparr>"
proof -
  let ?pre = "and_then (map_err from_postcard_error (to_stdvec (snapshot_codec mc) ss)) (\<lambda>sb.
           and_then (map_err from_postcard_error (to_stdvec (progress_codec mc) p)) (\<lambda>mb.
           and_then (map_err from_surrealkv_error (tree_begin kv (tree m))) (\<lambda>x.
           and_then (map_err from_surrealkv_error (txn_set kv x key_snapshot sb)) (\<lambda>x.
           map_err from_surrealkv_error (txn_set kv x key_progress mb)))))"
  show ?thesis
  proof (cases ?pre)
    case (Inl e)
    with run show ?thesis
      by (intro Err [of e "tree m"]) (auto simp: save_snapshot_and_merge_state_def)
  next
    case (Inr x)
    then obtain sb pb x0 x1 where enc: "to_stdvec (snapshot_codec mc) ss = Inr sb"
      "to_stdvec (progress_codec mc) p = Inr pb" and txn: "tree_begin kv (tree m) = Inr x0"
      "txn_set kv x0 key_snapshot sb = Inr x1" "txn_set kv x1 key_progress pb = Inr x"
      by (auto simp: and_then_Inr)
    then have pend: "pend x = (\<lambda>_. None)(key_snapshot := Some (Some sb), key_progress := Some (Some pb))"
      by (simp add: surrealkv_laws(1-2) [OF kv])
    obtain t q where co: "txn_commit kv (tree m) x = (t, q)" by fastforce
    show ?thesis
    proof (cases q)
      case (Inl e)
      with co kv have "view t = view (tree m)" by (auto intro: surrealkv_commit(2))
      with Inl co Inr run show ?thesis
        by (intro Err [of "from_surrealkv_error e" t])
          (auto simp: save_snapshot_and_merge_state_def on_tree_eq)
    next
      case (Inr u)
      with co kv pend have "view t = (view (tree m))(key_snapshot \<mapsto> sb, key_progress \<mapsto> pb)"
        by (auto simp: surrealkv_commit(1) [OF kv] fun_eq_iff)
      with Inr co \<open>?pre = Inr x\<close> run enc show ?thesis
        by (intro Ok [of sb pb t]) (auto simp: save_snapshot_and_merge_state_def on_tree_eq)
    qed
  qed
qed

lemma save_both_synced:
  assumes env: "env_ok kv view pend mc" and sy: "synced view mc m"
  shows "synced view mc (fst (save_snapshot_and_merge_state kv mc ss p m))"
proof -
  have kv: "surrealkv_ok kv view pend" using env by (simp add: env_ok_def)
  obtain m' r where run: "save_snapshot_and_merge_state kv mc ss p m = (m', r)" by fastforce
  from kv run show ?thesis
    by (cases rule: save_both_cases)
      (use sy env run in \<open>auto simp: synced_def durable_defs durable_slot_def env_ok_def codec_okD\<close>)
qed

lemma load_slot_Inr:
  assumes "surrealkv_ok kv view pend" "tree_begin kv t = Inr x"
    and "load_slot kv x key c assign m = (m', Inr u)" and "assign d m = m"
  shows "\<exists>st. durable_slot c d (view t key) = Inr st \<and> m' = assign st m"
  using assms surrealkv_begin(2) [OF assms(1,2)]
  by (fastforce simp: load_slot_def durable_slot_def split: sum.splits option.splits)

lemma load_new_synced:
  assumes kv: "surrealkv_ok kv view pend" and run: "load kv mc (MetadataManager_new t) = (m, Inr u)"
  shows "synced view mc m" "tree m = t"
proof -
  from run obtain x m1 m2 m3 where x: "tree_begin kv t = Inr x"
    and 1: "load_slot kv x key_vote (voting_codec mc) (\<lambda>st. voting_state_update (\<lambda>_. st))
        (MetadataManager_new t) = (m1, Inr ())"
    and 2: "load_slot kv x key_applied (applied_codec mc) (\<lambda>st. applied_state_update (\<lambda>_. st)) m1 = (m2, Inr ())"
    and 3: "load_slot kv x key_snapshot (snapshot_codec mc) (\<lambda>st. snapshot_state_update (\<lambda>_. st)) m2 = (m3, Inr ())"
    and 4: "load_slot kv x key_progress (progress_codec mc) (\<lambda>st. merge_progress_state_update (\<lambda>_. st)) m3 = (m, Inr u)"
    by (auto simp: load_def try_then_Inr MetadataManager_new_def split: sum.splits)
  note slot = load_slot_Inr [OF kv x]
  obtain v where v: "durable_slot (voting_codec mc) VotingState_new (view t key_vote) = Inr v"
    and m1: "m1 = (MetadataManager_new t)\<lparr>voting_state := v\<rparr>"
    using slot [OF 1, of VotingState_new] by (auto simp: MetadataManager_new_def)
  obtain a where a: "durable_slot (applied_codec mc) AppliedState_new (view t key_applied) = Inr a"
    and m2: "m2 = m1\<lparr>applied_state := a\<rparr>"
    using slot [OF 2, of AppliedState_new] by (auto simp: m1 MetadataManager_new_def)
  obtain ss where ss: "durable_slot (snapshot_codec mc) SnapshotMetaState_new (view t key_snapshot) = Inr ss"
    and m3: "m3 = m2\<lparr>snapshot_state := ss\<rparr>"
    using slot [OF 3, of SnapshotMetaState_new] by (auto simp: m1 m2 MetadataManager_new_def)
  obtain p where p: "durable_slot (progress_codec mc) MergeProgressState_new (view t key_progress) = Inr p"
    and m: "m = m3\<lparr>merge_progress_state := p\<rparr>"
    using slot [OF 4, of MergeProgressState_new] by (auto simp: m1 m2 m3 MetadataManager_new_def)
  show "tree m = t" by (simp add: m m1 m2 m3 MetadataManager_new_def)
  show "synced view mc m"
    using v a ss p by (simp add: synced_def durable_defs m m1 m2 m3 MetadataManager_new_def)
qed

lemma synced_unique:
  assumes "synced view mc m" "synced view mc m'" "tree m = tree m'"
  shows "m = m'"
  using assms by (intro MetadataManager.equality) (auto simp: synced_def durable_defs)

lemma synced_load_succeeds:
  assumes kv: "surrealkv_ok kv view pend" and sy: "synced view mc m"
    and x: "tree_begin kv (tree m) = Inr x" and reads: "\<And>k. \<not> isl (txn_get kv x k)"
  shows "\<exists>m'. load kv mc (MetadataManager_new (tree m)) = (m', Inr ())"
proof -
  have get: "txn_get kv x k = Inr (view (tree m) k)" for k
    using reads [of k] surrealkv_begin(2) [OF kv x] by (cases "txn_get kv x k") auto
  have step: "\<exists>n'. load_slot kv x key c assign n = (n', Inr ())"
    if "durable_slot c d (view (tree m) key) = Inr a" for key assign n d a and c :: "'z codec"
    using that by (auto simp: load_slot_def durable_slot_def get split: option.splits)
  from sy have "\<exists>d a. durable_slot (voting_codec mc) d (view (tree m) key_vote) = Inr a"
    "\<exists>d a. durable_slot (applied_codec mc) d (view (tree m) key_applied) = Inr a"
    "\<exists>d a. durable_slot (snapshot_codec mc) d (view (tree m) key_snapshot) = Inr a"
    "\<exists>d a. durable_slot (progress_codec mc) d (view (tree m) key_progress) = Inr a"
    by (auto simp: synced_def durable_defs)
  then show ?thesis
    using x by (auto simp: load_def MetadataManager_new_def try_then_Inr sum.case_eq_if) (metis step)
qed

lemma meta_reach_synced:
  assumes env: "env_ok kv view pend mc" and "meta_reach kv mc m"
  shows "synced view mc m"
  using assms(2)
proof (induction rule: meta_reach.induct)
  case (loaded t m)
  then show ?case using env load_new_synced(1) by (auto simp: env_ok_def)
qed (simp_all add: env save_slot_synced [OF env] save_both_synced [OF env])

section \<open>Properties\<close>

definition sample_vote :: VotingState where
  "sample_vote = \<lparr>current_term = 5, voted_for = Some 42\<rparr>"

definition sample_codecs :: meta_codecs where
  "sample_codecs =
     \<lparr>voting_codec = table_codec [sample_vote],
      applied_codec = table_codec [\<lparr>last_applied_index = 9, last_applied_term = 5\<rparr>],
      snapshot_codec = table_codec [SnapshotMetaState_new],
      progress_codec = table_codec [MergeProgressState_new,
        MergeProgressState_started ''chain_too_long'' 1 3 100]\<rparr>"

lemma sample_env_ok: "env_ok mem_kv (\<lambda>t. t) snd sample_codecs"
  by (simp add: env_ok_def mem_kv_ok sample_codecs_def table_codec_ok)

lemma sample_load: "load mem_kv mc (MetadataManager_new (\<lambda>_. None)) = (MetadataManager_new (\<lambda>_. None), Inr ())"
  by (simp add: load_def load_slot_def MetadataManager_new_def)

lemma sample_reach:
  "meta_reach mem_kv sample_codecs
     (fst (save_voting_state mem_kv sample_codecs sample_vote (MetadataManager_new (\<lambda>_. None))))"
  by (rule meta_reach.vote, rule meta_reach.loaded, rule sample_load)

lemma sample_saved:
  "voting_state (fst (save_voting_state mem_kv sample_codecs sample_vote (MetadataManager_new (\<lambda>_. None))))
     = sample_vote"
  by (simp add: save_voting_state_def save_slot_def sample_codecs_def table_codec_def txn_put_def
      on_tree_eq MetadataManager_new_def)

text \<open>
  Restart recovers the metadata. Whatever sequence of saves, successful or failed, has
  led to a state of the manager, a new manager that loads the same tree (whose reads do not
  fail) succeeds and holds exactly the same voting, applied, snapshot and merge-progress state.
\<close>

lemma restart_recovers_metadata:
  assumes "env_ok kv view pend mc" and "meta_reach kv mc m"
    and "tree_begin kv (tree m) = Inr x" and "\<And>k. \<not> isl (txn_get kv x k)"
  shows "load kv mc (MetadataManager_new (tree m)) = (m, Inr ())"
proof -
  have kv: "surrealkv_ok kv view pend" using assms(1) by (simp add: env_ok_def)
  have sy: "synced view mc m" using assms(1,2) by (rule meta_reach_synced)
  obtain m' where m': "load kv mc (MetadataManager_new (tree m)) = (m', Inr ())"
    using synced_load_succeeds [OF kv sy assms(3,4)] by blast
  have "m' = m"
    using load_new_synced [OF kv m'] sy by (intro synced_unique) auto
  with m' show ?thesis by simp
qed

lemma restart_recovers_metadata_witness:
  "let m = fst (save_voting_state mem_kv sample_codecs sample_vote (MetadataManager_new (\<lambda>_. None)))
   in load mem_kv sample_codecs (MetadataManager_new (tree m)) = (m, Inr ()) \<and>
      voting_state m = sample_vote"
  using restart_recovers_metadata [OF sample_env_ok sample_reach mem_kv_simps(1)]
  by (simp add: Let_def sample_saved)

text \<open>
  Claim C7: a merge result is recorded atomically. Saving the snapshot state and the merge
  progress together either stores both, in the tree and in the caches, or changes neither;
  the vote and the applied position are untouched either way.
\<close>

theorem save_snapshot_and_merge_atomic:
  assumes "env_ok kv view pend mc"
    and "save_snapshot_and_merge_state kv mc ss p m = (m', r)"
  shows "(if isl r
          then snapshot_state m' = snapshot_state m \<and> merge_progress_state m' = merge_progress_state m \<and>
               durable_snapshot view mc m' = durable_snapshot view mc m \<and>
               durable_progress view mc m' = durable_progress view mc m
          else snapshot_state m' = ss \<and> merge_progress_state m' = p \<and>
               durable_snapshot view mc m' = Inr ss \<and> durable_progress view mc m' = Inr p) \<and>
         voting_state m' = voting_state m \<and> applied_state m' = applied_state m \<and>
         durable_voting view mc m' = durable_voting view mc m \<and>
         durable_applied view mc m' = durable_applied view mc m"
proof -
  have kv: "surrealkv_ok kv view pend" using assms(1) by (simp add: env_ok_def)
  from kv assms(2) show ?thesis
    by (cases rule: save_both_cases)
      (use assms(1) in \<open>auto simp: durable_defs durable_slot_def env_ok_def codec_okD\<close>)
qed

theorem save_snapshot_and_merge_atomic_witness:
  "let s = save_snapshot_and_merge_state mem_kv sample_codecs SnapshotMetaState_new
             (MergeProgressState_started ''chain_too_long'' 1 3 100) (MetadataManager_new (\<lambda>_. None))
   in \<not> isl (snd s) \<and>
      durable_progress (\<lambda>t. t) sample_codecs (fst s) = Inr (MergeProgressState_started ''chain_too_long'' 1 3 100)"
proof -
  let ?s = "save_snapshot_and_merge_state mem_kv sample_codecs SnapshotMetaState_new
             (MergeProgressState_started ''chain_too_long'' 1 3 100) (MetadataManager_new (\<lambda>_. None))"
  have "\<not> isl (snd ?s)"
    by (simp add: save_snapshot_and_merge_state_def sample_codecs_def table_codec_def
        on_tree_eq MetadataManager_new_def MergeProgressState_started_def MergeProgressState_new_def)
  then show ?thesis
    using save_snapshot_and_merge_atomic [OF sample_env_ok prod.collapse [symmetric, of ?s]]
    by (simp add: Let_def)
qed

text \<open>
  The vote is durable. After any sequence of attempts to save a voting state, some of
  which may have failed, the vote in memory is the one a restart would load from the tree,
  and it is the initial vote or one of those that were saved.
\<close>

lemma saved_vote_is_durable:
  assumes "env_ok kv view pend mc" and "durable_voting view mc m = Inr (voting_state m)"
  shows "durable_voting view mc (fold (\<lambda>v m. fst (save_voting_state kv mc v m)) vs m) =
           Inr (voting_state (fold (\<lambda>v m. fst (save_voting_state kv mc v m)) vs m)) \<and>
         voting_state (fold (\<lambda>v m. fst (save_voting_state kv mc v m)) vs m) \<in> insert (voting_state m) (set vs)"
  using voting_slot.saves_last [OF assms] by blast

end
