(* ===== verification/Merge_Policy.thy ===== *)
theory Merge_Policy
  imports State "HOL-Library.Multiset"
begin

text \<open>
  \<open>src/merge/policy.rs\<close>, \<open>src/merge/error_codes.rs\<close> and \<open>src/merge/cleanup.rs\<close>: when the
  chain of deltas is due to be merged into a new checkpoint, and what is removed from disk
  afterwards.
\<close>

section \<open>Policy\<close>

record DeltaMergePolicy =
  max_chain_length :: nat
  max_delta_bytes :: u64
  checkpoint_interval_secs :: u64

definition DeltaMergePolicy_new :: DeltaMergePolicy where
  "DeltaMergePolicy_new = \<lparr>max_chain_length = 5, max_delta_bytes = 300 * 1024 * 1024,
     checkpoint_interval_secs = 24 * 60 * 60\<rparr>"

datatype MergeTrigger = ChainTooLong | SizeTooLarge | TimeWindowExpired

primrec MergeTrigger_as_str :: "MergeTrigger \<Rightarrow> string" where
  "MergeTrigger_as_str ChainTooLong = ''chain_too_long''"
| "MergeTrigger_as_str SizeTooLarge = ''size_too_large''"
| "MergeTrigger_as_str TimeWindowExpired = ''time_window_expired''"

record MergeDecision =
  md_trigger :: "MergeTrigger option"
  md_chain_length :: nat
  md_cumulative_bytes :: u64

definition MergeDecision_from_state ::
  "DeltaMergePolicy \<Rightarrow> SnapshotMetaState \<Rightarrow> u64 \<Rightarrow> MergeDecision" where
  "MergeDecision_from_state policy st now =
     (let chain_length = length (delta_chain st);
          cumulative_bytes = total_delta_bytes st;
          trigger =
            (if chain_length \<ge> max_chain_length policy then Some ChainTooLong
             else if cumulative_bytes \<ge> max_delta_bytes policy then Some SizeTooLarge
             else case last_checkpoint st of
                 None \<Rightarrow> None
               | Some cp \<Rightarrow>
                   (if saturating_sub now (cp_created_at cp) \<ge> checkpoint_interval_secs policy
                    then Some TimeWindowExpired else None))
      in \<lparr>md_trigger = trigger, md_chain_length = chain_length, md_cumulative_bytes = cumulative_bytes\<rparr>)"

definition evaluate :: "DeltaMergePolicy \<Rightarrow> SnapshotMetaState \<Rightarrow> u64 \<Rightarrow> MergeTrigger option" where
  "evaluate policy st now = md_trigger (MergeDecision_from_state policy st now)"

definition DeltaMergePolicy_should_merge :: "DeltaMergePolicy \<Rightarrow> SnapshotMetaState \<Rightarrow> u64 \<Rightarrow> bool" where
  "DeltaMergePolicy_should_merge policy st now = (evaluate policy st now \<noteq> None)"

abbreviation MERGE_ERR_BASELINE_MISSING :: string where
  "MERGE_ERR_BASELINE_MISSING \<equiv> ''MERGE_BASELINE_MISSING''"
abbreviation MERGE_ERR_BASELINE_PATH_REQUIRED :: string where
  "MERGE_ERR_BASELINE_PATH_REQUIRED \<equiv> ''MERGE_BASELINE_PATH_REQUIRED''"
abbreviation MERGE_ERR_BASELINE_PATH_MISSING :: string where
  "MERGE_ERR_BASELINE_PATH_MISSING \<equiv> ''MERGE_BASELINE_PATH_MISSING''"
abbreviation MERGE_ERR_UNKNOWN :: string where
  "MERGE_ERR_UNKNOWN \<equiv> ''MERGE_UNKNOWN''"

section \<open>Cleanup\<close>

record MergeCleanupConfig =
  retain_last_checkpoints :: nat
  max_delta_age_secs :: u64
  max_temp_age_secs :: u64
  checkpoints_dir :: path
  temp_merge_dir :: path

definition MergeCleanupConfig_default :: MergeCleanupConfig where
  "MergeCleanupConfig_default =
     \<lparr>retain_last_checkpoints = 3, max_delta_age_secs = 24 * 60 * 60, max_temp_age_secs = 60 * 60,
      checkpoints_dir = ''target/checkpoints'', temp_merge_dir = ''target/tmp/merge''\<rparr>"

record CleanupReport =
  removed_delta_files :: u64
  removed_temp_dirs :: u64
  removed_checkpoint_dirs :: nat

fun cleanup_delta_loop ::
  "'f filesystem \<Rightarrow> u64 \<Rightarrow> u64 \<Rightarrow> u64 \<Rightarrow> DeltaInfo list \<Rightarrow> 'f \<Rightarrow> 'f \<times> u64" where
  "cleanup_delta_loop fs max_age now removed [] f = (f, removed)"
| "cleanup_delta_loop fs max_age now removed (delta # ds) f =
     (case di_file_path delta of
        None \<Rightarrow> cleanup_delta_loop fs max_age now removed ds f
      | Some p \<Rightarrow>
          if saturating_sub now (di_created_at delta) < max_age
          then cleanup_delta_loop fs max_age now removed ds f
          else case fs_remove_file fs p f of
              (f', Inr _) \<Rightarrow> cleanup_delta_loop fs max_age now (saturating_add removed 1) ds f'
            | (f', Inl _) \<Rightarrow> cleanup_delta_loop fs max_age now removed ds f')"

definition cleanup_delta_files ::
  "'f filesystem \<Rightarrow> MergeCleanupConfig \<Rightarrow> SnapshotMetaState \<Rightarrow> u64 \<Rightarrow> 'f \<Rightarrow> 'f \<times> (RaftError + u64)" where
  "cleanup_delta_files fs cfg st now f =
     map_prod id Inr (cleanup_delta_loop fs (max_delta_age_secs cfg) now 0 (delta_chain st) f)"

text \<open>\<open>modified().unwrap_or(UNIX_EPOCH).duration_since(UNIX_EPOCH).as_secs()\<close>, 0 before the epoch.\<close>

definition modified_secs :: "file_meta \<Rightarrow> u64" where
  "modified_secs m = (case modified m of None \<Rightarrow> 0 | Some ns \<Rightarrow> if ns < 0 then 0 else of_int (ns div 1000000000))"

fun cleanup_temp_loop ::
  "'f filesystem \<Rightarrow> u64 \<Rightarrow> u64 \<Rightarrow> u64 \<Rightarrow> (string + dir_entry) list \<Rightarrow> 'f \<Rightarrow> 'f \<times> (RaftError + u64)" where
  "cleanup_temp_loop fs max_age now removed [] f = (f, Inr removed)"
| "cleanup_temp_loop fs max_age now removed (Inl e # es) f = (f, Inl (Io e))"
| "cleanup_temp_loop fs max_age now removed (Inr entry # es) f =
     (case entry_meta entry of
        Inl e \<Rightarrow> (f, Inl (Io e))
      | Inr m \<Rightarrow>
          if \<not> is_dir m then cleanup_temp_loop fs max_age now removed es f
          else if saturating_sub now (modified_secs m) \<ge> max_age
          then try_then (map_err_st Io (fs_remove_dir_all fs (entry_path entry) f)) (\<lambda>f _.
               cleanup_temp_loop fs max_age now (saturating_add removed 1) es f)
          else cleanup_temp_loop fs max_age now removed es f)"

definition cleanup_temp_dirs ::
  "'f filesystem \<Rightarrow> MergeCleanupConfig \<Rightarrow> u64 \<Rightarrow> 'f \<Rightarrow> 'f \<times> (RaftError + u64)" where
  "cleanup_temp_dirs fs cfg now f =
     (if \<not> path_exists fs f (temp_merge_dir cfg) then (f, Inr 0)
      else case fs_read_dir fs f (temp_merge_dir cfg) of
          Inl e \<Rightarrow> (f, Inl (Io e))
        | Inr rd \<Rightarrow> cleanup_temp_loop fs (max_temp_age_secs cfg) now 0 rd f)"

text \<open>The directories of a listing with their modification time, the epoch when unavailable.\<close>

fun collect_dirs :: "(string + dir_entry) list \<Rightarrow> RaftError + (path \<times> int) list" where
  "collect_dirs [] = Inr []"
| "collect_dirs (Inl e # es) = Inl (Io e)"
| "collect_dirs (Inr entry # es) =
     (case entry_meta entry of
        Inl e \<Rightarrow> Inl (Io e)
      | Inr m \<Rightarrow>
          if \<not> is_dir m then collect_dirs es
          else and_then (collect_dirs es) (\<lambda>ds.
            Inr ((entry_path entry, case modified m of None \<Rightarrow> 0 | Some t \<Rightarrow> t) # ds)))"

definition remove_dir_if_exists :: "'f filesystem \<Rightarrow> path \<Rightarrow> 'f \<Rightarrow> 'f \<times> (RaftError + unit)" where
  "remove_dir_if_exists fs p f =
     (if path_exists fs f p
      then try_then (map_err_st Io (fs_remove_dir_all fs p f)) (\<lambda>f _. (f, Inr ()))
      else (f, Inr ()))"

fun remove_dirs :: "'f filesystem \<Rightarrow> (path \<times> int) list \<Rightarrow> 'f \<Rightarrow> 'f \<times> (RaftError + unit)" where
  "remove_dirs fs [] f = (f, Inr ())"
| "remove_dirs fs ((p, _) # ds) f =
     try_then (remove_dir_if_exists fs p f) (\<lambda>f _. remove_dirs fs ds f)"

definition cleanup_old_checkpoints ::
  "'f filesystem \<Rightarrow> MergeCleanupConfig \<Rightarrow> 'f \<Rightarrow> 'f \<times> (RaftError + nat)" where
  "cleanup_old_checkpoints fs cfg f =
     (if \<not> path_exists fs f (checkpoints_dir cfg) then (f, Inr 0)
      else case fs_read_dir fs f (checkpoints_dir cfg) of
          Inl e \<Rightarrow> (f, Inl (Io e))
        | Inr rd \<Rightarrow> (case collect_dirs rd of
            Inl e \<Rightarrow> (f, Inl e)
          | Inr dirs \<Rightarrow>
              if length dirs \<le> retain_last_checkpoints cfg then (f, Inr 0)
              else
                let dirs = sort_key snd dirs;
                    remove_count = length dirs - retain_last_checkpoints cfg
                in try_then (remove_dirs fs (take remove_count dirs) f) (\<lambda>f _. (f, Inr remove_count))))"

definition cleanup_run ::
  "'f filesystem \<Rightarrow> MergeCleanupConfig \<Rightarrow> SnapshotMetaState \<Rightarrow> u64 option \<Rightarrow> 'f world \<Rightarrow>
   'f world \<times> (RaftError + CleanupReport)" where
  "cleanup_run fs cfg st now w =
     (case (case now of Some n \<Rightarrow> (w, n) | None \<Rightarrow> now_secs w) of (w, now) \<Rightarrow>
      try_then (on_files (cleanup_delta_files fs cfg st now) w) (\<lambda>w d.
      try_then (on_files (cleanup_temp_dirs fs cfg now) w) (\<lambda>w t.
      try_then (on_files (cleanup_old_checkpoints fs cfg) w) (\<lambda>w c.
      (w, Inr \<lparr>removed_delta_files = d, removed_temp_dirs = t, removed_checkpoint_dirs = c\<rparr>)))))"

section \<open>Properties\<close>

text \<open>
  The two trigger rules of the program agree. The check built into the snapshot state
  (five deltas or 300 MiB) holds exactly when the default policy reports a chain that is too
  long or too large; the policy reports the time window only when neither holds and a
  checkpoint exists that is a day old.
\<close>

lemma default_policy_agrees:
  "(SnapshotMetaState_should_merge st \<longleftrightarrow>
      evaluate DeltaMergePolicy_new st now \<in> {Some ChainTooLong, Some SizeTooLarge}) \<and>
   (evaluate DeltaMergePolicy_new st now = Some TimeWindowExpired \<longleftrightarrow>
      \<not> SnapshotMetaState_should_merge st \<and>
      (\<exists>cp. last_checkpoint st = Some cp \<and> 86400 \<le> unat now - unat (cp_created_at cp)))"
  by (auto simp: SnapshotMetaState_should_merge_def evaluate_def MergeDecision_from_state_def
      DeltaMergePolicy_new_def Let_def word_le_nat_alt unat_saturating_sub split: option.splits)

text \<open>\<open>remove_dir_all\<close> removes a directory with what is below it, and nothing else.\<close>

definition within :: "path \<Rightarrow> path \<Rightarrow> bool" where
  "within p q \<longleftrightarrow> q = p \<or> take (length p + 1) q = p @ ''/''"

definition remove_dir_ok :: "'f filesystem \<Rightarrow> bool" where
  "remove_dir_ok fs \<longleftrightarrow> (\<forall>p f f' u. fs_remove_dir_all fs p f = (f', Inr u) \<longrightarrow>
     \<not> path_exists fs f' p \<and> (\<forall>q. \<not> within p q \<longrightarrow> path_exists fs f' q = path_exists fs f q))"

lemma remove_dir_if_exists_Inr:
  assumes "remove_dir_ok fs" "remove_dir_if_exists fs p f = (f', Inr u)"
  shows "\<not> path_exists fs f' p" "\<not> within p q \<Longrightarrow> path_exists fs f' q = path_exists fs f q"
  using assms unfolding remove_dir_ok_def remove_dir_if_exists_def
  by (auto simp: try_then_Inr split: if_splits)

lemma remove_dirs_Inr:
  assumes ok: "remove_dir_ok fs" and "remove_dirs fs ds f = (f', Inr u)"
    and "\<And>p q. p \<in> P \<Longrightarrow> q \<in> P \<Longrightarrow> within p q \<Longrightarrow> q = p" "fst ` set ds \<subseteq> P" "q \<in> P"
  shows "path_exists fs f' q \<longleftrightarrow> path_exists fs f q \<and> q \<notin> fst ` set ds"
  using assms(2-)
proof (induction ds arbitrary: f)
  case (Cons d ds)
  obtain p t where d: "d = (p, t)" by (cases d)
  with Cons.prems(1) obtain f1 v where 1: "remove_dir_if_exists fs p f = (f1, Inr v)"
    and 2: "remove_dirs fs ds f1 = (f', Inr u)"
    by (auto simp: try_then_Inr)
  have IH: "path_exists fs f' q \<longleftrightarrow> path_exists fs f1 q \<and> q \<notin> fst ` set ds"
    using 2 Cons.prems(2-) by (intro Cons.IH) auto
  show ?case
  proof (cases "q = p")
    case True
    with IH 1 remove_dir_if_exists_Inr(1) [OF ok 1] show ?thesis by (simp add: d)
  next
    case False
    then have "\<not> within p q" using Cons.prems(2-) d by auto
    with IH False remove_dir_if_exists_Inr(2) [OF ok 1] show ?thesis by (simp add: d)
  qed
qed simp

lemma sort_split_order:
  assumes "(q, u) \<in> set (take k (sort_key snd ds))" "(p, t) \<in> set (drop k (sort_key snd ds))"
  shows "u \<le> (t :: int)"
proof -
  have "sorted (map snd (take k (sort_key snd ds) @ drop k (sort_key snd ds)))" by simp
  then show ?thesis using assms unfolding map_append sorted_append by fastforce
qed

lemma length_filter_sort: "length (filter P (sort_key k xs)) = length (filter P xs)"
  by (metis mset_filter mset_sort size_mset)

lemma kept_is_tail:
  assumes "distinct (map fst ds)"
  shows "length (filter (\<lambda>(p, _). p \<notin> fst ` set (take k (sort_key snd ds))) ds) = length ds - k"
    and "(p, t) \<in> set ds \<Longrightarrow> p \<notin> fst ` set (take k (sort_key snd ds)) \<Longrightarrow> (p, t) \<in> set (drop k (sort_key snd ds))"
proof -
  let ?s = "sort_key snd ds"
  let ?P = "\<lambda>(p, _). p \<notin> fst ` set (take k ?s)"
  have "distinct (map fst ?s)"
    using assms by (metis mset_map mset_sort mset_eq_imp_distinct_iff)
  then have "distinct (map fst (take k ?s) @ map fst (drop k ?s))"
    unfolding map_append [symmetric] by simp
  then have dj: "fst ` set (take k ?s) \<inter> fst ` set (drop k ?s) = {}" by simp
  have "filter ?P ?s = filter ?P (take k ?s) @ filter ?P (drop k ?s)"
    unfolding filter_append [symmetric] by simp
  moreover have "filter ?P (take k ?s) = []" by (force simp: filter_empty_conv)
  moreover have "filter ?P (drop k ?s) = drop k ?s" using dj by (force simp: filter_id_conv)
  ultimately have "length (filter ?P ?s) = length ds - k" by simp
  then show "length (filter ?P ds) = length ds - k" by (simp only: length_filter_sort)
  show "(p, t) \<in> set (drop k ?s)" if "(p, t) \<in> set ds" "p \<notin> fst ` set (take k ?s)"
  proof -
    have "(p, t) \<in> set (take k ?s @ drop k ?s)" using that(1) by simp
    then show ?thesis using that(2) by (force simp del: append_take_drop_id)
  qed
qed

text \<open>
  Claim C28: cleanup keeps the newest checkpoints. After a successful cleanup of a directory
  whose entries are distinct siblings, exactly the configured number of checkpoint directories
  (or all, if there are fewer) is left, the reported count is the number removed, and no
  removed directory was modified later than one that was kept.
\<close>

theorem cleanup_keeps_newest_checkpoints:
  assumes ok: "remove_dir_ok fs" and "path_exists fs f (checkpoints_dir cfg)"
    and "fs_read_dir fs f (checkpoints_dir cfg) = Inr rd" and "collect_dirs rd = Inr dirs"
    and dist: "distinct (map fst dirs)" and ex: "\<And>p. p \<in> fst ` set dirs \<Longrightarrow> path_exists fs f p"
    and sib: "\<And>p q. p \<in> fst ` set dirs \<Longrightarrow> q \<in> fst ` set dirs \<Longrightarrow> within p q \<Longrightarrow> q = p"
    and run: "cleanup_old_checkpoints fs cfg f = (f', Inr n)"
  shows "n = length dirs - retain_last_checkpoints cfg \<and>
    length (filter (\<lambda>(p, _). path_exists fs f' p) dirs) = min (length dirs) (retain_last_checkpoints cfg) \<and>
    (\<forall>p t q u. (p, t) \<in> set dirs \<and> (q, u) \<in> set dirs \<and> path_exists fs f' p \<and> \<not> path_exists fs f' q \<longrightarrow> u \<le> t)"
proof (cases "length dirs \<le> retain_last_checkpoints cfg")
  case True
  then have "f' = f" "n = 0" using assms run by (auto simp: cleanup_old_checkpoints_def)
  moreover have "filter (\<lambda>(p, _). path_exists fs f p) dirs = dirs" using ex by (force simp: filter_id_conv)
  ultimately show ?thesis using True ex by force
next
  case False
  let ?k = "length dirs - retain_last_checkpoints cfg"
  let ?gone = "take ?k (sort_key snd dirs)"
  from False assms run have n: "n = ?k" and rm: "\<exists>u. remove_dirs fs ?gone f = (f', Inr u)"
    by (auto simp: cleanup_old_checkpoints_def Let_def try_then_Inr)
  have gone: "path_exists fs f' q \<longleftrightarrow> q \<notin> fst ` set ?gone" if "q \<in> fst ` set dirs" for q
  proof -
    have "fst ` set ?gone \<subseteq> fst ` set dirs" using set_take_subset [of ?k "sort_key snd dirs"] by auto
    then show ?thesis using rm remove_dirs_Inr [OF ok _ sib _ that] ex [OF that] by blast
  qed
  then have "filter (\<lambda>(p, _). path_exists fs f' p) dirs = filter (\<lambda>(p, _). p \<notin> fst ` set ?gone) dirs"
    by (intro filter_cong refl) (simp add: case_prod_beta)
  then have "length (filter (\<lambda>(p, _). path_exists fs f' p) dirs) = length dirs - ?k"
    using kept_is_tail(1) [OF dist] by simp
  moreover have "u \<le> t" if "(p, t) \<in> set dirs" "(q, u) \<in> set dirs" "path_exists fs f' p" "\<not> path_exists fs f' q" for p t q u
  proof -
    have "p \<in> fst ` set dirs" "q \<in> fst ` set dirs" using that(1,2) by force+
    then have p: "p \<notin> fst ` set ?gone" and q: "q \<in> fst ` set ?gone" using gone that(3,4) by auto
    obtain u' where "(q, u') \<in> set ?gone" using q by auto
    moreover from this have "(q, u') \<in> set dirs" by (metis in_set_takeD set_sort)
    then have "u' = u" using that(2) dist by (auto dest: eq_key_imp_eq_value)
    ultimately show ?thesis using kept_is_tail(2) [OF dist that(1) p] by (auto intro: sort_split_order)
  qed
  ultimately show ?thesis using False n by auto
qed

lemma mem_remove_dir_ok: "remove_dir_ok mem_fs"
proof -
  have "map_of (filter (\<lambda>(q, n). q \<noteq> p \<and> take (length p + 1) q \<noteq> p @ ''/'') f) q =
      (if within p q then None else map_of f q)" for p q and f :: mem_files
    by (induction f) (auto simp: within_def)
  then show ?thesis
    by (auto simp: remove_dir_ok_def path_exists_def mem_fs_def within_def split: if_splits)
qed

definition four_checkpoints :: mem_files where
  "four_checkpoints = [(''c'', DirNode), (''c/1'', DirNode), (''c/2'', DirNode), (''c/3'', DirNode), (''c/4'', DirNode)]"

lemma four_dirs:
  "\<exists>rd. fs_read_dir mem_fs four_checkpoints ''c'' = Inr rd \<and>
     collect_dirs rd = Inr [(''c/1'', 0), (''c/2'', 0), (''c/3'', 0), (''c/4'', 0)]"
  by (simp add: mem_fs_def four_checkpoints_def child_of_def node_meta_def)

theorem cleanup_keeps_newest_checkpoints_witness:
  "\<exists>f'. cleanup_old_checkpoints mem_fs (MergeCleanupConfig_default\<lparr>checkpoints_dir := ''c''\<rparr>) four_checkpoints
      = (f', Inr 1) \<and>
    length (filter (\<lambda>(p, _). path_exists mem_fs f' p) [(''c/1'', 0 :: int), (''c/2'', 0), (''c/3'', 0), (''c/4'', 0)]) = 3"
proof -
  let ?cfg = "MergeCleanupConfig_default\<lparr>checkpoints_dir := ''c''\<rparr>"
  let ?ds = "[(''c/1'', 0 :: int), (''c/2'', 0), (''c/3'', 0), (''c/4'', 0)]"
  obtain rd where rd: "fs_read_dir mem_fs four_checkpoints ''c'' = Inr rd" "collect_dirs rd = Inr ?ds"
    using four_dirs by blast
  have ex: "path_exists mem_fs four_checkpoints ''c''"
    by (simp add: path_exists_def four_checkpoints_def)
  obtain f' where run: "cleanup_old_checkpoints mem_fs ?cfg four_checkpoints = (f', Inr 1)"
    using rd ex by (simp add: cleanup_old_checkpoints_def MergeCleanupConfig_default_def Let_def
        remove_dir_if_exists_def path_exists_def four_checkpoints_def)
      (simp add: mem_fs_def)
  have "1 = length ?ds - retain_last_checkpoints ?cfg \<and>
    length (filter (\<lambda>(p, _). path_exists mem_fs f' p) ?ds) = min (length ?ds) (retain_last_checkpoints ?cfg) \<and>
    (\<forall>p t q u. (p, t) \<in> set ?ds \<and> (q, u) \<in> set ?ds \<and> path_exists mem_fs f' p \<and> \<not> path_exists mem_fs f' q \<longrightarrow> u \<le> t)"
    by (rule cleanup_keeps_newest_checkpoints [OF mem_remove_dir_ok _ _ rd(2) _ _ _ run])
      (use rd ex in \<open>auto simp: path_exists_def four_checkpoints_def within_def\<close>)
  with run show ?thesis by (auto simp: MergeCleanupConfig_default_def)
qed

end
