(* ===== verification/Ordered_Map.thy ===== *)
theory Ordered_Map
  imports Prelude
begin

text \<open>
  The standard library's \<open>BTreeMap\<close>, of which the storage layer uses \<open>insert\<close>,
  \<open>get\<close>, \<open>range\<close>, \<open>retain\<close>, \<open>clear\<close> and \<open>last_key_value\<close>. The interface
  \<open>ordered_map\<close> states what these promise in terms of the finite map they represent; the
  lemmas the log storage needs are proved once from it. The model is the association list in
  strictly increasing key order that iteration over a \<open>BTreeMap\<close> yields.
\<close>

section \<open>The interface\<close>

lemma sorted_keys_unique:
  assumes "sorted_wrt (<) (map fst xs)" "sorted_wrt (<) (map fst ys)" "set xs = set ys"
  shows "xs = (ys :: ('k::linorder \<times> 'v) list)"
proof (rule map_sorted_distinct_set_unique)
  show "inj_on fst (set xs \<union> set ys)"
    using assms by (simp add: strict_sorted_iff distinct_map)
qed (use assms in \<open>simp_all add: strict_sorted_iff\<close>)

locale ordered_map =
  fixes empty :: "'m"
    and lookup :: "'m \<Rightarrow> 'k::linorder \<Rightarrow> 'v option"
    and insert_kv :: "'k \<Rightarrow> 'v \<Rightarrow> 'm \<Rightarrow> 'm"
    and retain :: "('k \<Rightarrow> bool) \<Rightarrow> 'm \<Rightarrow> 'm"
    and rng :: "'k \<Rightarrow> 'k \<Rightarrow> 'm \<Rightarrow> ('k \<times> 'v) list"
    and last_kv :: "'m \<Rightarrow> ('k \<times> 'v) option"
    and inv :: "'m \<Rightarrow> bool"
  assumes inv_empty: "inv empty"
    and inv_insert: "inv m \<Longrightarrow> inv (insert_kv k v m)"
    and inv_retain: "inv m \<Longrightarrow> inv (retain P m)"
    and lookup_empty: "lookup empty k = None"
    and lookup_insert: "inv m \<Longrightarrow> lookup (insert_kv k v m) = (lookup m)(k \<mapsto> v)"
    and lookup_retain: "inv m \<Longrightarrow> lookup (retain P m) k = (if P k then lookup m k else None)"
    and rng_sorted: "inv m \<Longrightarrow> sorted_wrt (<) (map fst (rng lo hi m))"
    and rng_set: "inv m \<Longrightarrow> (k, v) \<in> set (rng lo hi m) \<longleftrightarrow> lo \<le> k \<and> k \<le> hi \<and> lookup m k = Some v"
    and last_kv_None: "inv m \<Longrightarrow> last_kv m = None \<longleftrightarrow> (\<forall>k. lookup m k = None)"
    and last_kv_Some: "inv m \<Longrightarrow> last_kv m = Some (k, v) \<longleftrightarrow>
          lookup m k = Some v \<and> (\<forall>k'. lookup m k' \<noteq> None \<longrightarrow> k' \<le> k)"
begin

text \<open>A range is determined by the map between its bounds.\<close>

lemma rng_cong:
  assumes "inv m" "inv m'" and "\<And>k. lo \<le> k \<Longrightarrow> k \<le> hi \<Longrightarrow> lookup m k = lookup m' k"
  shows "rng lo hi m = rng lo hi m'"
  using assms by (intro sorted_keys_unique) (auto simp: rng_sorted rng_set)

lemma rng_insert_outside:
  assumes "inv m" and "k < lo \<or> hi < k"
  shows "rng lo hi (insert_kv k v m) = rng lo hi m"
  using assms by (intro rng_cong) (auto simp: inv_insert lookup_insert)

lemma rng_retain:
  assumes "inv m" and "\<And>k. lo \<le> k \<Longrightarrow> k \<le> hi \<Longrightarrow> P k"
  shows "rng lo hi (retain P m) = rng lo hi m"
  using assms by (intro rng_cong) (auto simp: inv_retain lookup_retain)

lemma rng_retain_none:
  assumes "inv m" and "\<And>k. lo \<le> k \<Longrightarrow> k \<le> hi \<Longrightarrow> \<not> P k"
  shows "rng lo hi (retain P m) = []"
proof -
  have "p \<notin> set (rng lo hi (retain P m))" for p
    using assms by (cases p) (auto simp: rng_set inv_retain lookup_retain split: if_splits)
  then show ?thesis by (metis list.set_intros(1) neq_Nil_conv)
qed

lemma last_kv_lookup: "inv m \<Longrightarrow> last_kv m = Some (k, v) \<Longrightarrow> lookup m k = Some v"
  by (simp add: last_kv_Some)

lemma last_kv_insert_max:
  assumes "inv m" and "\<And>k'. lookup m k' \<noteq> None \<Longrightarrow> k' \<le> k"
  shows "last_kv (insert_kv k v m) = Some (k, v)"
  using assms by (auto simp: last_kv_Some inv_insert lookup_insert)

text \<open>Inserting a sequence of entries: later ones win.\<close>

lemma inv_fold_insert: "inv m \<Longrightarrow> inv (fold (\<lambda>(k, v). insert_kv k v) kvs m)"
  by (induction kvs arbitrary: m) (auto simp: inv_insert)

lemma lookup_fold_insert:
  "inv m \<Longrightarrow> lookup (fold (\<lambda>(k, v). insert_kv k v) kvs m) = lookup m ++ map_of (rev kvs)"
proof (induction kvs arbitrary: m)
  case Nil
  then show ?case by simp
next
  case (Cons kv kvs)
  then show ?case
    by (cases kv) (simp add: inv_insert lookup_insert map_add_def fun_eq_iff split: option.split)
qed

end

section \<open>The model\<close>

type_synonym ('k, 'v) btree_map = "('k \<times> 'v) list"

fun bt_insert :: "'k::linorder \<Rightarrow> 'v \<Rightarrow> ('k, 'v) btree_map \<Rightarrow> ('k, 'v) btree_map" where
  "bt_insert k v [] = [(k, v)]"
| "bt_insert k v ((k', v') # m) =
     (if k' < k then (k', v') # bt_insert k v m
      else if k' = k then (k, v) # m
      else (k, v) # (k', v') # m)"

definition bt_get :: "('k, 'v) btree_map \<Rightarrow> 'k \<Rightarrow> 'v option" where
  "bt_get m k = map_of m k"

definition bt_retain :: "('k \<Rightarrow> bool) \<Rightarrow> ('k, 'v) btree_map \<Rightarrow> ('k, 'v) btree_map" where
  "bt_retain P m = filter (\<lambda>(k, v). P k) m"

definition bt_range :: "'k::linorder \<Rightarrow> 'k \<Rightarrow> ('k, 'v) btree_map \<Rightarrow> ('k \<times> 'v) list" where
  "bt_range lo hi m = filter (\<lambda>(k, v). lo \<le> k \<and> k \<le> hi) m"

definition bt_last :: "('k, 'v) btree_map \<Rightarrow> ('k \<times> 'v) option" where
  "bt_last m = (if m = [] then None else Some (last m))"

definition bt_wf :: "('k::linorder, 'v) btree_map \<Rightarrow> bool" where
  "bt_wf m = sorted_wrt (<) (map fst m)"

lemma bt_wf_Nil [simp]: "bt_wf []"
  by (simp add: bt_wf_def)

lemma bt_wf_Cons: "bt_wf ((k, v) # m) \<longleftrightarrow> (\<forall>p \<in> set m. k < fst p) \<and> bt_wf m"
  by (simp add: bt_wf_def)

lemma set_bt_insert: "bt_wf m \<Longrightarrow> set (bt_insert k v m) = {p \<in> set m. fst p \<noteq> k} \<union> {(k, v)}"
  by (induction k v m rule: bt_insert.induct) (auto simp: bt_wf_Cons)

lemma bt_wf_insert: "bt_wf m \<Longrightarrow> bt_wf (bt_insert k v m)"
proof (induction k v m rule: bt_insert.induct)
  case (2 k v k' v' m)
  then have m: "bt_wf m" "\<forall>p \<in> set m. k' < fst p" by (auto simp: bt_wf_Cons)
  consider "k' < k" | "k' = k" | "k < k'" by fastforce
  then show ?case
    using 2 m by cases (auto simp: bt_wf_Cons set_bt_insert)
qed (simp add: bt_wf_Cons)

lemma bt_get_insert: "bt_wf m \<Longrightarrow> bt_get (bt_insert k v m) = (bt_get m)(k \<mapsto> v)"
  by (induction k v m rule: bt_insert.induct) (auto simp: bt_get_def bt_wf_Cons fun_eq_iff)

lemma bt_wf_distinct: "bt_wf m \<Longrightarrow> distinct (map fst m)"
  by (simp add: bt_wf_def strict_sorted_iff)

lemma bt_get_iff: "bt_wf m \<Longrightarrow> bt_get m k = Some v \<longleftrightarrow> (k, v) \<in> set m"
  by (simp add: bt_get_def bt_wf_distinct)

lemma bt_wf_filter: "bt_wf m \<Longrightarrow> bt_wf (filter P m)"
  by (induction m) (auto simp: bt_wf_Cons)

lemma bt_get_retain: "bt_get (bt_retain P m) k = (if P k then bt_get m k else None)"
  by (induction m) (auto simp: bt_get_def bt_retain_def)

lemma bt_get_None: "bt_get m k = None \<longleftrightarrow> k \<notin> fst ` set m"
  by (simp add: bt_get_def map_of_eq_None_iff)

lemma bt_last_max: "bt_wf m \<Longrightarrow> m \<noteq> [] \<Longrightarrow> p \<in> set m \<Longrightarrow> fst p \<le> fst (last m)"
proof (induction m)
  case (Cons q m)
  then have q: "\<forall>r \<in> set m. fst q < fst r" and m: "bt_wf m"
    by (cases q; simp add: bt_wf_Cons)+
  show ?case
  proof (cases "m = []")
    case True
    with Cons.prems show ?thesis by simp
  next
    case False
    then have "fst q < fst (last m)" using q by simp
    with False Cons m show ?thesis by auto
  qed
qed simp

lemma bt_last_Some:
  assumes "bt_wf m"
  shows "bt_last m = Some (k, v) \<longleftrightarrow> bt_get m k = Some v \<and> (\<forall>k'. bt_get m k' \<noteq> None \<longrightarrow> k' \<le> k)"
proof (cases "m = []")
  case True
  then show ?thesis by (simp add: bt_last_def bt_get_def)
next
  case False
  show ?thesis
  proof
    assume "bt_last m = Some (k, v)"
    then have "last m = (k, v)" using False by (simp add: bt_last_def)
    then show "bt_get m k = Some v \<and> (\<forall>k'. bt_get m k' \<noteq> None \<longrightarrow> k' \<le> k)"
      using False assms bt_last_max [OF assms False] last_in_set [OF False]
      by (fastforce simp: bt_get_iff)
  next
    assume r: "bt_get m k = Some v \<and> (\<forall>k'. bt_get m k' \<noteq> None \<longrightarrow> k' \<le> k)"
    obtain a b where ab: "last m = (a, b)" by fastforce
    then have "bt_get m a = Some b" using False assms by (simp add: bt_get_iff) (metis last_in_set)
    moreover from this r have "a \<le> k" by auto
    moreover have "k \<le> a"
      using bt_last_max [OF assms False, of "(k, v)"] r ab by (simp add: bt_get_iff assms)
    ultimately have "a = k" "b = v" using r by auto
    then show "bt_last m = Some (k, v)" using ab False by (simp add: bt_last_def)
  qed
qed

interpretation bt: ordered_map "[]" bt_get bt_insert bt_retain bt_range bt_last bt_wf
proof unfold_locales
  fix m :: "('k::linorder \<times> 'v) list" and k :: 'k and v :: 'v and lo hi :: 'k and P :: "'k \<Rightarrow> bool"
  assume m: "bt_wf m"
  show "bt_wf (bt_insert k v m)" using m by (rule bt_wf_insert)
  show "bt_wf (bt_retain P m)" using m by (simp add: bt_retain_def bt_wf_filter)
  show "bt_get (bt_insert k v m) = (bt_get m)(k \<mapsto> v)" using m by (rule bt_get_insert)
  show "bt_get (bt_retain P m) k = (if P k then bt_get m k else None)" by (rule bt_get_retain)
  show "sorted_wrt (<) (map fst (bt_range lo hi m))"
    using bt_wf_filter [OF m] by (simp add: bt_range_def bt_wf_def)
  show "(k, v) \<in> set (bt_range lo hi m) \<longleftrightarrow> lo \<le> k \<and> k \<le> hi \<and> bt_get m k = Some v"
    using m by (auto simp: bt_range_def bt_get_iff)
  show "bt_last m = None \<longleftrightarrow> (\<forall>k. bt_get m k = None)"
    by (cases m) (auto simp: bt_last_def bt_get_def)
  show "bt_last m = Some (k, v) \<longleftrightarrow>
      bt_get m k = Some v \<and> (\<forall>k'. bt_get m k' \<noteq> None \<longrightarrow> k' \<le> k)"
    using m by (rule bt_last_Some)
qed (simp_all add: bt_get_def)

end
