(* ===== verification/Config.thy ===== *)
theory Config
  imports Ordered_Map World
begin

text \<open>
  \<open>src/config.rs\<close>: the configuration of a node, how command-line values override it, which
  configurations are accepted, and the membership and address tables derived from it. Parsing
  the command line (clap) and the configuration file (toml) is third-party code: the arguments
  come parsed, and the parser of the file is a parameter. Durations and addresses are kept as
  the source has them.
\<close>

section \<open>Data\<close>

record NodeConfig =
  nc_node_id :: u64
  nc_listen_addr :: string
  nc_data_dir :: path

record HttpConfig =
  http_enabled :: bool
  http_port :: u16

record RaftConfig =
  heartbeat_interval_ms :: u64
  election_timeout_ms :: u64
  max_payload_entries :: u64

record SnapshotConfig =
  sc_checkpoint_interval_secs :: u64
  max_delta_chain :: nat
  max_delta_bytes_mb :: u64

record StorageConfig =
  enable_compression :: bool
  flush_interval_ms :: u64

record LoggingConfig =
  log_level :: string
  log_format :: string

record MetricsConfig =
  metrics_enabled :: bool
  metrics_listen_addr :: string

record PeerConfig =
  peer_node_id :: u64
  peer_addr :: string

record ClusterConfig =
  bootstrap :: bool
  expected_voters :: "nat option"
  peers :: "PeerConfig list"

definition ClusterConfig_default :: ClusterConfig where
  "ClusterConfig_default = \<lparr>bootstrap = False, expected_voters = None, peers = []\<rparr>"

record Config =
  cf_node :: NodeConfig
  cf_http :: HttpConfig
  cf_raft :: RaftConfig
  cf_cluster :: ClusterConfig
  cf_snapshot :: SnapshotConfig
  cf_storage :: StorageConfig
  cf_logging :: LoggingConfig
  cf_metrics :: MetricsConfig

definition Config_default :: Config where
  "Config_default = \<lparr>
     cf_node = \<lparr>nc_node_id = 1, nc_listen_addr = ''127.0.0.1:50051'', nc_data_dir = ''./data/node_1''\<rparr>,
     cf_http = \<lparr>http_enabled = True, http_port = 8080\<rparr>,
     cf_raft = \<lparr>heartbeat_interval_ms = 500, election_timeout_ms = 3000, max_payload_entries = 300\<rparr>,
     cf_cluster = ClusterConfig_default,
     cf_snapshot = \<lparr>sc_checkpoint_interval_secs = 3600, max_delta_chain = 5, max_delta_bytes_mb = 300\<rparr>,
     cf_storage = \<lparr>enable_compression = True, flush_interval_ms = 1000\<rparr>,
     cf_logging = \<lparr>log_level = ''info'', log_format = ''text''\<rparr>,
     cf_metrics = \<lparr>metrics_enabled = True, metrics_listen_addr = ''0.0.0.0:9090''\<rparr>\<rparr>"

record CliArgs =
  arg_config :: "path option"
  arg_node_id :: "u64 option"
  arg_listen_addr :: "string option"
  arg_data_dir :: "path option"
  arg_http_port :: "u16 option"
  arg_log_level :: "string option"
  arg_version :: bool

section \<open>Validation\<close>

text \<open>The loop over the peers with the sets of ids and addresses seen so far.\<close>

fun validate_peers :: "NodeConfig \<Rightarrow> u64 set \<Rightarrow> string set \<Rightarrow> PeerConfig list \<Rightarrow> string + unit" where
  "validate_peers node seen_node_ids seen_addrs [] = Inr ()"
| "validate_peers node seen_node_ids seen_addrs (p # ps) =
     (if peer_node_id p = 0 then Inl ''cluster.peers.node_id must be greater than 0''
      else if trim (peer_addr p) = [] then Inl ''cluster.peers.addr cannot be empty''
      else if peer_node_id p = nc_node_id node then Inl ''cluster.peers must not include current node_id''
      else if peer_addr p = nc_listen_addr node then Inl ''cluster.peers must not reuse current node listen_addr''
      else if peer_node_id p \<in> seen_node_ids
      then Inl (''cluster.peers contains duplicate node_id: '' @ show_u64 (peer_node_id p))
      else if peer_addr p \<in> seen_addrs
      then Inl (''cluster.peers contains duplicate addr: '' @ peer_addr p)
      else validate_peers node (insert (peer_node_id p) seen_node_ids) (insert (peer_addr p) seen_addrs) ps)"

definition validate :: "Config \<Rightarrow> string + unit" where
  "validate c =
     (if nc_node_id (cf_node c) = 0 then Inl ''node_id must be greater than 0''
      else if nc_listen_addr (cf_node c) = [] then Inl ''listen_addr cannot be empty''
      else if heartbeat_interval_ms (cf_raft c) \<ge> election_timeout_ms (cf_raft c)
      then Inl ''heartbeat_interval_ms must be less than election_timeout_ms''
      else if http_enabled (cf_http c) \<and> http_port (cf_http c) = 0
      then Inl ''HTTP port cannot be 0 when HTTP is enabled''
      else and_then (validate_peers (cf_node c) {} {} (peers (cf_cluster c))) (\<lambda>_.
        case expected_voters (cf_cluster c) of
          None \<Rightarrow> Inr ()
        | Some expected \<Rightarrow>
            if expected = 0 then Inl ''cluster.expected_voters must be greater than 0''
            else let actual = 1 + length (peers (cf_cluster c)) in
              if expected \<noteq> actual
              then Inl (''cluster.expected_voters mismatch: expected='' @ show_nat expected @
                 '', actual='' @ show_nat actual @ '' (self + peers)'')
              else Inr ()))"

section \<open>Loading\<close>

text \<open>
  \<open>Config::load\<close> after the command line was parsed. The request for the version prints it and
  leaves the process: the value \<open>None\<close>.
\<close>

definition apply_overrides :: "CliArgs \<Rightarrow> Config \<Rightarrow> Config" where
  "apply_overrides args c =
     (let c = (case arg_node_id args of None \<Rightarrow> c
            | Some i \<Rightarrow> c\<lparr>cf_node := (cf_node c)\<lparr>nc_node_id := i\<rparr>\<rparr>);
          c = (case arg_listen_addr args of None \<Rightarrow> c
            | Some a \<Rightarrow> c\<lparr>cf_node := (cf_node c)\<lparr>nc_listen_addr := a\<rparr>\<rparr>);
          c = (case arg_data_dir args of None \<Rightarrow> c
            | Some d \<Rightarrow> c\<lparr>cf_node := (cf_node c)\<lparr>nc_data_dir := d\<rparr>\<rparr>);
          c = (case arg_http_port args of None \<Rightarrow> c
            | Some p \<Rightarrow> c\<lparr>cf_http := (cf_http c)\<lparr>http_port := p\<rparr>\<rparr>)
      in (case arg_log_level args of None \<Rightarrow> c
            | Some l \<Rightarrow> c\<lparr>cf_logging := (cf_logging c)\<lparr>log_level := l\<rparr>\<rparr>))"

definition Config_load ::
  "(string \<Rightarrow> string + Config) \<Rightarrow> 'f filesystem \<Rightarrow> 'f \<Rightarrow> CliArgs \<Rightarrow> (string + Config) option" where
  "Config_load toml fs f args =
     (if arg_version args then None
      else Some (
        and_then (case arg_config args of
            Some config_path \<Rightarrow> and_then (read_to_string fs f config_path) toml
          | None \<Rightarrow> Inr Config_default) (\<lambda>config.
        let config = apply_overrides args config in
        and_then (validate config) (\<lambda>_. Inr config))))"

section \<open>Derived tables\<close>

record BasicNode =
  bn_addr :: string

definition BasicNode_new :: "string \<Rightarrow> BasicNode" where
  "BasicNode_new a = \<lparr>bn_addr = a\<rparr>"

definition cluster_members :: "Config \<Rightarrow> (u64, BasicNode) btree_map" where
  "cluster_members c =
     fold (\<lambda>p out. bt_insert (peer_node_id p) (BasicNode_new (peer_addr p)) out) (peers (cf_cluster c))
       (bt_insert (nc_node_id (cf_node c)) (BasicNode_new (nc_listen_addr (cf_node c))) [])"

definition resolver_addresses :: "Config \<Rightarrow> u64 \<Rightarrow> string option" where
  "resolver_addresses c =
     fold (\<lambda>p out. out(peer_node_id p \<mapsto> peer_addr p)) (peers (cf_cluster c))
       (Map.empty(nc_node_id (cf_node c) \<mapsto> nc_listen_addr (cf_node c)))"

section \<open>Preflight checks\<close>

text \<open>Binding a socket address and releasing it again is a parameter, \<open>bind\<close>.\<close>

definition ensure_data_dir :: "'f filesystem \<Rightarrow> Config \<Rightarrow> 'f \<Rightarrow> 'f \<times> (string + unit)" where
  "ensure_data_dir fs c f = fs_create_dir_all fs (nc_data_dir (cf_node c)) f"

definition check_bindable :: "(string \<Rightarrow> string + unit) \<Rightarrow> string \<Rightarrow> string + unit" where
  "check_bindable bind addr = map_err (\<lambda>e. ''address not bindable ('' @ addr @ ''): '' @ e) (bind addr)"

definition preflight_check ::
  "'f filesystem \<Rightarrow> (string \<Rightarrow> string + unit) \<Rightarrow> Config \<Rightarrow> 'f \<Rightarrow> 'f \<times> (string + unit)" where
  "preflight_check fs bind c f =
     try_then (ensure_data_dir fs c f) (\<lambda>f _.
     let probe = path_join (nc_data_dir (cf_node c)) ''.write_probe'' in
     try_then (map_err_st (\<lambda>e. ''data_dir is not writable: '' @ e) (fs_write fs probe (as_bytes ''ok'') f)) (\<lambda>f _.
     let f = fst (fs_remove_file fs probe f) in
     try_then (f, check_bindable bind (nc_listen_addr (cf_node c))) (\<lambda>f _.
     if http_enabled (cf_http c)
     then (f, check_bindable bind (''0.0.0.0:'' @ show_u64 (http_port (cf_http c))))
     else (f, Inr ()))))"

section \<open>Which configurations are accepted\<close>

lemma validate_peers_iff:
  "validate_peers node ids addrs ps = Inr () \<longleftrightarrow>
     0 \<notin> peer_node_id ` set ps \<and> nc_node_id node \<notin> peer_node_id ` set ps \<and>
     nc_listen_addr node \<notin> peer_addr ` set ps \<and> (\<forall>p \<in> set ps. trim (peer_addr p) \<noteq> []) \<and>
     distinct (map peer_node_id ps) \<and> distinct (map peer_addr ps) \<and>
     peer_node_id ` set ps \<inter> ids = {} \<and> peer_addr ` set ps \<inter> addrs = {}"
proof (induction ps arbitrary: ids addrs)
  case (Cons p ps)
  show ?case
    by (simp only: validate_peers.simps Cons.IH split: if_split) auto
qed simp

lemma validate_iff:
  "validate c = Inr () \<longleftrightarrow>
     nc_listen_addr (cf_node c) \<noteq> [] \<and>
     heartbeat_interval_ms (cf_raft c) < election_timeout_ms (cf_raft c) \<and>
     (http_enabled (cf_http c) \<longrightarrow> http_port (cf_http c) \<noteq> 0) \<and>
     0 \<notin> insert (nc_node_id (cf_node c)) (peer_node_id ` set (peers (cf_cluster c))) \<and>
     distinct (nc_node_id (cf_node c) # map peer_node_id (peers (cf_cluster c))) \<and>
     distinct (nc_listen_addr (cf_node c) # map peer_addr (peers (cf_cluster c))) \<and>
     (\<forall>p \<in> set (peers (cf_cluster c)). trim (peer_addr p) \<noteq> []) \<and>
     (\<forall>n. expected_voters (cf_cluster c) = Some n \<longrightarrow> n = Suc (length (peers (cf_cluster c))))"
proof -
  have "validate c = Inr () \<longleftrightarrow>
     nc_node_id (cf_node c) \<noteq> 0 \<and> nc_listen_addr (cf_node c) \<noteq> [] \<and>
     heartbeat_interval_ms (cf_raft c) < election_timeout_ms (cf_raft c) \<and>
     \<not> (http_enabled (cf_http c) \<and> http_port (cf_http c) = 0) \<and>
     validate_peers (cf_node c) {} {} (peers (cf_cluster c)) = Inr () \<and>
     (\<forall>n. expected_voters (cf_cluster c) = Some n \<longrightarrow> n = Suc (length (peers (cf_cluster c))))"
    by (auto simp: validate_def and_then_Inr not_le Let_def split: option.splits)
  then show ?thesis unfolding validate_peers_iff by auto
qed

text \<open>
  Claim C21: exactly the sensible configurations are accepted. Validation succeeds if and only if
  no node id is zero, all ids and all addresses of the node and its peers are different, no
  peer address is blank, the node has an address, the heartbeat is shorter than the election
  timeout, an enabled HTTP server has a port, and an announced number of voters is the number
  of nodes listed.
\<close>

theorem validate_characterised:
  "validate c = Inr () \<longleftrightarrow>
     nc_listen_addr (cf_node c) \<noteq> [] \<and>
     heartbeat_interval_ms (cf_raft c) < election_timeout_ms (cf_raft c) \<and>
     (http_enabled (cf_http c) \<longrightarrow> http_port (cf_http c) \<noteq> 0) \<and>
     0 \<notin> insert (nc_node_id (cf_node c)) (peer_node_id ` set (peers (cf_cluster c))) \<and>
     distinct (nc_node_id (cf_node c) # map peer_node_id (peers (cf_cluster c))) \<and>
     distinct (nc_listen_addr (cf_node c) # map peer_addr (peers (cf_cluster c))) \<and>
     (\<forall>p \<in> set (peers (cf_cluster c)). trim (peer_addr p) \<noteq> []) \<and>
     (\<forall>n. expected_voters (cf_cluster c) = Some n \<longrightarrow> n = Suc (length (peers (cf_cluster c))))"
  by (rule validate_iff)

lemma default_valid: "validate Config_default = Inr ()"
  by (simp add: validate_iff Config_default_def ClusterConfig_default_def)

theorem validate_characterised_witness:
  "validate Config_default = Inr () \<and> validate (Config_default\<lparr>cf_http := \<lparr>http_enabled = True, http_port = 0\<rparr>\<rparr>) \<noteq> Inr ()"
  using validate_characterised [of Config_default]
    validate_characterised [of "Config_default\<lparr>cf_http := \<lparr>http_enabled = True, http_port = 0\<rparr>\<rparr>"]
  by (simp add: Config_default_def ClusterConfig_default_def)

section \<open>Membership\<close>

lemma cluster_members_fold:
  "cluster_members c = fold (\<lambda>(k, v). bt_insert k v)
     ((nc_node_id (cf_node c), BasicNode_new (nc_listen_addr (cf_node c))) #
      map (\<lambda>p. (peer_node_id p, BasicNode_new (peer_addr p))) (peers (cf_cluster c))) []"
  by (simp add: cluster_members_def fold_map o_def)

lemma cluster_members_wf: "bt_wf (cluster_members c)"
  unfolding cluster_members_fold by (rule bt.inv_fold_insert) (rule bt.inv_empty)

lemma resolver_addresses_members:
  "resolver_addresses c i = map_option bn_addr (bt_get (cluster_members c) i)"
proof -
  have "fold (\<lambda>p out. out(peer_node_id p \<mapsto> peer_addr p)) ps m i = map_option bn_addr (bt_get b i)"
    if "b = fold (\<lambda>p out. bt_insert (peer_node_id p) (BasicNode_new (peer_addr p)) out) ps b0"
      "bt_wf b0" "\<And>j. m j = map_option bn_addr (bt_get b0 j)" for ps m b b0
    using that
    by (induction ps arbitrary: m b0) (auto simp: bt_wf_insert bt_get_insert BasicNode_new_def)
  note tables = this
  show ?thesis
    unfolding resolver_addresses_def cluster_members_def
    by (rule tables [OF refl]) (simp_all add: bt_wf_Cons bt_get_def BasicNode_new_def)
qed

lemma cluster_members_get:
  assumes "validate c = Inr ()"
  shows "bt_get (cluster_members c) (nc_node_id (cf_node c)) = Some (BasicNode_new (nc_listen_addr (cf_node c)))"
    and "p \<in> set (peers (cf_cluster c)) \<Longrightarrow> bt_get (cluster_members c) (peer_node_id p) = Some (BasicNode_new (peer_addr p))"
    and "fst ` set (cluster_members c) = insert (nc_node_id (cf_node c)) (peer_node_id ` set (peers (cf_cluster c)))"
proof -
  let ?kvs = "(nc_node_id (cf_node c), BasicNode_new (nc_listen_addr (cf_node c))) #
      map (\<lambda>p. (peer_node_id p, BasicNode_new (peer_addr p))) (peers (cf_cluster c))"
  have d: "distinct (map fst ?kvs)" using assms by (simp add: validate_iff o_def)
  have "bt_get (cluster_members c) = bt_get [] ++ map_of (rev ?kvs)"
    unfolding cluster_members_fold by (rule bt.lookup_fold_insert) (rule bt.inv_empty)
  also have "map_of (rev ?kvs) = map_of ?kvs"
    using d by (intro map_of_inject_set [THEN iffD2]) (simp_all add: rev_map [symmetric])
  also have "bt_get [] ++ map_of ?kvs = map_of ?kvs" by (simp add: bt_get_def map_add_def fun_eq_iff split: option.split)
  finally have g: "bt_get (cluster_members c) = map_of ?kvs" .
  show "bt_get (cluster_members c) (nc_node_id (cf_node c)) = Some (BasicNode_new (nc_listen_addr (cf_node c)))"
    by (simp add: g)
  show "bt_get (cluster_members c) (peer_node_id p) = Some (BasicNode_new (peer_addr p))"
    if "p \<in> set (peers (cf_cluster c))"
    unfolding g using d that by (intro map_of_is_SomeI) auto
  have "bt_get (cluster_members c) = map_of (cluster_members c)" by (simp add: bt_get_def fun_eq_iff)
  then have "dom (map_of (cluster_members c)) = dom (map_of ?kvs)" by (simp only: g)
  then show "fst ` set (cluster_members c) = insert (nc_node_id (cf_node c)) (peer_node_id ` set (peers (cf_cluster c)))"
    by (simp add: dom_map_of_conv_image_fst image_image)
qed

lemma Config_load_Inr:
  assumes "Config_load toml fs f args = Some (Inr c)"
  shows "validate c = Inr ()"
  using assms by (auto simp: Config_load_def and_then_Inr Let_def split: if_splits)


definition three_nodes :: Config where
  "three_nodes = Config_default\<lparr>cf_cluster := \<lparr>bootstrap = True, expected_voters = Some 3,
     peers = [\<lparr>peer_node_id = 3, peer_addr = ''c:1''\<rparr>, \<lparr>peer_node_id = 2, peer_addr = ''b:1''\<rparr>]\<rparr>\<rparr>"

definition id_args :: CliArgs where
  "id_args = \<lparr>arg_config = Some ''cfg'', arg_node_id = Some 7, arg_listen_addr = None, arg_data_dir = None,
     arg_http_port = None, arg_log_level = None, arg_version = False\<rparr>"

lemma three_nodes_load:
  "Config_load (\<lambda>_. Inr three_nodes) mem_fs [(''cfg'', FileNode [])] id_args = Some (Inr (apply_overrides id_args three_nodes))"
proof -
  have "trim ''c:1'' \<noteq> []" "trim ''b:1'' \<noteq> []" by code_simp+
  then have "validate (apply_overrides id_args three_nodes) = Inr ()"
    by (simp add: validate_iff apply_overrides_def id_args_def three_nodes_def Config_default_def)
  then show ?thesis
    by (simp add: Config_load_def id_args_def read_to_string_def mem_fs_def valid_utf8_def)
qed


end
