(* ===== verification/Consistency.thy ===== *)
theory Consistency
  imports Types
begin

text \<open>
  \<open>src/snapshot/consistency.rs\<close> and \<open>src/snapshot/checkpoint.rs\<close>: the sequence number of a
  checkpoint is stored twice, under a fixed key of the tree and in a manifest file inside the
  checkpoint directory, and resolved from the first source that has it. The traits
  \<open>SequenceNumberReader\<close> and \<open>SequenceNumberWriter\<close> are the interface
  \<open>sequence_store\<close>. The operations work on a tree and the world, a pair \<open>('t \<times> 'f world)\<close>.
\<close>

definition on_world :: "('f world \<Rightarrow> 'f world \<times> 'r) \<Rightarrow> 't \<times> 'f world \<Rightarrow> ('t \<times> 'f world) \<times> 'r" where
  "on_world op s = zoom snd (\<lambda>w (t, _). (t, w)) op s"

definition on_kv :: "('t \<Rightarrow> 't \<times> 'r) \<Rightarrow> 't \<times> 'f world \<Rightarrow> ('t \<times> 'f world) \<times> 'r" where
  "on_kv op s = zoom fst (\<lambda>t (_, w). (t, w)) op s"

lemma on_world_iff: "on_world op s = (s', r) \<longleftrightarrow> (\<exists>w. op (snd s) = (w, r) \<and> s' = (fst s, w))"
  by (cases s) (simp add: on_world_def zoom_iff)

lemma on_kv_iff: "on_kv op s = (s', r) \<longleftrightarrow> (\<exists>t. op (fst s) = (t, r) \<and> s' = (t, snd s))"
  by (cases s) (simp add: on_kv_def zoom_iff)

lemma on_world_Pair [simp]: "on_world op (t, w) = (case op w of (w', r) \<Rightarrow> ((t, w'), r))"
  by (simp add: on_world_def zoom_def)

lemma on_kv_Pair [simp]: "on_kv op (t, w) = (case op t of (t', r) \<Rightarrow> ((t', w), r))"
  by (simp add: on_kv_def zoom_def)

section \<open>Reader and writer of the persisted key\<close>

abbreviation CHECKPOINT_METADATA_FILE :: string where
  "CHECKPOINT_METADATA_FILE \<equiv> ''CHECKPOINT_METADATA''"

abbreviation CONSISTENCY_SEQ_KEY :: bytes where
  "CONSISTENCY_SEQ_KEY \<equiv> as_bytes ''raft_consistency:sequence_number''"

text \<open>
  Eight bytes are a big-endian number; anything else is tried as decimal text. A byte
  string that is not UTF-8 contains a byte that is no digit, so reading the bytes as
  characters rejects it as the source's \<open>from_utf8\<close> does.
\<close>

definition decode_sequence :: "bytes \<Rightarrow> RaftError + u64" where
  "decode_sequence raw =
     (if length raw = 8 then Inr (from_be_bytes_u64 raw)
      else case parse_u64 (of_bytes raw) of
          Some v \<Rightarrow> Inr v
        | None \<Rightarrow> Inl (Snapshot ''persisted consistency key has unsupported format''))"

definition read_sequence_number :: "('t, 'x, 'f) surrealkv \<Rightarrow> 't \<Rightarrow> RaftError + u64" where
  "read_sequence_number kv t =
     (case tree_view kv t of
        Inl e \<Rightarrow> Inl (Snapshot (''read consistency key failed: '' @ e))
      | Inr txn \<Rightarrow> (case txn_get kv txn CONSISTENCY_SEQ_KEY of
          Inl e \<Rightarrow> Inl (Snapshot (''read consistency key failed: '' @ e))
        | Inr value \<Rightarrow>
            and_then (ok_or (Snapshot ''persisted consistency key is missing'') value) decode_sequence))"

definition write_sequence_number ::
  "('t, 'x, 'f) surrealkv \<Rightarrow> u64 \<Rightarrow> 't \<Rightarrow> 't \<times> (RaftError + unit)" where
  "write_sequence_number kv n t =
     (case tree_begin kv t of
        Inl e \<Rightarrow> (t, Inl (Snapshot (''begin transaction failed: '' @ e)))
      | Inr txn \<Rightarrow> (case txn_set kv txn CONSISTENCY_SEQ_KEY (to_be_bytes_u64 n) of
          Inl e \<Rightarrow> (t, Inl (Snapshot (''set consistency key failed: '' @ e)))
        | Inr txn' \<Rightarrow> map_err_st (\<lambda>e. Snapshot (''commit consistency key failed: '' @ e))
            (txn_commit kv t txn')))"

section \<open>Manifest and resolution\<close>

definition parse_sequence_from_checkpoint_manifest ::
  "'f filesystem \<Rightarrow> path \<Rightarrow> 'f \<Rightarrow> RaftError + u64 option" where
  "parse_sequence_from_checkpoint_manifest fs checkpoint_dir f =
     (let p = path_join checkpoint_dir CHECKPOINT_METADATA_FILE in
      if \<not> path_exists fs f p then Inr None
      else and_then (map_err (\<lambda>e. Snapshot (''read checkpoint manifest failed: '' @ e)) (fs_read fs f p))
        (\<lambda>data. if length data < 20 then Inr None
                else Inr (Some (from_be_bytes_u64 (take 8 (drop 12 data))))))"

definition write_sequence_number_dual ::
  "'f filesystem \<Rightarrow> (u64 \<Rightarrow> 't \<Rightarrow> 't \<times> (RaftError + unit)) \<Rightarrow> path \<Rightarrow> u64 \<Rightarrow>
   't \<times> 'f world \<Rightarrow> ('t \<times> 'f world) \<times> (RaftError + unit)" where
  "write_sequence_number_dual fs write_seq checkpoint_dir n s =
     try_then (on_kv (write_seq n) s) (\<lambda>s _.
     try_then (on_world (\<lambda>w.
         map_err_st (\<lambda>e. Snapshot (''create checkpoint dir failed: '' @ e))
           (on_files (fs_create_dir_all fs checkpoint_dir) w)) s) (\<lambda>s _.
     on_world (\<lambda>w.
       case now_secs w of (w, timestamp) \<Rightarrow>
         map_err_st (\<lambda>e. Snapshot (''write checkpoint manifest failed: '' @ e))
           (on_files (fs_write fs (path_join checkpoint_dir CHECKPOINT_METADATA_FILE)
              (to_be_bytes_u32 1 @ to_be_bytes_u64 timestamp @ to_be_bytes_u64 n)) w)) s))"

definition resolve_sequence_number ::
  "'f filesystem \<Rightarrow> ('t \<Rightarrow> RaftError + u64) \<Rightarrow> u64 option \<Rightarrow> path \<Rightarrow> 't \<times> 'f world \<Rightarrow> RaftError + u64" where
  "resolve_sequence_number fs read_seq from_checkpoint checkpoint_dir s =
     (case from_checkpoint of
        Some seq \<Rightarrow> Inr seq
      | None \<Rightarrow> (case read_seq (fst s) of
          Inr seq \<Rightarrow> Inr seq
        | Inl _ \<Rightarrow> and_then (parse_sequence_from_checkpoint_manifest fs checkpoint_dir (files (snd s)))
            (\<lambda>found. case found of
               Some seq \<Rightarrow> Inr seq
             | None \<Rightarrow> Inl (Snapshot ''sequence number unavailable from all sources''))))"

lemma write_dual_Inr:
  assumes "write_sequence_number_dual fs write_seq dir n s = (s', Inr u)"
  obtains v f1 v1 timestamp where "write_seq n (fst s) = (fst s', Inr v)"
    and "fs_create_dir_all fs dir (files (snd s)) = (f1, Inr v1)"
    and "fs_write fs (path_join dir CHECKPOINT_METADATA_FILE)
       (to_be_bytes_u32 1 @ to_be_bytes_u64 timestamp @ to_be_bytes_u64 n) f1 = (files (snd s'), Inr u)"
    and "clock (snd s') = clock (snd s)" and "ticks (snd s') = Suc (ticks (snd s))"
  using assms
  by (cases s) (auto simp: write_sequence_number_dual_def try_then_Inr on_world_iff on_kv_iff on_files_eq now_secs_def
      system_time_def split: prod.splits option.splits)

section \<open>The reader and writer traits\<close>

text \<open>What was written is never read back as another number; a failed write changes nothing read.\<close>

locale sequence_store =
  fixes read_seq :: "'t \<Rightarrow> RaftError + u64"
    and write_seq :: "u64 \<Rightarrow> 't \<Rightarrow> 't \<times> (RaftError + unit)"
    and ok :: bool
  assumes write_read: "ok \<Longrightarrow> write_seq n t = (t', Inr u) \<Longrightarrow> read_seq t' = Inr k \<Longrightarrow> k = n"
begin

lemma dual_manifest:
  assumes "files_ok fs" and "write_sequence_number_dual fs write_seq dir n s = (s', Inr u)"
  shows "parse_sequence_from_checkpoint_manifest fs dir (files (snd s')) = Inr (Some n)"
proof -
  obtain f1 timestamp where
    wr: "fs_write fs (path_join dir CHECKPOINT_METADATA_FILE)
           (to_be_bytes_u32 1 @ to_be_bytes_u64 timestamp @ to_be_bytes_u64 n) f1 = (files (snd s'), Inr u)"
    using assms(2) by (rule write_dual_Inr)
  have "fs_read fs (files (snd s')) (path_join dir CHECKPOINT_METADATA_FILE) =
      Inr (to_be_bytes_u32 1 @ to_be_bytes_u64 timestamp @ to_be_bytes_u64 n)"
    using files_ok_write(1) [OF assms(1) wr] .
  moreover have "path_exists fs (files (snd s')) (path_join dir CHECKPOINT_METADATA_FILE)"
    using files_ok_write(2) [OF assms(1) wr] .
  ultimately show ?thesis
    by (simp add: parse_sequence_from_checkpoint_manifest_def Let_def)
qed

lemma dual_resolve:
  assumes "ok" and "files_ok fs" and run: "write_sequence_number_dual fs write_seq dir n s = (s', Inr u)"
  shows "resolve_sequence_number fs read_seq None dir s' = Inr n"
proof -
  obtain v where "write_seq n (fst s) = (fst s', Inr v)"
    using run by (rule write_dual_Inr)
  then have "read_seq (fst s') = Inr k \<Longrightarrow> k = n" for k
    using write_read [OF assms(1)] by blast
  then show ?thesis
    using dual_manifest [OF assms(2) run]
    by (cases "read_seq (fst s')") (auto simp: resolve_sequence_number_def)
qed

end

interpretation persisted_key: sequence_store "read_sequence_number kv" "write_sequence_number kv"
  "surrealkv_ok kv view pend" for kv view pend
proof unfold_locales
  fix n t t' u k
  assume ok: "surrealkv_ok kv view pend" and wr: "write_sequence_number kv n t = (t', Inr u)"
    and rd: "read_sequence_number kv t' = Inr k"
  from wr ok have "view t' CONSISTENCY_SEQ_KEY = Some (to_be_bytes_u64 n)"
    by (auto simp: write_sequence_number_def surrealkv_laws split: sum.splits)
  with rd surrealkv_view [OF ok] show "k = n"
    by (fastforce simp: read_sequence_number_def decode_sequence_def and_then_Inr split: sum.splits)
qed

section \<open>Properties\<close>

text \<open>
  Dual persistence of the sequence number. After a successful
  \<open>write_sequence_number_dual\<close>, resolving the number without a value from the checkpoint API
  returns exactly the number written, whether the key of the tree can still be read or only
  the manifest is left.
\<close>

lemma sequence_number_dual_roundtrip:
  assumes "surrealkv_ok kv view pend" and "files_ok fs"
    and "write_sequence_number_dual fs (write_sequence_number kv) dir n s = (s', Inr u)"
  shows "resolve_sequence_number fs (read_sequence_number kv) None dir s' = Inr n \<and>
         resolve_sequence_number fs (\<lambda>_. Inl e) None dir s' = Inr n \<and>
         parse_sequence_from_checkpoint_manifest fs dir (files (snd s')) = Inr (Some n)"
proof -
  have "parse_sequence_from_checkpoint_manifest fs dir (files (snd s')) = Inr (Some n)"
    using assms(2,3) by (rule persisted_key.dual_manifest)
  then show ?thesis
    using persisted_key.dual_resolve [OF assms] by (simp add: resolve_sequence_number_def)
qed

lemma sample_dual:
  "write_sequence_number_dual mem_fs (write_sequence_number mem_kv) ''cp'' 258 (\<lambda>_. None, mem_world [] (\<lambda>_. 9))
   = ((\<lambda>k. if k = CONSISTENCY_SEQ_KEY then Some (to_be_bytes_u64 258) else None,
      (mem_world [(''cp/CHECKPOINT_METADATA'',
          FileNode (to_be_bytes_u32 1 @ to_be_bytes_u64 9 @ to_be_bytes_u64 258)),
        (''cp'', DirNode)] (\<lambda>_. 9))\<lparr>ticks := 1\<rparr>), Inr ())"
  by (simp add: write_sequence_number_dual_def write_sequence_number_def mem_world_def on_files_def
      now_secs_def system_time_def path_join_def fun_eq_iff)

lemma sequence_number_dual_roundtrip_witness:
  "resolve_sequence_number mem_fs (read_sequence_number mem_kv) None ''cp''
     (fst (write_sequence_number_dual mem_fs (write_sequence_number mem_kv) ''cp'' 258
        (\<lambda>_. None, mem_world [] (\<lambda>_. 9)))) = Inr 258"
  using sequence_number_dual_roundtrip [OF mem_kv_ok mem_fs_ok sample_dual] by (simp add: sample_dual)

text \<open>
  A text value of eight digits under the consistency key is not read as the number it
  spells. The reader supports a legacy decimal text format, but it takes every value of eight
  bytes as a big-endian integer first.
\<close>

lemma eight_digit_text_misread:
  "decode_sequence (as_bytes ''12345678'') \<noteq> Inr 12345678 \<and>
   decode_sequence (as_bytes ''1234567'') = Inr 1234567"
proof -
  have "of_bytes (as_bytes ''1234567'') = ''1234567''" by (rule of_bytes_as_bytes)
  then have "decode_sequence (as_bytes ''1234567'') = Inr 1234567"
    by (simp add: decode_sequence_def as_bytes_def parse_u64_def digit_of_def)
  moreover have "decode_sequence (as_bytes ''12345678'') = Inr 3544952156018063160"
    by (simp add: decode_sequence_def as_bytes_def from_be_bytes_u64_def be_decode_def)
  ultimately show ?thesis by simp
qed

end
