(* ===== verification/Checkpoint.thy ===== *)
theory Checkpoint
  imports Consistency
begin

text \<open>
  \<open>src/snapshot/checkpoint.rs\<close>: creating a checkpoint of a tree in a directory named after
  the clock, with the sequence number stored twice, and measuring it. \<open>create\<close> reads the
  clock three times: for the directory it creates, for the manifest, and for the metadata it
  returns.
\<close>

section \<open>Operations\<close>

definition create ::
  "('t, 'x, 'f) surrealkv \<Rightarrow> 'f filesystem \<Rightarrow> path \<Rightarrow> u64 \<Rightarrow> u64 \<Rightarrow>
   't \<times> 'f world \<Rightarrow> ('t \<times> 'f world) \<times> (RaftError + CheckpointMetadata)" where
  "create kv fs checkpoint_base_dir applied_index trm s =
     try_then (on_world (\<lambda>w. map_err_st from_io_error
         (on_files (fs_create_dir_all fs checkpoint_base_dir) w)) s) (\<lambda>s _.
     case on_world (CheckpointMetadata_new applied_index trm 0 checkpoint_base_dir) s of (s, meta) \<Rightarrow>
     let checkpoint_path = path_join checkpoint_base_dir (dir_name meta) in
     try_then (on_world (\<lambda>w. map_err_st from_io_error
         (on_files (fs_create_dir_all fs checkpoint_path) w)) s) (\<lambda>s _.
     try_then (on_world (\<lambda>w. map_err_st (\<lambda>e. Snapshot (''Failed to create checkpoint: '' @ e))
         (on_files (\<lambda>f. create_checkpoint kv (fst s) f checkpoint_path) w)) s) (\<lambda>s db_sequence_number.
     case resolve_sequence_number fs (read_sequence_number kv) (Some db_sequence_number)
         checkpoint_path s of
       Inl e \<Rightarrow> (s, Inl e)
     | Inr seq \<Rightarrow>
         try_then (write_sequence_number_dual fs (write_sequence_number kv) checkpoint_path seq s) (\<lambda>s _.
         case on_world (CheckpointMetadata_new applied_index trm seq checkpoint_base_dir) s of (s, meta) \<Rightarrow>
           (s, Inr (with_compressed_size 0 meta))))))"

definition verify_checkpoint_exists :: "'f filesystem \<Rightarrow> CheckpointMetadata \<Rightarrow> 'f \<Rightarrow> RaftError + bool" where
  "verify_checkpoint_exists fs meta f =
     (case fs_metadata fs f (path_join (cm_checkpoint_dir meta) (dir_name meta)) of
        Inr m \<Rightarrow> Inr (is_dir m)
      | Inl _ \<Rightarrow> Inr False)"

fun sum_file_sizes :: "u64 \<Rightarrow> (string + dir_entry) list \<Rightarrow> RaftError + u64" where
  "sum_file_sizes acc [] = Inr acc"
| "sum_file_sizes acc (Inl e # es) = Inl (from_io_error e)"
| "sum_file_sizes acc (Inr entry # es) =
     (case entry_meta entry of
        Inl e \<Rightarrow> Inl (from_io_error e)
      | Inr m \<Rightarrow> sum_file_sizes (if is_file m then acc + file_len m else acc) es)"

definition get_checkpoint_size :: "'f filesystem \<Rightarrow> CheckpointMetadata \<Rightarrow> 'f \<Rightarrow> RaftError + u64" where
  "get_checkpoint_size fs meta f =
     and_then (map_err from_io_error
         (fs_read_dir fs f (path_join (cm_checkpoint_dir meta) (dir_name meta))))
       (sum_file_sizes 0)"

section \<open>What a created checkpoint looks like\<close>

lemma CheckpointMetadata_new_eq:
  "CheckpointMetadata_new ai tm sq dir w =
     (w\<lparr>ticks := Suc (ticks w)\<rparr>,
      \<lparr>cm_applied_index = ai, cm_term = tm, cm_sequence_number = sq,
       cm_timestamp = (case clock w (ticks w) of None \<Rightarrow> 0 | Some t \<Rightarrow> t), cm_crc32 = 0,
       cm_checkpoint_dir = dir, cm_compressed_size = 0\<rparr>)"
  by (simp add: CheckpointMetadata_new_def now_secs_def system_time_def)

lemma create_Inr:
  fixes kv :: "('t, 'x, 'f) surrealkv"
  assumes "create kv fs base ai tm s = (s', Inr meta)"
  obtains p seq u v and sa sb :: "'t \<times> 'f world" where
    "p = path_join base (''checkpoint_'' @
       show_u64 (case clock (snd s) (ticks (snd s)) of None \<Rightarrow> 0 | Some t \<Rightarrow> t))"
    "\<exists>f. fs_create_dir_all fs p f = (files (snd sa), Inr u)"
    "create_checkpoint kv (fst sa) (files (snd sa)) p = (files (snd sb), Inr seq)"
    "\<exists>s3. write_sequence_number_dual fs (write_sequence_number kv) p seq sb = (s3, Inr v) \<and>
       fst s' = fst s3 \<and> files (snd s') = files (snd s3)"
    "meta = \<lparr>cm_applied_index = ai, cm_term = tm, cm_sequence_number = seq,
       cm_timestamp = (case clock (snd s) (ticks (snd s) + 2) of None \<Rightarrow> 0 | Some t \<Rightarrow> t),
       cm_crc32 = 0, cm_checkpoint_dir = base, cm_compressed_size = 0\<rparr>"
proof -
  from assms obtain f0 f1 f2 seq s3 u v t w where s: "s = (t, w)"
    and 1: "fs_create_dir_all fs base (files w) = (f0, Inr u)"
    and 2: "fs_create_dir_all fs (path_join base (''checkpoint_'' @
       show_u64 (case clock w (ticks w) of None \<Rightarrow> 0 | Some t \<Rightarrow> t))) f0 = (f1, Inr u)"
    and 3: "create_checkpoint kv t f1 (path_join base (''checkpoint_'' @
       show_u64 (case clock w (ticks w) of None \<Rightarrow> 0 | Some t \<Rightarrow> t))) = (f2, Inr seq)"
    and 4: "write_sequence_number_dual fs (write_sequence_number kv) (path_join base (''checkpoint_'' @
       show_u64 (case clock w (ticks w) of None \<Rightarrow> 0 | Some t \<Rightarrow> t))) seq
       (t, w\<lparr>ticks := Suc (ticks w), files := f2\<rparr>) = (s3, Inr v)"
    and 5: "on_world (CheckpointMetadata_new ai tm seq base) s3 = (s', meta)"
    by (cases s) (auto simp: create_def try_then_Inr on_files_eq CheckpointMetadata_new_eq Let_def dir_name_def
        resolve_sequence_number_def with_compressed_size_def split: prod.splits)
  have w3: "clock (snd s3) = clock w" "ticks (snd s3) = Suc (Suc (ticks w))"
    using 4 by (auto elim: write_dual_Inr)
  show ?thesis
  proof (rule that [OF refl, where sa = "(t, w\<lparr>files := f1\<rparr>)" and u = u and
        sb = "(t, w\<lparr>ticks := Suc (ticks w), files := f2\<rparr>)" and seq = seq and v = v])
    show "meta = \<lparr>cm_applied_index = ai, cm_term = tm, cm_sequence_number = seq,
       cm_timestamp = (case clock (snd s) (ticks (snd s) + 2) of None \<Rightarrow> 0 | Some t \<Rightarrow> t),
       cm_crc32 = 0, cm_checkpoint_dir = base, cm_compressed_size = 0\<rparr>"
      using 5 w3 s by (auto simp: on_world_iff CheckpointMetadata_new_eq)
    show "\<exists>s3'. write_sequence_number_dual fs (write_sequence_number kv) (path_join base (''checkpoint_'' @
       show_u64 (case clock (snd s) (ticks (snd s)) of None \<Rightarrow> 0 | Some t \<Rightarrow> t))) seq
       (t, w\<lparr>ticks := Suc (ticks w), files := f2\<rparr>) = (s3', Inr v) \<and>
       fst s' = fst s3' \<and> files (snd s') = files (snd s3')"
      using 4 5 s by (auto simp: on_world_iff CheckpointMetadata_new_eq)
  qed (use 2 3 s in auto)
qed

section \<open>Properties\<close>

text \<open>SurrealKV writes a checkpoint into the target directory and removes nothing.\<close>

definition checkpoint_keeps_paths :: "('t, 'x, 'f) surrealkv \<Rightarrow> 'f filesystem \<Rightarrow> bool" where
  "checkpoint_keeps_paths kv fs \<longleftrightarrow>
     (\<forall>t f p f' n q. create_checkpoint kv t f p = (f', Inr n) \<longrightarrow> path_exists fs f q \<longrightarrow> path_exists fs f' q)"

lemma create_path_exists:
  assumes "files_ok fs" "checkpoint_keeps_paths kv fs" "create kv fs base ai tm s = (s', Inr meta)"
  shows "path_exists fs (files (snd s')) (path_join base (''checkpoint_'' @
       show_u64 (case clock (snd s) (ticks (snd s)) of None \<Rightarrow> 0 | Some t \<Rightarrow> t)))"
  using assms(3)
proof (rule create_Inr)
  fix p seq u v sa sb
  assume p: "p = path_join base (''checkpoint_'' @
       show_u64 (case clock (snd s) (ticks (snd s)) of None \<Rightarrow> 0 | Some t \<Rightarrow> t))"
    and mk: "\<exists>f. fs_create_dir_all fs p f = (files (snd sa), Inr u)"
    and ck: "create_checkpoint kv (fst sa) (files (snd sa)) p = (files (snd sb), Inr seq)"
    and wr: "\<exists>s3. write_sequence_number_dual fs (write_sequence_number kv) p seq sb = (s3, Inr v) \<and>
       fst s' = fst s3 \<and> files (snd s') = files (snd s3)"
  obtain f where "fs_create_dir_all fs p f = (files (snd sa), Inr u)" using mk ..
  with assms(1) have "path_exists fs (files (snd sa)) p" by (rule files_ok_create_dir(1))
  with assms(2) ck have "path_exists fs (files (snd sb)) p"
    unfolding checkpoint_keeps_paths_def by metis
  moreover obtain s3 where s3: "write_sequence_number_dual fs (write_sequence_number kv) p seq sb = (s3, Inr v)"
    and eq: "files (snd s') = files (snd s3)"
    using wr by blast
  ultimately have "path_exists fs (files (snd s3)) p"
    by (auto elim!: write_dual_Inr dest: files_ok_create_dir(3) [OF assms(1)]
        files_ok_write(4) [OF assms(1)])
  with eq p show "path_exists fs (files (snd s')) (path_join base (''checkpoint_'' @
       show_u64 (case clock (snd s) (ticks (snd s)) of None \<Rightarrow> 0 | Some t \<Rightarrow> t)))"
    by simp
qed

text \<open>
  Claim C29: what \<open>create\<close> returns. On success the metadata carries the given index and term and
  the sequence number SurrealKV reported; that number can be resolved again from the new
  directory; and when the clock shows the same second at the first and the third reading, the
  directory named by the returned metadata exists.
\<close>

theorem create_correct:
  assumes "surrealkv_ok kv view pend" "files_ok fs" "checkpoint_keeps_paths kv fs"
    and run: "create kv fs base ai tm s = (s', Inr meta)"
    and stable: "clock (snd s) (ticks (snd s) + 2) = clock (snd s) (ticks (snd s))"
  shows "cm_applied_index meta = ai \<and> cm_term meta = tm \<and> cm_checkpoint_dir meta = base \<and>
         path_exists fs (files (snd s')) (path_join base (dir_name meta)) \<and>
         resolve_sequence_number fs (read_sequence_number kv) None (path_join base (dir_name meta)) s'
           = Inr (cm_sequence_number meta)"
proof -
  obtain p seq v sb where
    p: "p = path_join base (''checkpoint_'' @
       show_u64 (case clock (snd s) (ticks (snd s)) of None \<Rightarrow> 0 | Some t \<Rightarrow> t))"
    and wr: "\<exists>s3. write_sequence_number_dual fs (write_sequence_number kv) p seq sb = (s3, Inr v) \<and>
       fst s' = fst s3 \<and> files (snd s') = files (snd s3)"
    and meta: "meta = \<lparr>cm_applied_index = ai, cm_term = tm, cm_sequence_number = seq,
       cm_timestamp = (case clock (snd s) (ticks (snd s) + 2) of None \<Rightarrow> 0 | Some t \<Rightarrow> t),
       cm_crc32 = 0, cm_checkpoint_dir = base, cm_compressed_size = 0\<rparr>"
    using run by (rule create_Inr)
  have st: "clock (snd s) (Suc (Suc (ticks (snd s)))) = clock (snd s) (ticks (snd s))"
    using stable by simp
  have dir: "p = path_join base (dir_name meta)" by (simp add: p meta dir_name_def st)
  obtain s3 where "resolve_sequence_number fs (read_sequence_number kv) None p s3 = Inr seq"
    and "fst s' = fst s3" "files (snd s') = files (snd s3)"
    using wr persisted_key.dual_resolve [OF assms(1,2)] by blast
  then have "resolve_sequence_number fs (read_sequence_number kv) None p s' = Inr seq"
    by (simp add: resolve_sequence_number_def split: sum.splits)
  then show ?thesis
    using create_path_exists [OF assms(2,3) run] by (simp add: dir meta dir_name_def st)
qed

lemma sample_create:
  assumes "base \<noteq> []" "last base \<noteq> CHR ''/''"
  shows "create mem_kv mem_fs base ai tr (t, mem_world [] tm) =
   (let p = path_join base (''checkpoint_'' @ show_u64 (tm 0)) in
    ((\<lambda>k. if k = CONSISTENCY_SEQ_KEY then Some (to_be_bytes_u64 7) else t k,
      (mem_world [(path_join p CHECKPOINT_METADATA_FILE,
          FileNode (to_be_bytes_u32 1 @ to_be_bytes_u64 (tm 1) @ to_be_bytes_u64 7)),
        (p, DirNode), (base, DirNode)] tm)\<lparr>ticks := 3\<rparr>),
     Inr \<lparr>cm_applied_index = ai, cm_term = tr, cm_sequence_number = 7, cm_timestamp = tm 2,
        cm_crc32 = 0, cm_checkpoint_dir = base, cm_compressed_size = 0\<rparr>))"
  using assms
  by (simp add: create_def mem_world_def on_files_def CheckpointMetadata_new_eq Let_def
      dir_name_def resolve_sequence_number_def write_sequence_number_dual_def write_sequence_number_def
      now_secs_def system_time_def with_compressed_size_def path_join_def fun_eq_iff numeral_2_eq_2)

lemma mem_keeps_paths: "checkpoint_keeps_paths mem_kv mem_fs"
  by (simp add: checkpoint_keeps_paths_def)

theorem create_correct_witness:
  "let r = create mem_kv mem_fs ''cp'' 7 1 (\<lambda>_. None, mem_world [] (\<lambda>_. 100)) in
   \<exists>s' meta. r = (s', Inr meta) \<and> path_exists mem_fs (files (snd s')) (path_join ''cp'' (dir_name meta))"
proof -
  obtain s' meta where run: "create mem_kv mem_fs ''cp'' 7 1 (\<lambda>_. None, mem_world [] (\<lambda>_. 100)) = (s', Inr meta)"
    by (simp add: sample_create Let_def)
  then show ?thesis
    using create_correct [OF mem_kv_ok mem_fs_ok mem_keeps_paths run]
    by (cases s') (simp add: mem_world_def)
qed

text \<open>
  When the second changes while a checkpoint is created, the metadata returned names a
  directory that was not created. \<open>create\<close> builds the metadata twice, each time with a fresh
  timestamp; the directory is named by the first and the result by the second.
\<close>

lemma create_may_name_missing_directory:
  "tm 0 \<noteq> tm 2 \<Longrightarrow>
   \<exists>s' meta. create mem_kv mem_fs ''cp'' 7 1 (t, mem_world [] tm) = (s', Inr meta) \<and>
     verify_checkpoint_exists mem_fs meta (files (snd s')) = Inr False \<and>
     isl (get_checkpoint_size mem_fs meta (files (snd s')))"
proof -
  assume h: "tm 0 \<noteq> tm 2"
  show ?thesis
    by (simp add: sample_create Let_def)
      (use h in \<open>simp add: verify_checkpoint_exists_def get_checkpoint_size_def dir_name_def
        path_join_def mem_world_def word_unat_eq_iff mem_fs_def [THEN arg_cong [where f = fs_read_dir]]\<close>)
qed

lemma create_may_name_missing_directory_witness:
  "\<exists>s' meta. create mem_kv mem_fs ''cp'' 7 1 (\<lambda>_. None, mem_world [] (\<lambda>n. of_nat n)) = (s', Inr meta) \<and>
     verify_checkpoint_exists mem_fs meta (files (snd s')) = Inr False \<and>
     isl (get_checkpoint_size mem_fs meta (files (snd s')))"
  by (rule create_may_name_missing_directory) simp

end
