(* ===== verification/Delta.thy ===== *)
theory Delta
  imports Types
begin

text \<open>
  \<open>src/snapshot/delta.rs\<close>: the payload of a delta snapshot. A list of log entries is
  serialised with postcard and compressed with zstd, and the compressed bytes are kept in a
  file named after the clock and a suffix. Compression is a parameter; its errors carry the
  stage that failed, since the source words each stage's error differently.
\<close>

section \<open>zstd\<close>

datatype zstd_encode_error = EncoderNew string | EncoderWrite string | EncoderFinish string
datatype zstd_decode_error = DecoderNew string | DecoderRead string

record zstd =
  zstd_encode :: "int \<Rightarrow> bytes \<Rightarrow> zstd_encode_error + bytes"
  zstd_decode :: "bytes \<Rightarrow> zstd_decode_error + bytes"

definition zstd_ok :: "zstd \<Rightarrow> bool" where
  "zstd_ok z \<longleftrightarrow> (\<forall>l b c. zstd_encode z l b = Inr c \<longrightarrow> zstd_decode z c = Inr b)"

text \<open>A format without compression: one marker byte, then the data.\<close>

definition stored_zstd :: zstd where
  "stored_zstd = \<lparr>
     zstd_encode = (\<lambda>_ b. Inr (40 # b)),
     zstd_decode = (\<lambda>c. case c of [] \<Rightarrow> Inl (DecoderRead ''incomplete frame'')
       | m # b \<Rightarrow> if m = 40 then Inr b else Inl (DecoderRead ''unknown frame''))\<rparr>"

lemma stored_zstd_ok: "zstd_ok stored_zstd"
  by (simp add: zstd_ok_def stored_zstd_def)

section \<open>Operations\<close>

primrec encode_stage_error :: "zstd_encode_error \<Rightarrow> RaftError" where
  "encode_stage_error (EncoderNew e) = Snapshot (''create delta encoder failed: '' @ e)"
| "encode_stage_error (EncoderWrite e) = Snapshot (''write delta entries failed: '' @ e)"
| "encode_stage_error (EncoderFinish e) = Snapshot (''finish delta compression failed: '' @ e)"

primrec decode_stage_error :: "zstd_decode_error \<Rightarrow> RaftError" where
  "decode_stage_error (DecoderNew e) = Snapshot e"
| "decode_stage_error (DecoderRead e) = Snapshot (''read delta payload failed: '' @ e)"

definition encode_entries ::
  "zstd \<Rightarrow> DeltaEntry list codec \<Rightarrow> DeltaEntry list \<Rightarrow> RaftError + bytes" where
  "encode_entries z dc entries =
     and_then (map_err from_postcard_error (to_stdvec dc entries)) (\<lambda>encoded.
     map_err encode_stage_error (zstd_encode z 3 encoded))"

definition decode_entries ::
  "zstd \<Rightarrow> DeltaEntry list codec \<Rightarrow> bytes \<Rightarrow> RaftError + DeltaEntry list" where
  "decode_entries z dc data =
     and_then (map_err decode_stage_error (zstd_decode z data)) (\<lambda>decompressed.
     map_err (\<lambda>e. Snapshot (''decode delta entries failed: '' @ e)) (from_bytes dc decompressed))"

definition persist_to_temp_file ::
  "'f filesystem \<Rightarrow> path \<Rightarrow> bytes \<Rightarrow> string \<Rightarrow> 'f world \<Rightarrow> 'f world \<times> (RaftError + path)" where
  "persist_to_temp_file fs base_dir data suffix w =
     try_then (map_err_st from_io_error (on_files (fs_create_dir_all fs base_dir) w)) (\<lambda>w _.
     case now_secs w of (w, timestamp) \<Rightarrow>
     let p = path_join base_dir (''delta-'' @ show_u64 timestamp @ ''-'' @ suffix @ ''.bin.zst'') in
     try_then (map_err_st from_io_error (on_files (fs_write fs p data) w)) (\<lambda>w _.
     (w, Inr p)))"

definition load_from_file :: "'f filesystem \<Rightarrow> path \<Rightarrow> 'f \<Rightarrow> RaftError + bytes" where
  "load_from_file fs p f = map_err from_io_error (fs_read fs f p)"

section \<open>Round trips\<close>

lemma decode_encode_entries:
  assumes "zstd_ok z" "codec_ok dc" "encode_entries z dc es = Inr data"
  shows "decode_entries z dc data = Inr es"
  using assms by (auto simp: encode_entries_def decode_entries_def and_then_Inr zstd_ok_def codec_ok_def)

lemma persist_Inr:
  assumes "persist_to_temp_file fs base data sfx w = (w', Inr p)"
  obtains f u where "p = path_join base (''delta-'' @
      show_u64 (case clock w (ticks w) of None \<Rightarrow> 0 | Some t \<Rightarrow> t) @ ''-'' @ sfx @ ''.bin.zst'')"
    "fs_write fs p data f = (files w', Inr u)"
    "clock w' = clock w" "ticks w' = Suc (ticks w)"
  using assms
  by (auto simp: persist_to_temp_file_def try_then_Inr on_files_eq now_secs_def system_time_def Let_def)

text \<open>
  A delta written to disk is the delta read back. Entries that were encoded and
  persisted can be loaded from the returned path and decode to the same entries in the same
  order.
\<close>

lemma delta_file_roundtrip:
  assumes "zstd_ok z" "codec_ok dc" "files_ok fs"
    and "encode_entries z dc es = Inr data"
    and "persist_to_temp_file fs base data sfx w = (w', Inr p)"
  shows "and_then (load_from_file fs p (files w')) (decode_entries z dc) = Inr es"
proof -
  obtain f u where wr: "fs_write fs p data f = (files w', Inr u)"
    using assms(5) by (rule persist_Inr)
  have "fs_read fs (files w') p = Inr data"
    using assms(3) wr by (rule files_ok_write(1))
  then show ?thesis
    using decode_encode_entries [OF assms(1,2,4)] by (simp add: load_from_file_def)
qed

definition sample_entries :: "DeltaEntry list" where
  "sample_entries = [DeltaEntry_new 1 10 [1, 2], DeltaEntry_new 1 11 [3]]"

lemma sample_encode:
  "encode_entries stored_zstd (table_codec [sample_entries]) sample_entries = Inr (40 # be_encode 2 0)"
  by (simp add: encode_entries_def stored_zstd_def table_codec_def del: be_encode.simps)

lemma delta_file_roundtrip_witness:
  "\<exists>w' p. persist_to_temp_file mem_fs ''d'' (40 # be_encode 2 0) ''11'' (mem_world [] (\<lambda>_. 5)) = (w', Inr p) \<and>
     and_then (load_from_file mem_fs p (files w'))
       (decode_entries stored_zstd (table_codec [sample_entries])) = Inr sample_entries"
proof -
  obtain w' p where "persist_to_temp_file mem_fs ''d'' (40 # be_encode 2 0) ''11'' (mem_world [] (\<lambda>_. 5)) = (w', Inr p)"
    by (simp add: persist_to_temp_file_def mem_world_def on_files_def now_secs_def system_time_def
        Let_def path_join_def)
  then show ?thesis
    using delta_file_roundtrip [OF stored_zstd_ok _ mem_fs_ok sample_encode] by (auto simp: table_codec_ok)
qed

text \<open>
  Two deltas persisted with the same suffix within one second share a file. The file
  name is the timestamp in seconds and the suffix, so the second write replaces the bytes the
  first returned path stood for.
\<close>

lemma same_second_deltas_collide:
  assumes "files_ok fs"
    and "persist_to_temp_file fs base data1 sfx w = (w1, Inr p1)"
    and "persist_to_temp_file fs base data2 sfx w1 = (w2, Inr p2)"
    and "clock w (Suc (ticks w)) = clock w (ticks w)"
  shows "p2 = p1 \<and> load_from_file fs p1 (files w2) = Inr data2"
proof -
  obtain f1 u1 where 1: "p1 = path_join base (''delta-'' @
      show_u64 (case clock w (ticks w) of None \<Rightarrow> 0 | Some t \<Rightarrow> t) @ ''-'' @ sfx @ ''.bin.zst'')"
    "clock w1 = clock w" "ticks w1 = Suc (ticks w)"
    using assms(2) by (rule persist_Inr)
  obtain f2 u2 where 2: "p2 = path_join base (''delta-'' @
      show_u64 (case clock w1 (ticks w1) of None \<Rightarrow> 0 | Some t \<Rightarrow> t) @ ''-'' @ sfx @ ''.bin.zst'')"
    "fs_write fs p2 data2 f2 = (files w2, Inr u2)"
    using assms(3) by (rule persist_Inr)
  have "p2 = p1" using 1 2(1) assms(4) by simp
  with 2(2) assms(1) show ?thesis
    by (simp add: load_from_file_def files_ok_write(1))
qed

end
