(* ===== verification/Archive.thy ===== *)
theory Archive
  imports Types
begin

text \<open>
  \<open>src/snapshot/compression.rs\<close> and \<open>src/snapshot/restore.rs\<close>: packing a checkpoint
  directory into a tar archive compressed with zstd, and unpacking one. tar, zstd, the CRC and
  the construction of the blocking task's runtime are parameters (record \<open>archiver\<close>);
  \<open>archiver_ok\<close> states what is used of them. A panic of the blocking task is not modelled.
\<close>

section \<open>Path functions of the standard library\<close>

text \<open>The parts of a string before and after the last occurrence of a character.\<close>

definition split_last :: "char \<Rightarrow> string \<Rightarrow> (string \<times> string) option" where
  "split_last c p =
     (if c \<in> set p
      then Some (rev (tl (dropWhile (\<lambda>x. x \<noteq> c) (rev p))), rev (takeWhile (\<lambda>x. x \<noteq> c) (rev p)))
      else None)"

text \<open>\<open>Path::parent\<close>, for paths without a trailing slash.\<close>

definition path_parent :: "path \<Rightarrow> path option" where
  "path_parent p =
     (if p = [] \<or> p = ''/'' then None
      else case split_last (CHR ''/'') p of
        None \<Rightarrow> Some []
      | Some (d, _) \<Rightarrow> Some (if d = [] then ''/'' else d))"

text \<open>\<open>Path::file_stem\<close> and \<open>Path::with_extension\<close>, for paths without a trailing slash.\<close>

definition file_stem :: "string \<Rightarrow> string" where
  "file_stem name = (case split_last (CHR ''.'') name of
     None \<Rightarrow> name
   | Some (stem, _) \<Rightarrow> if stem = [] then name else stem)"

definition with_extension :: "path \<Rightarrow> string \<Rightarrow> path" where
  "with_extension p ext =
     (case split_last (CHR ''/'') p of
        None \<Rightarrow> if p = [] \<or> p = ''..'' then p else file_stem p @ ''.'' @ ext
      | Some (d, name) \<Rightarrow> if name = [] \<or> name = ''..'' then p
          else d @ ''/'' @ file_stem name @ ''.'' @ ext)"

lemma split_last_append: "c \<notin> set n \<Longrightarrow> split_last c (d @ c # n) = Some (d, n)"
proof -
  assume "c \<notin> set n"
  then have "\<And>x. x \<in> set (rev n) \<Longrightarrow> x \<noteq> c" by auto
  then show ?thesis
    using dropWhile_append2 [of "rev n" "\<lambda>x. x \<noteq> c" "c # rev d"]
      takeWhile_append2 [of "rev n" "\<lambda>x. x \<noteq> c" "c # rev d"]
    by (simp add: split_last_def)
qed

lemma split_last_Some: "split_last c p = Some (d, n) \<Longrightarrow> p = d @ c # n \<and> c \<notin> set n"
proof -
  assume sp: "split_last c p = Some (d, n)"
  then have "c \<in> set p" by (auto simp: split_last_def split: if_splits)
  then obtain ys zs where "p = ys @ c # zs" "c \<notin> set zs" by (blast dest: split_list_last)
  with sp show ?thesis by (simp add: split_last_append)
qed

lemma file_stem_tar_tmp: "file_stem n @ ''.tar.tmp'' \<noteq> n"
proof (cases "split_last (CHR ''.'') n")
  case (Some q)
  then obtain s e where s: "split_last (CHR ''.'') n = Some (s, e)" by (cases q) auto
  then have "n = s @ ''.'' @ e" "CHR ''.'' \<notin> set e" by (auto dest: split_last_Some)
  then show ?thesis using s by (auto simp: file_stem_def)
qed (simp add: file_stem_def)

lemma with_extension_differs:
  "split_last (CHR ''/'') p = Some (d, n) \<Longrightarrow> n \<noteq> [] \<Longrightarrow> n \<noteq> ''..'' \<Longrightarrow> with_extension p ''tar.tmp'' \<noteq> p"
  using file_stem_tar_tmp [of n] by (auto simp: with_extension_def dest: split_last_Some)

section \<open>tar, zstd and CRC\<close>

record 'f archiver =
  runtime_build :: "string + unit"
  tar_append_dir_all :: "path \<Rightarrow> string \<Rightarrow> path \<Rightarrow> 'f \<Rightarrow> 'f \<times> (string + unit)"
  tar_finish :: "path \<Rightarrow> 'f \<Rightarrow> 'f \<times> (string + unit)"
  tar_unpack :: "path \<Rightarrow> path \<Rightarrow> 'f \<Rightarrow> 'f \<times> (string + unit)"
  zstd_encode_into :: "int \<Rightarrow> bytes \<Rightarrow> path \<Rightarrow> 'f \<Rightarrow> 'f \<times> (string + unit)"
  zstd_decode_into :: "bytes \<Rightarrow> path \<Rightarrow> 'f \<Rightarrow> 'f \<times> (string + unit)"
  crc32_iso_hdlc :: "bytes \<Rightarrow> u64"

text \<open>
  The documented behaviour: the zstd encoder leaves in its output file bytes from which the
  decoder writes the input again (\<open>unz\<close> is the decompression of a byte string); unpacking an
  archive recreates each file of the packed directory, below the name it was packed under;
  removing a file leaves the other files as they are. (The file-system interface has no
  symbolic links.) \<open>inside\<close> is a relative path that stays in its directory.
\<close>

fun no_parent :: "path \<Rightarrow> bool" where
  "no_parent (a # b # r) = ((a \<noteq> CHR ''.'' \<or> b \<noteq> CHR ''.'') \<and> no_parent (b # r))"
| "no_parent _ = True"

definition inside :: "path \<Rightarrow> bool" where
  "inside r \<longleftrightarrow> r \<noteq> [] \<and> hd r \<noteq> CHR ''/'' \<and> no_parent r"

definition archiver_ok :: "'f archiver \<Rightarrow> 'f filesystem \<Rightarrow> (bytes \<Rightarrow> bytes option) \<Rightarrow> bool" where
  "archiver_ok ar fs unz \<longleftrightarrow>
     (\<forall>l b p f f' u. zstd_encode_into ar l b p f = (f', Inr u) \<longrightarrow>
        (\<exists>c. fs_read fs f' p = Inr c \<and> unz c = Some b)) \<and>
     (\<forall>c p f f' u. zstd_decode_into ar c p f = (f', Inr u) \<longrightarrow>
        (\<exists>b. fs_read fs f' p = Inr b \<and> unz c = Some b)) \<and>
     (\<forall>t n src f f1 f2 u v b t' target g g' x r c.
        tar_append_dir_all ar t n src f = (f1, Inr u) \<longrightarrow> tar_finish ar t f1 = (f2, Inr v) \<longrightarrow>
        fs_read fs f2 t = Inr b \<longrightarrow> fs_read fs g t' = Inr b \<longrightarrow>
        tar_unpack ar t' target g = (g', Inr x) \<longrightarrow> inside r \<longrightarrow>
        fs_read fs f (path_join src r) = Inr c \<longrightarrow>
        fs_read fs g' (path_join (path_join target n) r) = Inr c) \<and>
     (\<forall>p q f f' s. fs_remove_file fs p f = (f', s) \<longrightarrow> q \<noteq> p \<longrightarrow> fs_read fs f' q = fs_read fs f q)"

section \<open>Compression\<close>

record SnapshotCompressor =
  zstd_level :: int

definition SnapshotCompressor_new :: SnapshotCompressor where
  "SnapshotCompressor_new = \<lparr>zstd_level = 10\<rparr>"

definition with_level :: "int \<Rightarrow> SnapshotCompressor \<Rightarrow> SnapshotCompressor" where
  "with_level level c = c\<lparr>zstd_level := level\<rparr>"

text \<open>The blocking task; \<open>File::create\<close> is a write of no bytes.\<close>

definition compress_task ::
  "'f archiver \<Rightarrow> 'f filesystem \<Rightarrow> int \<Rightarrow> path \<Rightarrow> path \<Rightarrow> 'f \<Rightarrow> 'f \<times> (string + u64)" where
  "compress_task ar fs level checkpoint_path output_path f =
     (case runtime_build ar of
        Inl e \<Rightarrow> (f, Inl (''failed to build runtime: '' @ e))
      | Inr _ \<Rightarrow>
     (let tar_tmp = with_extension output_path ''tar.tmp'' in
     try_then (fs_write fs tar_tmp [] f) (\<lambda>f _.
     try_then (tar_append_dir_all ar tar_tmp ''checkpoint'' checkpoint_path f) (\<lambda>f _.
     try_then (tar_finish ar tar_tmp f) (\<lambda>f _.
     try_then (f, fs_read fs f tar_tmp) (\<lambda>f tar_in.
     try_then (fs_write fs output_path [] f) (\<lambda>f _.
     try_then (zstd_encode_into ar level tar_in output_path f) (\<lambda>f _.
     let f = fst (fs_remove_file fs tar_tmp f) in
     try_then (f, fs_metadata fs f output_path) (\<lambda>f m. (f, Inr (file_len m)))))))))))"

definition compress ::
  "'f archiver \<Rightarrow> 'f filesystem \<Rightarrow> SnapshotCompressor \<Rightarrow> CheckpointMetadata \<Rightarrow> path \<Rightarrow> 'f \<Rightarrow>
   'f \<times> (RaftError + u64)" where
  "compress ar fs c meta output_path f =
     (let checkpoint_path = path_join (cm_checkpoint_dir meta) (dir_name meta) in
      if \<not> path_exists fs f checkpoint_path
      then (f, Inl (Snapshot (''checkpoint directory does not exist: '' @ checkpoint_path)))
      else
        try_then (case path_parent output_path of
             None \<Rightarrow> (f, Inr ())
           | Some parent \<Rightarrow> map_err_st from_io_error (fs_create_dir_all fs parent f)) (\<lambda>f _.
        map_err_st (\<lambda>e. Snapshot (''tar+zstd compression failed: '' @ e))
          (compress_task ar fs (zstd_level c) checkpoint_path output_path f)))"

section \<open>Restore\<close>

definition verify_crc32 :: "'f archiver \<Rightarrow> bytes \<Rightarrow> u32 \<Rightarrow> bool" where
  "verify_crc32 ar data expected_crc32 = (ucast (crc32_iso_hdlc ar data) = expected_crc32)"

definition restore_task ::
  "'f archiver \<Rightarrow> 'f filesystem \<Rightarrow> bytes \<Rightarrow> path \<Rightarrow> 'f \<Rightarrow> 'f \<times> (string + unit)" where
  "restore_task ar fs data target_dir f =
     (case runtime_build ar of
        Inl e \<Rightarrow> (f, Inl (''failed to build runtime: '' @ e))
      | Inr _ \<Rightarrow>
     (let tar_tmp = path_join target_dir ''snapshot.tar.tmp'' in
     try_then (fs_write fs tar_tmp [] f) (\<lambda>f _.
     try_then (zstd_decode_into ar data tar_tmp f) (\<lambda>f _.
     try_then (f, fs_read fs f tar_tmp) (\<lambda>f _.
     try_then (tar_unpack ar tar_tmp target_dir f) (\<lambda>f _.
     (fst (fs_remove_file fs tar_tmp f), Inr ())))))))"

definition restore ::
  "'f archiver \<Rightarrow> 'f filesystem \<Rightarrow> bytes \<Rightarrow> path \<Rightarrow> CheckpointMetadata \<Rightarrow> 'f \<Rightarrow>
   'f \<times> (RaftError + CheckpointMetadata)" where
  "restore ar fs data target_dir expected_meta f =
     (if cm_crc32 expected_meta \<noteq> 0 \<and> \<not> verify_crc32 ar data (cm_crc32 expected_meta)
      then (f, Inl (Snapshot ''CRC32 mismatch while restoring snapshot''))
      else
        try_then (map_err_st from_io_error (fs_create_dir_all fs target_dir f)) (\<lambda>f _.
        try_then (map_err_st (\<lambda>e. Snapshot (''tar+zstd restore failed: '' @ e))
            (restore_task ar fs data target_dir f)) (\<lambda>f _.
        (f, Inr (expected_meta\<lparr>cm_checkpoint_dir := target_dir\<rparr>)))))"

section \<open>What was packed is unpacked\<close>

lemma archiver_encode:
  assumes "archiver_ok ar fs unz" and "zstd_encode_into ar l b p f = (f', Inr u)"
  shows "\<exists>c. fs_read fs f' p = Inr c \<and> unz c = Some b"
  using assms(1) [unfolded archiver_ok_def, THEN conjunct1] assms(2) by blast

lemma archiver_decode:
  assumes "archiver_ok ar fs unz" and "zstd_decode_into ar c p f = (f', Inr u)"
  shows "\<exists>b. fs_read fs f' p = Inr b \<and> unz c = Some b"
  using assms(1) [unfolded archiver_ok_def, THEN conjunct2, THEN conjunct1] assms(2) by blast

lemma archiver_tar:
  assumes "archiver_ok ar fs unz"
    and "tar_append_dir_all ar t n src f = (f1, Inr u)" "tar_finish ar t f1 = (f2, Inr v)"
    and "fs_read fs f2 t = Inr b" "fs_read fs g t' = Inr b" "tar_unpack ar t' target g = (g', Inr x)"
    and "inside r" "fs_read fs f (path_join src r) = Inr c"
  shows "fs_read fs g' (path_join (path_join target n) r) = Inr c"
  using assms unfolding archiver_ok_def by blast

lemma archiver_remove:
  "archiver_ok ar fs unz \<Longrightarrow> q \<noteq> p \<Longrightarrow> fs_read fs (fst (fs_remove_file fs p f)) q = fs_read fs f q"
  unfolding archiver_ok_def by (metis prod.collapse)

text \<open>A finished archive of a directory: its bytes are what \<open>tar_finish\<close> left in the file.\<close>

definition tar_of :: "'f archiver \<Rightarrow> 'f filesystem \<Rightarrow> path \<Rightarrow> 'f \<Rightarrow> bytes \<Rightarrow> bool" where
  "tar_of ar fs src f b \<longleftrightarrow> (\<exists>t f1 f2 u v. tar_append_dir_all ar t ''checkpoint'' src f = (f1, Inr u) \<and>
     tar_finish ar t f1 = (f2, Inr v) \<and> fs_read fs f2 t = Inr b)"

lemma compress_task_Inr:
  assumes ok: "archiver_ok ar fs unz" and fsok: "files_ok fs"
    and run: "compress_task ar fs l src out f = (f', Inr n)"
    and out: "with_extension out ''tar.tmp'' \<noteq> out"
  obtains f0 b c where "tar_of ar fs src f0 b" "fs_read fs f' out = Inr c" "unz c = Some b"
    "\<And>q. q \<noteq> with_extension out ''tar.tmp'' \<Longrightarrow> fs_read fs f0 q = fs_read fs f q"
proof -
  let ?t = "with_extension out ''tar.tmp''"
  from run obtain f0 f1 f2 f3 f4 u v w x y b m where
    cr: "fs_write fs ?t [] f = (f0, Inr u)"
    and ap: "tar_append_dir_all ar ?t ''checkpoint'' src f0 = (f1, Inr v)"
    and fin: "tar_finish ar ?t f1 = (f2, Inr w)" and rd: "fs_read fs f2 ?t = Inr b"
    and en: "zstd_encode_into ar l b out f3 = (f4, Inr y)"
    and f': "f' = fst (fs_remove_file fs ?t f4)"
    by (auto simp: compress_task_def Let_def try_then_Inr split: sum.splits)
  obtain c where "fs_read fs f4 out = Inr c" "unz c = Some b"
    using archiver_encode [OF ok en] by blast
  moreover from this have "fs_read fs f' out = Inr c"
    using archiver_remove [OF ok, of out ?t f4] out f' by simp
  ultimately show ?thesis
    using that [of f0 b c] ap fin rd files_ok_write(3) [OF fsok cr] unfolding tar_of_def by blast
qed

lemma compress_Inr:
  assumes fsok: "files_ok fs" and run: "compress ar fs cmp meta out f = (f', Inr n)"
  shows "\<exists>fa. (\<forall>q. fs_read fs fa q = fs_read fs f q) \<and>
     compress_task ar fs (zstd_level cmp) (path_join (cm_checkpoint_dir meta) (dir_name meta)) out fa = (f', Inr n)"
proof (cases "path_parent out")
  case None
  then show ?thesis using run by (auto simp: compress_def Let_def split: if_splits)
next
  case (Some d)
  with run obtain fa u where "fs_create_dir_all fs d f = (fa, Inr u)"
    "compress_task ar fs (zstd_level cmp) (path_join (cm_checkpoint_dir meta) (dir_name meta)) out fa = (f', Inr n)"
    by (auto simp: compress_def Let_def try_then_Inr split: if_splits)
  then show ?thesis using files_ok_create_dir(2) [OF fsok] by blast
qed

lemma restore_task_Inr:
  assumes ok: "archiver_ok ar fs unz" and run: "restore_task ar fs data target f = (f', Inr u)"
  obtains b g g' v where "unz data = Some b" "fs_read fs g (path_join target ''snapshot.tar.tmp'') = Inr b"
    "tar_unpack ar (path_join target ''snapshot.tar.tmp'') target g = (g', Inr v)"
    "\<And>q. q \<noteq> path_join target ''snapshot.tar.tmp'' \<Longrightarrow> fs_read fs f' q = fs_read fs g' q"
proof -
  let ?t = "path_join target ''snapshot.tar.tmp''"
  from run obtain f0 g g' v w where de: "zstd_decode_into ar data ?t f0 = (g, Inr v)"
    and un: "tar_unpack ar ?t target g = (g', Inr w)" and f': "f' = fst (fs_remove_file fs ?t g')"
    by (auto simp: restore_task_def Let_def try_then_Inr split: sum.splits)
  show ?thesis
    using archiver_decode [OF ok de] un f' archiver_remove [OF ok] that by blast
qed

text \<open>
  A compressed checkpoint restores file for file. When \<open>compress\<close> packs the
  directory of a checkpoint and \<open>restore\<close>, possibly on another machine, unpacks the bytes it
  wrote, every file of the checkpoint directory is found below \<open>checkpoint\<close> in the target
  with the same bytes, and the returned metadata is the expected one at the new place. The
  temporary tar files must not themselves be the files asked for.
\<close>

lemma compress_restore_roundtrip:
  assumes "archiver_ok ar fs unz" "files_ok fs"
    and packed: "compress ar fs cmp meta out f = (f', Inr n)"
    and "fs_read fs f' out = Inr data"
    and restored: "restore ar fs data target expected g = (g', Inr meta')"
    and "with_extension out ''tar.tmp'' \<noteq> out" and "inside r"
    and src: "fs_read fs f (path_join (path_join (cm_checkpoint_dir meta) (dir_name meta)) r) = Inr c"
    and "path_join (path_join (cm_checkpoint_dir meta) (dir_name meta)) r \<noteq> with_extension out ''tar.tmp''"
    and "path_join (path_join target ''checkpoint'') r \<noteq> path_join target ''snapshot.tar.tmp''"
  shows "fs_read fs g' (path_join (path_join target ''checkpoint'') r) = Inr c \<and>
         meta' = expected\<lparr>cm_checkpoint_dir := target\<rparr>"
proof -
  let ?src = "path_join (cm_checkpoint_dir meta) (dir_name meta)"
  obtain fa where reads: "\<And>q. fs_read fs fa q = fs_read fs f q"
    and task: "compress_task ar fs (zstd_level cmp) ?src out fa = (f', Inr n)"
    using compress_Inr [OF assms(2) packed] by blast
  have mk: "fs_read fs fa (path_join ?src r) = Inr c" using reads src by simp
  obtain f0 b where tar: "tar_of ar fs ?src f0 b" and unz: "unz data = Some b"
    and same: "\<And>q. q \<noteq> with_extension out ''tar.tmp'' \<Longrightarrow> fs_read fs f0 q = fs_read fs fa q"
    using compress_task_Inr [OF assms(1,2) task assms(6)] assms(4) by (metis sum.inject(2))
  from restored obtain ga u where task': "restore_task ar fs data target ga = (g', Inr u)"
    and meta': "meta' = expected\<lparr>cm_checkpoint_dir := target\<rparr>"
    by (auto simp: restore_def try_then_Inr split: if_splits)
  obtain b' h h' v where b': "unz data = Some b'"
    and tmp': "fs_read fs h (path_join target ''snapshot.tar.tmp'') = Inr b'"
    and un: "tar_unpack ar (path_join target ''snapshot.tar.tmp'') target h = (h', Inr v)"
    and rest: "\<And>q. q \<noteq> path_join target ''snapshot.tar.tmp'' \<Longrightarrow> fs_read fs g' q = fs_read fs h' q"
    using assms(1) task' by (rule restore_task_Inr) auto
  have tmp: "fs_read fs h (path_join target ''snapshot.tar.tmp'') = Inr b" using tmp' b' unz by simp
  have "fs_read fs f0 (path_join ?src r) = Inr c" using same assms(9) mk by simp
  moreover obtain t f1 f2 u v where "tar_append_dir_all ar t ''checkpoint'' ?src f0 = (f1, Inr u)"
    "tar_finish ar t f1 = (f2, Inr v)" "fs_read fs f2 t = Inr b"
    using tar unfolding tar_of_def by blast
  ultimately have "fs_read fs h' (path_join (path_join target ''checkpoint'') r) = Inr c"
    by (intro archiver_tar [OF assms(1) _ _ _ tmp un assms(7)])
  then show ?thesis using rest assms(10) meta' by simp
qed

text \<open>An archiver for directories with a single file \<open>CHECKPOINT_METADATA\<close>, for concrete runs.\<close>

definition one_file_archiver :: "mem_files archiver" where
  "one_file_archiver = \<lparr>
     runtime_build = Inr (),
     tar_append_dir_all = (\<lambda>t n src f.
       case filter (\<lambda>(q, nd). nd \<noteq> DirNode \<and> q \<noteq> t) f of
         [(q, FileNode c)] \<Rightarrow>
           if n = ''checkpoint'' \<and> q = path_join src ''CHECKPOINT_METADATA'' \<and> take (length src + 1) t \<noteq> src @ ''/'' \<and>
              src \<noteq> [] \<and> last src \<noteq> CHR ''/''
           then fs_write mem_fs t c f else (f, Inl ''unsupported'')
       | _ \<Rightarrow> (f, Inl ''unsupported'')),
     tar_finish = (\<lambda>t f. (f, Inr ())),
     tar_unpack = (\<lambda>t target f. case fs_read mem_fs f t of
         Inl e \<Rightarrow> (f, Inl e)
       | Inr c \<Rightarrow> fs_write mem_fs (path_join (path_join target ''checkpoint'') ''CHECKPOINT_METADATA'') c f),
     zstd_encode_into = (\<lambda>l b p f. fs_write mem_fs p (40 # b) f),
     zstd_decode_into = (\<lambda>c p f. case c of [] \<Rightarrow> (f, Inl ''incomplete frame'')
         | m # b \<Rightarrow> if m = 40 then fs_write mem_fs p b f else (f, Inl ''unknown frame'')),
     crc32_iso_hdlc = (\<lambda>b. of_nat (length b))\<rparr>"

definition one_file_unz :: "bytes \<Rightarrow> bytes option" where
  "one_file_unz c = (case c of [] \<Rightarrow> None | m # b \<Rightarrow> if m = 40 then Some b else None)"

lemma one_file_tar:
  assumes ap: "tar_append_dir_all one_file_archiver t n src f = (f1, Inr u)"
    and "inside r" and src: "fs_read mem_fs f (path_join src r) = Inr c"
  shows "n = ''checkpoint'' \<and> r = ''CHECKPOINT_METADATA'' \<and> fs_read mem_fs f1 t = Inr c"
proof -
  from ap obtain q x where fl: "filter (\<lambda>(q, nd). nd \<noteq> DirNode \<and> q \<noteq> t) f = [(q, FileNode x)]"
    and n: "n = ''checkpoint''" and q: "q = path_join src ''CHECKPOINT_METADATA''" and t: "take (length src + 1) t \<noteq> src @ ''/''"
    and s: "src \<noteq> []" "last src \<noteq> CHR ''/''" and wr: "fs_write mem_fs t x f = (f1, Inr u)"
    by (auto simp: one_file_archiver_def split: list.splits node.splits if_splits)
  have pr: "path_join src r = src @ ''/'' @ r" "path_join src ''CHECKPOINT_METADATA'' = src @ ''/CHECKPOINT_METADATA''"
    using assms(2) s by (simp_all add: path_join_def inside_def)
  from src have "(path_join src r, FileNode c) \<in> set f"
    by (auto dest: map_of_SomeD split: option.splits node.splits)
  moreover have "path_join src r \<noteq> t" using t pr by auto
  ultimately have "(path_join src r, FileNode c) \<in> set (filter (\<lambda>(q, nd). nd \<noteq> DirNode \<and> q \<noteq> t) f)" by simp
  then have "r = ''CHECKPOINT_METADATA''" "c = x" using fl q pr by auto
  then show ?thesis using n wr files_ok_write(1) [OF mem_fs_ok wr] by simp
qed

lemma one_file_archiver_ok: "archiver_ok one_file_archiver mem_fs one_file_unz"
proof -
  have enc: "\<exists>c. fs_read mem_fs f' p = Inr c \<and> one_file_unz c = Some b"
    if "zstd_encode_into one_file_archiver l b p f = (f', Inr u)" for l b p f f' u
    using that files_ok_write(1) [OF mem_fs_ok, of p "40 # b" f f' u]
    by (simp add: one_file_archiver_def one_file_unz_def del: mem_fs_simps)
  have dec: "\<exists>b. fs_read mem_fs f' p = Inr b \<and> one_file_unz c = Some b"
    if "zstd_decode_into one_file_archiver c p f = (f', Inr u)" for c p f f' u
    using that files_ok_write(1) [OF mem_fs_ok, of p "tl c" f f' u]
    by (auto simp: one_file_archiver_def one_file_unz_def simp del: mem_fs_simps split: list.splits if_splits)
  have fin: "tar_finish one_file_archiver t f = (f, Inr ())" for t f
    by (simp add: one_file_archiver_def)
  have un: "fs_read mem_fs g' (path_join (path_join target ''checkpoint'') ''CHECKPOINT_METADATA'') = Inr c"
    if "tar_unpack one_file_archiver t target g = (g', Inr u)" "fs_read mem_fs g t = Inr c" for t target g g' u c
    using that files_ok_write(1) [OF mem_fs_ok, of _ c g g' u]
    by (simp add: one_file_archiver_def del: mem_fs_simps)
  have rm: "fs_read mem_fs f' q = fs_read mem_fs f q"
    if "fs_remove_file mem_fs p f = (f', x)" "q \<noteq> p" for p q f f' x
    using that by (auto simp: map_of_filter_neq split: option.splits node.splits)
  have tar: "fs_read mem_fs g' (path_join (path_join target n) r) = Inr c"
    if "tar_append_dir_all one_file_archiver t n src f = (f1, Inr u)" "tar_finish one_file_archiver t f1 = (f2, Inr v)"
      "fs_read mem_fs f2 t = Inr b" "fs_read mem_fs g t' = Inr b"
      "tar_unpack one_file_archiver t' target g = (g', Inr x)" "inside r" "fs_read mem_fs f (path_join src r) = Inr c"
    for t n src f f1 f2 u v b t' target g g' x r c
    using one_file_tar [OF that(1,6,7)] that(2-4) un [OF that(5), of c] by (simp add: fin del: mem_fs_simps)
  show ?thesis
    unfolding archiver_ok_def
    by (intro conjI allI impI) (erule enc, erule dec, erule (6) tar, erule (1) rm)
qed

definition sample_meta :: CheckpointMetadata where
  "sample_meta = \<lparr>cm_applied_index = 9, cm_term = 1, cm_sequence_number = 0, cm_timestamp = 5,
     cm_crc32 = 0, cm_checkpoint_dir = ''cp'', cm_compressed_size = 0\<rparr>"

abbreviation sample_dir :: path where
  "sample_dir \<equiv> ''cp/checkpoint_'' @ show_u64 (5 :: u64)"

definition sample_files :: mem_files where
  "sample_files = [(sample_dir, DirNode), (sample_dir @ ''/CHECKPOINT_METADATA'', FileNode [118])]"

lemma sample_compress:
  "compress one_file_archiver mem_fs SnapshotCompressor_new sample_meta ''out/s.zst'' sample_files =
   ([(''out/s.zst'', FileNode [40, 118]), (''out'', DirNode), (sample_dir, DirNode),
     (sample_dir @ ''/CHECKPOINT_METADATA'', FileNode [118])], Inr 2)"
  by (simp add: compress_def compress_task_def sample_meta_def sample_files_def one_file_archiver_def
      dir_name_def path_join_def path_exists_def path_parent_def split_last_def with_extension_def
      file_stem_def node_meta_def)

lemma inside_manifest: "inside ''CHECKPOINT_METADATA''"
  by (simp add: inside_def)

lemma compress_restore_roundtrip_witness:
  "\<exists>g' m. restore one_file_archiver mem_fs [40, 118] ''t'' sample_meta [] = (g', Inr m) \<and>
     fs_read mem_fs g' ''t/checkpoint/CHECKPOINT_METADATA'' = Inr [118]"
proof -
  obtain g' m where run: "restore one_file_archiver mem_fs [40, 118] ''t'' sample_meta [] = (g', Inr m)"
    by (simp add: restore_def restore_task_def sample_meta_def one_file_archiver_def path_join_def)
  have "fs_read mem_fs g' (path_join (path_join ''t'' ''checkpoint'') ''CHECKPOINT_METADATA'') = Inr [118] \<and>
      m = sample_meta\<lparr>cm_checkpoint_dir := ''t''\<rparr>"
    by (rule compress_restore_roundtrip [OF one_file_archiver_ok mem_fs_ok sample_compress _ run])
      (simp_all add: with_extension_def split_last_def file_stem_def inside_manifest sample_files_def
        sample_meta_def dir_name_def path_join_def)
  then show ?thesis using run by (auto simp: path_join_def simp del: mem_fs_simps)
qed

text \<open>
  A restore that fails is not undone. There is compressed data for which \<open>restore\<close>
  returns an error after it has created the target directory and the temporary file in it; only
  a wrong CRC is detected before anything is written.
\<close>

lemma failed_restore_leaves_files:
  "(\<exists>e g'. restore one_file_archiver mem_fs [7] ''t'' sample_meta [] = (g', Inl e) \<and>
      path_exists mem_fs g' ''t'' \<and> path_exists mem_fs g' ''t/snapshot.tar.tmp'') \<and>
   (cm_crc32 m \<noteq> 0 \<and> \<not> verify_crc32 ar data (cm_crc32 m) \<longrightarrow>
      restore ar fs data target m f = (f, Inl (Snapshot ''CRC32 mismatch while restoring snapshot'')))"
  by (simp add: restore_def restore_task_def sample_meta_def one_file_archiver_def path_join_def path_exists_def)

end
