(* ===== verification/Snapshots.thy ===== *)
theory Snapshots
  imports State Checkpoint Delta Archive
begin

text \<open>
  \<open>src/snapshot.rs\<close>: choosing between a full and a delta snapshot, building either, the
  envelope both travel in (with the version-1 format as a fallback when reading), and
  installing a full snapshot. What the module calls outside the repository is collected in the
  record \<open>snap_env\<close>.
\<close>

section \<open>Data\<close>

abbreviation DELTA_ENTRY_THRESHOLD :: nat where "DELTA_ENTRY_THRESHOLD \<equiv> 1000"
abbreviation DELTA_MAX_BYTES :: u64 where "DELTA_MAX_BYTES \<equiv> 5 * 1024 * 1024"
abbreviation DELTA_MAX_AGE_SECS :: u64 where "DELTA_MAX_AGE_SECS \<equiv> 24 * 60 * 60"

record SnapshotEnvelope =
  env_metadata :: DeltaMetadata
  env_payload :: bytes

datatype LegacySnapshotFormatV1 =
    LegacyFull CheckpointMetadata
  | LegacyDelta u64 "DeltaEntry list"

record LegacyDeltaMetadataV1 =
  lm_format :: LegacySnapshotFormatV1
  lm_size_bytes :: u64
  lm_created_at :: u64
  lm_file_path :: "string option"
  lm_version :: u16

record LegacySnapshotEnvelopeV1 =
  le_metadata :: LegacyDeltaMetadataV1
  le_payload :: bytes

datatype DecodedSnapshotPayload =
    DecodedFull DeltaMetadata
  | DecodedDelta DeltaMetadata "DeltaEntry list"

record ('t, 'x, 'f, 'm) snap_env =
  se_kv :: "('t, 'x, 'f) surrealkv"
  se_fs :: "'f filesystem"
  se_ar :: "'f archiver"
  se_zstd :: zstd
  se_entries :: "DeltaEntry list codec"
  se_envelope :: "SnapshotEnvelope codec"
  se_legacy :: "LegacySnapshotEnvelopeV1 codec"
  se_membership :: "u64 list list \<Rightarrow> (u64 \<times> string) list \<Rightarrow> string + 'm" \<comment> \<open>\<open>Membership::new\<close>\<close>

section \<open>Reading a payload\<close>

definition should_build_delta :: "SnapshotMetaState \<Rightarrow> nat \<Rightarrow> u64 \<Rightarrow> u64 \<Rightarrow> bool" where
  "should_build_delta st entries size_bytes now =
     (if last_checkpoint st = None then False
      else if entries = 0 \<or> size_bytes > DELTA_MAX_BYTES then False
      else
        let by_entry_threshold = (entries \<ge> DELTA_ENTRY_THRESHOLD);
            within_time_window = (case last_checkpoint st of
                None \<Rightarrow> False
              | Some c \<Rightarrow> saturating_sub now (cp_created_at c) \<le> DELTA_MAX_AGE_SECS)
        in by_entry_threshold \<or> within_time_window)"

definition decode_snapshot_payload ::
  "('t, 'x, 'f, 'm) snap_env \<Rightarrow> bytes \<Rightarrow> RaftError + DecodedSnapshotPayload option" where
  "decode_snapshot_payload E payload =
     (case from_bytes (se_envelope E) payload of
        Inr envelope \<Rightarrow> (case dm_format (env_metadata envelope) of
            Delta _ _ \<Rightarrow> and_then (decode_entries (se_zstd E) (se_entries E) (env_payload envelope))
              (\<lambda>entries. Inr (Some (DecodedDelta (env_metadata envelope) entries)))
          | Full _ \<Rightarrow> Inr (Some (DecodedFull (env_metadata envelope))))
      | Inl _ \<Rightarrow> (case from_bytes (se_legacy E) payload of
          Inl _ \<Rightarrow> Inr None
        | Inr legacy \<Rightarrow>
          (let lm = le_metadata legacy in
           case lm_format lm of
             LegacyFull checkpoint_meta \<Rightarrow>
               Inr (Some (DecodedFull \<lparr>dm_format = Full checkpoint_meta, dm_size_bytes = lm_size_bytes lm,
                 dm_created_at = lm_created_at lm, dm_file_path = lm_file_path lm, dm_version = 2\<rparr>))
           | LegacyDelta base entries \<Rightarrow>
               Inr (Some (DecodedDelta \<lparr>dm_format = Delta base (of_nat (length entries)),
                 dm_size_bytes = lm_size_bytes lm, dm_created_at = lm_created_at lm,
                 dm_file_path = lm_file_path lm, dm_version = 2\<rparr> entries)))))"

definition decode_delta_entries_from_payload ::
  "('t, 'x, 'f, 'm) snap_env \<Rightarrow> bytes \<Rightarrow> RaftError + DeltaEntry list option" where
  "decode_delta_entries_from_payload E payload =
     and_then (decode_snapshot_payload E payload) (\<lambda>p.
       case p of Some (DecodedDelta _ entries) \<Rightarrow> Inr (Some entries) | _ \<Rightarrow> Inr None)"

section \<open>Configuration of the builder\<close>

record SnapshotBuildConfig =
  sbc_node_id :: u64
  sbc_node_addr :: string
  sbc_current_term :: u64

definition SnapshotBuildConfig_default :: SnapshotBuildConfig where
  "SnapshotBuildConfig_default =
     \<lparr>sbc_node_id = 1, sbc_node_addr = ''127.0.0.1:50051'', sbc_current_term = 0\<rparr>"

text \<open>\<open>json\<close> is \<open>serde_json::from_str::<Vec<MemberEntry>>\<close>.\<close>

definition parse_membership_json ::
  "(string \<Rightarrow> string + (u64 \<times> string) list) \<Rightarrow> string \<Rightarrow> RaftError + SnapshotBuildConfig" where
  "parse_membership_json json json_str =
     and_then (map_err (\<lambda>e. Snapshot (''parse membership json failed: '' @ e)) (json json_str)) (\<lambda>entries.
     case entries of
       [] \<Rightarrow> Inl (Snapshot ''membership json contains no nodes'')
     | (node_id, addr) # _ \<Rightarrow>
         Inr \<lparr>sbc_node_id = node_id, sbc_node_addr = addr, sbc_current_term = 0\<rparr>)"

text \<open>\<open>env\<close> is \<open>std::env::var\<close>.\<close>

definition SnapshotBuildConfig_from_env ::
  "(string \<Rightarrow> string + (u64 \<times> string) list) \<Rightarrow> (string \<Rightarrow> string option) \<Rightarrow> SnapshotBuildConfig" where
  "SnapshotBuildConfig_from_env json env =
     (case map_option (parse_membership_json json) (env ''MEMBERSHIP_JSON'') of
        Some (Inr parsed) \<Rightarrow> parsed
      | _ \<Rightarrow>
        \<lparr>sbc_node_id = (case Option.bind (env ''NODE_ID'') parse_u64 of None \<Rightarrow> 1 | Some n \<Rightarrow> n),
         sbc_node_addr = (case env ''LISTEN_ADDR'' of None \<Rightarrow> ''127.0.0.1:50051'' | Some a \<Rightarrow> a),
         sbc_current_term = (case Option.bind (env ''CURRENT_TERM'') parse_u64 of None \<Rightarrow> 0 | Some n \<Rightarrow> n)\<rparr>)"

section \<open>Building and installing\<close>

definition build_local_membership ::
  "('t, 'x, 'f, 'm) snap_env \<Rightarrow> SnapshotBuildConfig \<Rightarrow> RaftError + 'm" where
  "build_local_membership E cfg =
     map_err (\<lambda>e. Snapshot (''membership build failed: '' @ e))
       (se_membership E [[sbc_node_id cfg]] [(sbc_node_id cfg, sbc_node_addr cfg)])"

definition build_snapshot_meta ::
  "('t, 'x, 'f, 'm) snap_env \<Rightarrow> SnapshotBuildConfig \<Rightarrow> u64 \<Rightarrow> string \<Rightarrow> RaftError + 'm SnapshotMeta" where
  "build_snapshot_meta E cfg applied_index snapshot_id =
     and_then (build_local_membership E cfg) (\<lambda>membership.
     Inr \<lparr>meta_last_log_id = Some (new_term_index (sbc_current_term cfg) applied_index),
          meta_snapshot_id = snapshot_id,
          meta_last_membership = \<lparr>sm_log_id = None, sm_membership = membership\<rparr>\<rparr>)"

definition RaftSnapshotBuilder_build_snapshot ::
  "('t, 'x, 'f, 'm) snap_env \<Rightarrow> SnapshotBuildConfig \<Rightarrow> u64 \<Rightarrow>
   't \<times> 'f world \<Rightarrow> ('t \<times> 'f world) \<times> (RaftError + 'm RaftSnapshot)" where
  "RaftSnapshotBuilder_build_snapshot E cfg applied_index s =
     try_then (create (se_kv E) (se_fs E) ''target/checkpoints'' applied_index (sbc_current_term cfg) s) (\<lambda>s meta.
     case on_world now_secs s of (s, timestamp) \<Rightarrow>
     let out = path_join ''target/snapshots'' (''snapshot-'' @ show_u64 timestamp @ ''.tar.zst'') in
     try_then (on_world (on_files (compress (se_ar E) (se_fs E) SnapshotCompressor_new meta out)) s)
       (\<lambda>s compressed_size.
     try_then (s, map_err from_io_error (fs_read (se_fs E) (files (snd s)) out)) (\<lambda>s bytes.
     let full_meta = with_compressed_size compressed_size meta;
         envelope = \<lparr>env_metadata = DeltaMetadata_new (Full full_meta) (of_nat (length bytes)) timestamp,
                     env_payload = bytes\<rparr> in
     try_then (s, map_err (\<lambda>e. Snapshot (''encode full envelope failed: '' @ e))
         (to_stdvec (se_envelope E) envelope)) (\<lambda>s envelope_bytes.
     try_then (s, build_snapshot_meta E cfg applied_index
         (''full-'' @ show_u64 applied_index @ ''-'' @ show_u64 timestamp)) (\<lambda>s snapshot_meta.
     (s, Inr \<lparr>snap_meta = snapshot_meta, snap_data = envelope_bytes\<rparr>))))))"

definition build_snapshot_with_delta ::
  "('t, 'x, 'f, 'm) snap_env \<Rightarrow> SnapshotBuildConfig \<Rightarrow> u64 \<Rightarrow> SnapshotMetaState \<Rightarrow> DeltaEntry list \<Rightarrow>
   't \<times> 'f world \<Rightarrow> ('t \<times> 'f world) \<times> (RaftError + 'm RaftSnapshot)" where
  "build_snapshot_with_delta E cfg applied_index snap_st delta_entries s =
     (case on_world now_secs s of (s, now) \<Rightarrow>
     try_then (s, encode_entries (se_zstd E) (se_entries E) delta_entries) (\<lambda>s compressed_delta.
     if should_build_delta snap_st (length delta_entries) (of_nat (length compressed_delta)) now
     then
       try_then (on_world (persist_to_temp_file (se_fs E) ''target/tmp/deltas'' compressed_delta
           (show_u64 applied_index)) s) (\<lambda>s delta_path.
       let base = (case last_checkpoint snap_st of None \<Rightarrow> 0 | Some c \<Rightarrow> checkpoint_index c);
           metadata = DeltaMetadata_with_file_path delta_path
             (DeltaMetadata_new (Delta base (of_nat (length delta_entries)))
                (of_nat (length compressed_delta)) now);
           envelope = \<lparr>env_metadata = metadata, env_payload = compressed_delta\<rparr> in
       try_then (s, map_err (\<lambda>e. Snapshot (''encode delta envelope failed: '' @ e))
           (to_stdvec (se_envelope E) envelope)) (\<lambda>s bytes.
       try_then (s, build_snapshot_meta E cfg applied_index
           (''delta-'' @ show_u64 applied_index @ ''-'' @ show_u64 now)) (\<lambda>s snapshot_meta.
       (s, Inr \<lparr>snap_meta = snapshot_meta, snap_data = bytes\<rparr>))))
     else RaftSnapshotBuilder_build_snapshot E cfg applied_index s))"

text \<open>The index and the term of the last log id, 0 without one.\<close>

definition snap_index :: "'m SnapshotMeta \<Rightarrow> u64" where
  "snap_index m = (case meta_last_log_id m of None \<Rightarrow> 0 | Some l \<Rightarrow> li_index l)"

definition snap_term :: "'m SnapshotMeta \<Rightarrow> u64" where
  "snap_term m = (case meta_last_log_id m of None \<Rightarrow> 0 | Some l \<Rightarrow> li_term l)"

definition RaftSnapshotBuilder_install_snapshot ::
  "('t, 'x, 'f, 'm) snap_env \<Rightarrow> 'm RaftSnapshot \<Rightarrow> 'f world \<Rightarrow> 'f world \<times> (RaftError + unit)" where
  "RaftSnapshotBuilder_install_snapshot E snapshot w =
     (case now_secs w of (w, ts) \<Rightarrow>
     let restore_dir = path_join ''target/restored'' (''snapshot-'' @ show_u64 ts);
         meta = snap_meta snapshot; raw = snap_data snapshot;
         restore_expected = (\<lambda>data w.
           case CheckpointMetadata_new (snap_index meta) (snap_term meta) 0 restore_dir w of (w, expected) \<Rightarrow>
           try_then (on_files (restore (se_ar E) (se_fs E) data restore_dir expected) w) (\<lambda>w _.
           (w, Inr ())))
     in case from_bytes (se_envelope E) raw of
          Inr envelope \<Rightarrow> (case dm_format (env_metadata envelope) of
              Full _ \<Rightarrow> restore_expected (env_payload envelope) w
            | Delta _ _ \<Rightarrow>
                (w, Inl (Snapshot ''delta snapshot requires storage-level apply via decoded entries'')))
        | Inl _ \<Rightarrow> restore_expected raw w)"

section \<open>What a built snapshot contains\<close>

lemma now_secs_eq:
  "now_secs w = (w\<lparr>ticks := Suc (ticks w)\<rparr>, case clock w (ticks w) of None \<Rightarrow> 0 | Some t \<Rightarrow> t)"
  by (simp add: now_secs_def system_time_def)

lemma build_snapshot_meta_Inr:
  "build_snapshot_meta E cfg ai sid = Inr m \<Longrightarrow>
     meta_last_log_id m = Some (new_term_index (sbc_current_term cfg) ai) \<and> meta_snapshot_id m = sid"
  by (auto simp: build_snapshot_meta_def and_then_Inr)

lemma build_full_Inr:
  fixes E :: "('t, 'x, 'f, 'm) snap_env"
  assumes "RaftSnapshotBuilder_build_snapshot E cfg ai s = (s', Inr snap)"
  obtains meta n bytes out env and sc :: "'t \<times> 'f world" where
    "create (se_kv E) (se_fs E) ''target/checkpoints'' ai (sbc_current_term cfg) s = (sc, Inr meta)"
    "\<exists>k. out = ''target/snapshots/snapshot-'' @ show_nat k @ ''.tar.zst''"
    "compress (se_ar E) (se_fs E) SnapshotCompressor_new meta out (files (snd sc)) = (files (snd s'), Inr n)"
    "fs_read (se_fs E) (files (snd s')) out = Inr bytes"
    "to_stdvec (se_envelope E) env = Inr (snap_data snap)" "env_payload env = bytes"
    "\<exists>m. dm_format (env_metadata env) = Full m"
    "meta_last_log_id (snap_meta snap) = Some (new_term_index (sbc_current_term cfg) ai)"
proof -
  obtain sc meta where cr: "create (se_kv E) (se_fs E) ''target/checkpoints'' ai (sbc_current_term cfg) s = (sc, Inr meta)"
    using assms by (auto simp: RaftSnapshotBuilder_build_snapshot_def try_then_Inr)
  let ?ts = "case clock (snd sc) (ticks (snd sc)) of None \<Rightarrow> 0 | Some t \<Rightarrow> t"
  let ?out = "path_join ''target/snapshots'' (''snapshot-'' @ show_u64 ?ts @ ''.tar.zst'')"
  let ?env = "\<lambda>n bytes. \<lparr>env_metadata = DeltaMetadata_new (Full (with_compressed_size n meta)) (of_nat (length bytes)) ?ts,
                 env_payload = bytes\<rparr>"
  obtain n bytes sid where
    "compress (se_ar E) (se_fs E) SnapshotCompressor_new meta ?out (files (snd sc)) = (files (snd s'), Inr n)"
    "fs_read (se_fs E) (files (snd s')) ?out = Inr bytes"
    "to_stdvec (se_envelope E) (?env n bytes) = Inr (snap_data snap)"
    "build_snapshot_meta E cfg ai sid = Inr (snap_meta snap)"
    using assms
    by (auto simp: RaftSnapshotBuilder_build_snapshot_def try_then_Inr on_world_iff on_files_eq now_secs_eq
        Let_def cr split: prod.splits)
  then show ?thesis
    by (intro that [OF cr, of ?out n bytes "?env n bytes"])
      (auto simp: path_join_def DeltaMetadata_new_def dest: build_snapshot_meta_Inr)
qed

lemma built_decodes:
  assumes "codec_ok (se_envelope E)" "codec_ok (se_entries E)" "zstd_ok (se_zstd E)"
    and run: "build_snapshot_with_delta E cfg ai st es s = (s', Inr snap)"
  shows "meta_last_log_id (snap_meta snap) = Some (new_term_index (sbc_current_term cfg) ai) \<and>
    (\<exists>data. encode_entries (se_zstd E) (se_entries E) es = Inr data \<and>
      (if should_build_delta st (length es) (of_nat (length data))
          (case clock (snd s) (ticks (snd s)) of None \<Rightarrow> 0 | Some t \<Rightarrow> t)
       then \<exists>m cp. decode_snapshot_payload E (snap_data snap) = Inr (Some (DecodedDelta m es)) \<and>
              last_checkpoint st = Some cp \<and>
              dm_format m = Delta (checkpoint_index cp) (of_nat (length es))
       else \<exists>m cm. decode_snapshot_payload E (snap_data snap) = Inr (Some (DecodedFull m)) \<and>
              dm_format m = Full cm))"
proof -
  define now where now: "now = (case clock (snd s) (ticks (snd s)) of None \<Rightarrow> 0 | Some t \<Rightarrow> t)"
  let ?sn = "(fst s, (snd s)\<lparr>ticks := Suc (ticks (snd s))\<rparr>)"
  from run obtain data where enc: "encode_entries (se_zstd E) (se_entries E) es = Inr data"
    by (auto simp: build_snapshot_with_delta_def try_then_Inr split: prod.splits)
  have dec: "decode_entries (se_zstd E) (se_entries E) data = Inr es"
    using assms(3,2) enc by (rule decode_encode_entries)
  have ns: "on_world now_secs s = (?sn, now)" by (simp add: on_world_iff now_secs_eq now)
  show ?thesis
  proof (cases "should_build_delta st (length es) (of_nat (length data)) now")
    case True
    then obtain cp where cp: "last_checkpoint st = Some cp" by (auto simp: should_build_delta_def split: if_splits)
    from run True obtain p m b sm where eb: "to_stdvec (se_envelope E) \<lparr>env_metadata = m, env_payload = data\<rparr> = Inr b"
      and m: "m = DeltaMetadata_with_file_path p (DeltaMetadata_new
         (Delta (checkpoint_index cp) (of_nat (length es))) (of_nat (length data)) now)"
      and snap: "snap = \<lparr>snap_meta = sm, snap_data = b\<rparr>"
      and sm: "\<exists>sid. build_snapshot_meta E cfg ai sid = Inr sm"
      by (auto simp: build_snapshot_with_delta_def enc ns try_then_Inr cp Let_def) blast
    have "from_bytes (se_envelope E) b = Inr \<lparr>env_metadata = m, env_payload = data\<rparr>"
      using assms(1) eb by (rule codec_okD)
    then show ?thesis
      using True enc dec sm by (auto simp: now [symmetric] snap decode_snapshot_payload_def m cp DeltaMetadata_new_def
          DeltaMetadata_with_file_path_def dest: build_snapshot_meta_Inr)
  next
    case False
    then have "RaftSnapshotBuilder_build_snapshot E cfg ai ?sn = (s', Inr snap)"
      using run by (simp add: build_snapshot_with_delta_def enc ns)
    then obtain env where eb: "to_stdvec (se_envelope E) env = Inr (snap_data snap)"
      and full: "\<exists>m. dm_format (env_metadata env) = Full m"
      and lli: "meta_last_log_id (snap_meta snap) = Some (new_term_index (sbc_current_term cfg) ai)"
      by (rule build_full_Inr)
    have "from_bytes (se_envelope E) (snap_data snap) = Inr env"
      using assms(1) eb by (rule codec_okD)
    then show ?thesis using False enc full lli by (auto simp: now [symmetric] decode_snapshot_payload_def)
  qed
qed

text \<open>
  A built snapshot decodes to what was put in. Whatever \<open>build_snapshot_with_delta\<close>
  returns carries the given index and the configured term, and its payload decodes: to exactly
  the given entries, relative to the index of the last checkpoint, when the delta criterion
  holds for their compressed size and the clock, and to a full snapshot otherwise.
\<close>

lemma built_snapshot_decodes:
  assumes "codec_ok (se_envelope E)" "codec_ok (se_entries E)" "zstd_ok (se_zstd E)"
    and run: "build_snapshot_with_delta E cfg ai st es s = (s', Inr snap)"
    and now: "now = (case clock (snd s) (ticks (snd s)) of None \<Rightarrow> 0 | Some t \<Rightarrow> t)"
  shows "meta_last_log_id (snap_meta snap) = Some (new_term_index (sbc_current_term cfg) ai) \<and>
    (\<exists>data. encode_entries (se_zstd E) (se_entries E) es = Inr data \<and>
      (if should_build_delta st (length es) (of_nat (length data)) now
       then \<exists>m cp. decode_snapshot_payload E (snap_data snap) = Inr (Some (DecodedDelta m es)) \<and>
              last_checkpoint st = Some cp \<and>
              dm_format m = Delta (checkpoint_index cp) (of_nat (length es))
       else \<exists>m cm. decode_snapshot_payload E (snap_data snap) = Inr (Some (DecodedFull m)) \<and>
              dm_format m = Full cm))"
  using built_decodes [OF assms(1-4)] unfolding now by blast

definition sample_env :: "SnapshotEnvelope list \<Rightarrow> (mem_tree, mem_txn, mem_files, unit) snap_env" where
  "sample_env envs = \<lparr>se_kv = mem_kv, se_fs = mem_fs, se_ar = one_file_archiver, se_zstd = stored_zstd,
     se_entries = table_codec [[], sample_entries], se_envelope = table_codec envs,
     se_legacy = table_codec [], se_membership = (\<lambda>_ _. Inr ())\<rparr>"

lemma sample_env_simps [simp]:
  "se_kv (sample_env envs) = mem_kv" "se_fs (sample_env envs) = mem_fs"
  "se_ar (sample_env envs) = one_file_archiver" "se_zstd (sample_env envs) = stored_zstd"
  "se_entries (sample_env envs) = table_codec [[], sample_entries]"
  "se_envelope (sample_env envs) = table_codec envs"
  "se_membership (sample_env envs) vs ns = Inr ()"
  by (simp_all add: sample_env_def)

definition sample_state :: SnapshotMetaState where
  "sample_state = \<lparr>last_checkpoint = Some (PersistedCheckpointMetadata_new 9 1 7 5),
     delta_chain = [], total_delta_bytes = 0\<rparr>"

definition sample_delta_envelope :: SnapshotEnvelope where
  "sample_delta_envelope = \<lparr>env_metadata = DeltaMetadata_with_file_path
       (''target/tmp/deltas/delta-'' @ show_u64 (5 :: u64) @ ''-'' @ show_u64 (11 :: u64) @ ''.bin.zst'')
       (DeltaMetadata_new (Delta 9 2) 3 5), env_payload = 40 # be_encode 2 1\<rparr>"

lemma length_sample_entries: "length sample_entries = 2"
  by (simp add: sample_entries_def)

lemma sample_state_checkpoint:
  "last_checkpoint sample_state = Some (PersistedCheckpointMetadata_new 9 1 7 5)"
  "checkpoint_index (PersistedCheckpointMetadata_new 9 1 7 5) = 9"
  by (simp_all add: sample_state_def PersistedCheckpointMetadata_new_def)

lemma built_snapshot_decodes_witness:
  "\<exists>s' snap m. build_snapshot_with_delta (sample_env [sample_delta_envelope]) SnapshotBuildConfig_default 11
       sample_state sample_entries (\<lambda>_. None, mem_world [] (\<lambda>_. 5)) = (s', Inr snap) \<and>
     decode_snapshot_payload (sample_env [sample_delta_envelope]) (snap_data snap)
       = Inr (Some (DecodedDelta m sample_entries))"
proof -
  let ?E = "sample_env [sample_delta_envelope]"
  have enc: "encode_entries stored_zstd (table_codec [[], sample_entries]) sample_entries = Inr (40 # be_encode 2 1)"
    by (simp add: encode_entries_def stored_zstd_def table_codec_def sample_entries_def del: be_encode.simps)
  have should: "should_build_delta sample_state (length sample_entries) (of_nat (length (40 # be_encode 2 1))) 5"
    by (simp add: should_build_delta_def sample_state_def sample_entries_def PersistedCheckpointMetadata_new_def)
  obtain s' snap where run: "build_snapshot_with_delta ?E SnapshotBuildConfig_default 11
       sample_state sample_entries (\<lambda>_. None, mem_world [] (\<lambda>_. 5)) = (s', Inr snap)"
    using should
    by (simp add: build_snapshot_with_delta_def enc now_secs_eq mem_world_def persist_to_temp_file_def
        on_files_def Let_def path_join_def sample_state_checkpoint length_sample_entries
        to_stdvec_table_codec sample_delta_envelope_def build_snapshot_meta_def
        build_local_membership_def del: be_encode.simps)
  show ?thesis
    using built_snapshot_decodes [OF _ _ _ run refl] run enc should
    by (auto simp: table_codec_ok stored_zstd_ok mem_world_def)
qed

text \<open>
  Claim C11: a full snapshot carries the checkpoint to another node. If a node builds a full
  snapshot and another installs it, each file that the checkpoint directory had when the
  checkpoint was created is found with the same bytes in the restore directory of the
  installing node, named after that node's clock.
\<close>

theorem full_snapshot_transfers_checkpoint:
  assumes "archiver_ok (se_ar E) (se_fs E) unz" "files_ok (se_fs E)" "codec_ok (se_envelope E)"
    and built: "RaftSnapshotBuilder_build_snapshot E cfg ai s = (s', Inr snap)"
    and inst: "RaftSnapshotBuilder_install_snapshot E snap w = (w', Inr u)"
    and "inside r"
  shows "\<exists>sc meta. create (se_kv E) (se_fs E) ''target/checkpoints'' ai (sbc_current_term cfg) s = (sc, Inr meta) \<and>
     (\<forall>c. fs_read (se_fs E) (files (snd sc)) (path_join (path_join ''target/checkpoints'' (dir_name meta)) r) = Inr c \<longrightarrow>
        fs_read (se_fs E) (files w') (path_join (path_join (path_join ''target/restored'' (''snapshot-'' @
          show_u64 (case clock w (ticks w) of None \<Rightarrow> 0 | Some t \<Rightarrow> t))) ''checkpoint'') r) = Inr c)"
proof -
  obtain sc meta n bytes out env k where
    cr: "create (se_kv E) (se_fs E) ''target/checkpoints'' ai (sbc_current_term cfg) s = (sc, Inr meta)"
    and out: "out = ''target/snapshots/snapshot-'' @ show_nat k @ ''.tar.zst''"
    and cp: "compress (se_ar E) (se_fs E) SnapshotCompressor_new meta out (files (snd sc)) = (files (snd s'), Inr n)"
    and rd: "fs_read (se_fs E) (files (snd s')) out = Inr bytes"
    and enc: "to_stdvec (se_envelope E) env = Inr (snap_data snap)" and pay: "env_payload env = bytes"
    and full: "\<exists>m. dm_format (env_metadata env) = Full m"
    using built by (rule build_full_Inr) auto
  have dec: "from_bytes (se_envelope E) (snap_data snap) = Inr env" using assms(3) enc by (rule codec_okD)
  have dir: "cm_checkpoint_dir meta = ''target/checkpoints''" using cr by (rule create_Inr) simp
  let ?R = "path_join ''target/restored'' (''snapshot-'' @
          show_u64 (case clock w (ticks w) of None \<Rightarrow> 0 | Some t \<Rightarrow> t))"
  from inst obtain expected meta' where
    rs: "restore (se_ar E) (se_fs E) bytes ?R expected (files w) = (files w', Inr meta')"
    using full pay by (auto simp: RaftSnapshotBuilder_install_snapshot_def now_secs_eq dec Let_def try_then_Inr
        on_files_eq CheckpointMetadata_new_eq)
  have "split_last (CHR ''/'') out = Some (''target/snapshots'', ''snapshot-'' @ show_nat k @ ''.tar.zst'')"
    unfolding out using split_last_append [of "CHR ''/''" "''snapshot-'' @ show_nat k @ ''.tar.zst''" "''target/snapshots''"]
    by simp
  note sl = this
  have ext: "with_extension out ''tar.tmp'' \<noteq> out"
    by (rule with_extension_differs [OF sl]) simp_all
  have ext': "\<exists>x. with_extension out ''tar.tmp'' = ''target/snapshots/'' @ x"
    by (simp add: with_extension_def sl)
  have "path_join (path_join ''target/checkpoints'' (dir_name meta)) r \<noteq> with_extension out ''tar.tmp''"
    using assms(6) ext' by (auto simp: path_join_def inside_def dir_name_def)
  moreover have "path_join (path_join ?R ''checkpoint'') r \<noteq> path_join ?R ''snapshot.tar.tmp''"
    using assms(6) by (auto simp: path_join_def inside_def)
  ultimately show ?thesis
    using compress_restore_roundtrip [OF assms(1,2) cp rd rs ext assms(6)] cr dir by auto
qed

definition sample_full_envelope :: SnapshotEnvelope where
  "sample_full_envelope = (let data = 40 # to_be_bytes_u32 1 @ to_be_bytes_u64 5 @ to_be_bytes_u64 7 in
     \<lparr>env_metadata = DeltaMetadata_new (Full \<lparr>cm_applied_index = 9, cm_term = 0, cm_sequence_number = 7,
         cm_timestamp = 5, cm_crc32 = 0, cm_checkpoint_dir = ''target/checkpoints'', cm_compressed_size = 21\<rparr>)
         (of_nat (length data)) 5, env_payload = data\<rparr>)"

abbreviation sample_manifest :: bytes where
  "sample_manifest \<equiv> to_be_bytes_u32 1 @ to_be_bytes_u64 5 @ to_be_bytes_u64 7"

abbreviation sample_checkpoint :: CheckpointMetadata where
  "sample_checkpoint \<equiv> \<lparr>cm_applied_index = 9, cm_term = 0, cm_sequence_number = 7, cm_timestamp = 5,
     cm_crc32 = 0, cm_checkpoint_dir = ''target/checkpoints'', cm_compressed_size = 0\<rparr>"

abbreviation sample_checkpoint_files :: mem_files where
  "sample_checkpoint_files \<equiv> [(''target/checkpoints/checkpoint_5/CHECKPOINT_METADATA'', FileNode sample_manifest),
     (''target/checkpoints/checkpoint_5'', DirNode), (''target/checkpoints'', DirNode)]"

lemma sample_create_full:
  "\<exists>t. create mem_kv mem_fs ''target/checkpoints'' 9 0 (\<lambda>_. None, mem_world [] (\<lambda>_. 5)) =
     ((t, (mem_world sample_checkpoint_files (\<lambda>_. 5))\<lparr>ticks := 3\<rparr>), Inr sample_checkpoint)"
  by (simp add: sample_create Let_def path_join_def show_digits)

lemma sample_compress_full:
  "compress one_file_archiver mem_fs SnapshotCompressor_new sample_checkpoint
     ''target/snapshots/snapshot-5.tar.zst'' sample_checkpoint_files =
   ((''target/snapshots/snapshot-5.tar.zst'', FileNode (40 # sample_manifest)) # (''target/snapshots'', DirNode) #
     sample_checkpoint_files, Inr 21)"
  by (simp add: compress_def compress_task_def one_file_archiver_def show_digits dir_name_def path_join_def
      path_exists_def path_parent_def split_last_def with_extension_def file_stem_def node_meta_def)

lemma sample_build_full:
  "\<exists>s' snap. RaftSnapshotBuilder_build_snapshot (sample_env [sample_full_envelope]) SnapshotBuildConfig_default 9
     (\<lambda>_. None, mem_world [] (\<lambda>_. 5)) = (s', Inr snap) \<and> snap_data snap = be_encode 2 0"
proof -
  obtain t where cr: "create mem_kv mem_fs ''target/checkpoints'' 9 0 (\<lambda>_. None, mem_world [] (\<lambda>_. 5)) =
     ((t, (mem_world sample_checkpoint_files (\<lambda>_. 5))\<lparr>ticks := 3\<rparr>), Inr sample_checkpoint)"
    using sample_create_full by blast
  show ?thesis
    unfolding RaftSnapshotBuilder_build_snapshot_def sample_env_simps SnapshotBuildConfig_default_def
      SnapshotBuildConfig.simps cr
    by (simp add: now_secs_eq mem_world_def Let_def path_join_def show_digits on_files_def sample_compress_full
        to_stdvec_table_codec sample_full_envelope_def with_compressed_size_def build_snapshot_meta_def
        build_local_membership_def del: be_encode.simps)
qed

lemma sample_full_payload:
  "dm_format (env_metadata sample_full_envelope) = Full (sample_checkpoint\<lparr>cm_compressed_size := 21\<rparr>)"
  "env_payload sample_full_envelope = 40 # sample_manifest"
  by (simp_all add: sample_full_envelope_def DeltaMetadata_new_def Let_def)

lemma sample_install_full:
  assumes "snap_data snap = be_encode 2 0"
  shows "\<exists>w'. RaftSnapshotBuilder_install_snapshot (sample_env [sample_full_envelope]) snap (mem_world [] tm) = (w', Inr ())"
proof -
  have fb: "from_bytes (table_codec [sample_full_envelope]) (be_encode 2 0) = Inr sample_full_envelope"
    by (simp add: table_codec_def be_decode_encode del: be_encode.simps)
  show ?thesis
    by (simp add: RaftSnapshotBuilder_install_snapshot_def assms fb now_secs_eq Let_def
        sample_full_payload CheckpointMetadata_new_eq on_files_def restore_def restore_task_def mem_world_def
        one_file_archiver_def path_join_def del: be_encode.simps)
qed

theorem full_snapshot_transfers_checkpoint_witness:
  "\<exists>s' snap w'. RaftSnapshotBuilder_build_snapshot (sample_env [sample_full_envelope]) SnapshotBuildConfig_default 9
     (\<lambda>_. None, mem_world [] (\<lambda>_. 5)) = (s', Inr snap) \<and>
   RaftSnapshotBuilder_install_snapshot (sample_env [sample_full_envelope]) snap (mem_world [] (\<lambda>_. 6)) = (w', Inr ()) \<and>
   fs_read mem_fs (files w') (path_join (path_join (path_join ''target/restored'' (''snapshot-'' @ show_u64 (6 :: u64)))
      ''checkpoint'') ''CHECKPOINT_METADATA'') = Inr sample_manifest"
proof -
  let ?E = "sample_env [sample_full_envelope]"
  obtain s' snap where run: "RaftSnapshotBuilder_build_snapshot ?E SnapshotBuildConfig_default 9
     (\<lambda>_. None, mem_world [] (\<lambda>_. 5)) = (s', Inr snap)" and data: "snap_data snap = be_encode 2 0"
    using sample_build_full by blast
  obtain w' where inst: "RaftSnapshotBuilder_install_snapshot ?E snap (mem_world [] (\<lambda>_. 6)) = (w', Inr ())"
    using sample_install_full [OF data] by blast
  have ok: "archiver_ok (se_ar ?E) (se_fs ?E) one_file_unz" "files_ok (se_fs ?E)" "codec_ok (se_envelope ?E)"
    by (simp_all add: one_file_archiver_ok mem_fs_ok table_codec_ok)
  show ?thesis
    using full_snapshot_transfers_checkpoint [OF ok run inst inside_manifest] run inst sample_create_full
    by (auto simp: SnapshotBuildConfig_default_def mem_world_def dir_name_def path_join_def show_digits)
qed

end
