(* ===== verification/Merge_Backend.thy ===== *)
theory Merge_Backend
  imports Merge_Policy Checkpoint Delta
begin

text \<open>
  \<open>src/merge/checkpoint_backend.rs\<close>: merging a chain of deltas into a new checkpoint. A
  copy of the baseline checkpoint is opened as a temporary tree, the entries of all delta files
  are replayed on it, and a checkpoint of the result is created. The specification of the
  replay is the fold of the decoded requests over the content of the baseline.
\<close>

section \<open>Data and parameters\<close>

record MergeExecution =
  me_checkpoint_size_bytes :: u64
  me_checkpoint_path :: "string option"

record ('t, 'x, 'f) merge_env =
  mv_kv :: "('t, 'x, 'f) surrealkv"
  mv_fs :: "'f filesystem"
  mv_zstd :: zstd
  mv_entries :: "DeltaEntry list codec"
  mv_request :: "KVRequest codec"

definition merge_snapshot_error :: "string \<Rightarrow> string \<Rightarrow> RaftError" where
  "merge_snapshot_error code detail = Snapshot (code @ '': '' @ detail)"

section \<open>The baseline\<close>

definition resolve_baseline_checkpoint ::
  "'f filesystem \<Rightarrow> SnapshotMetaState \<Rightarrow> 'f \<Rightarrow> RaftError + path" where
  "resolve_baseline_checkpoint fs st f =
     and_then (ok_or (merge_snapshot_error MERGE_ERR_BASELINE_MISSING
         ''missing baseline checkpoint metadata; merge aborted'') (last_checkpoint st)) (\<lambda>cp.
     and_then (ok_or (merge_snapshot_error MERGE_ERR_BASELINE_PATH_REQUIRED
         ''checkpoint_path is required in strict mode'') (checkpoint_path cp)) (\<lambda>explicit.
     if \<not> isl (fs_metadata fs f explicit) then Inr explicit
     else Inl (merge_snapshot_error MERGE_ERR_BASELINE_PATH_MISSING
         (''baseline checkpoint path missing: '' @ explicit))))"

text \<open>
  The recursion of the copy is bounded by the length of a path: each level appends a separator
  and a name to the destination, so after \<open>PATH_MAX\<close> levels the operating system refuses
  the path. The first argument counts the levels left.
\<close>

abbreviation PATH_MAX :: nat where "PATH_MAX \<equiv> 4096"

fun copy_dir :: "'f filesystem \<Rightarrow> nat \<Rightarrow> path \<Rightarrow> path \<Rightarrow> 'f \<Rightarrow> 'f \<times> (RaftError + unit)"
and copy_entries ::
  "'f filesystem \<Rightarrow> nat \<Rightarrow> path \<Rightarrow> (string + dir_entry) list \<Rightarrow> 'f \<Rightarrow> 'f \<times> (RaftError + unit)" where
  "copy_dir fs 0 src dst f = (f, Inl (from_io_error ''File name too long''))"
| "copy_dir fs (Suc n) src dst f =
     try_then (map_err_st from_io_error (fs_create_dir_all fs dst f)) (\<lambda>f _.
     case fs_read_dir fs f src of
       Inl e \<Rightarrow> (f, Inl (from_io_error e))
     | Inr entries \<Rightarrow> copy_entries fs n dst entries f)"
| "copy_entries fs n dst [] f = (f, Inr ())"
| "copy_entries fs n dst (Inl e # es) f = (f, Inl (from_io_error e))"
| "copy_entries fs n dst (Inr entry # es) f =
     (let src_path = entry_path entry; dst_path = path_join dst (entry_name entry) in
      case entry_meta entry of
        Inl e \<Rightarrow> (f, Inl (from_io_error e))
      | Inr ty \<Rightarrow>
          if is_dir ty
          then (case copy_dir fs n src_path dst_path f of
                  (f, Inl e) \<Rightarrow> (f, Inl e)
                | (f, Inr _) \<Rightarrow> copy_entries fs n dst es f)
          else if is_file ty
          then (case fs_hard_link fs src_path dst_path f of
                  (f, Inr _) \<Rightarrow> copy_entries fs n dst es f
                | (f, Inl _) \<Rightarrow> (case fs_copy fs src_path dst_path f of
                      (f, Inl e) \<Rightarrow> (f, Inl (from_io_error e))
                    | (f, Inr _) \<Rightarrow> copy_entries fs n dst es f))
          else copy_entries fs n dst es f)"

definition load_baseline_checkpoint_to_tree ::
  "('t, 'x, 'f) surrealkv \<Rightarrow> 'f filesystem \<Rightarrow> path \<Rightarrow> path \<Rightarrow> 'f \<Rightarrow> 'f \<times> (RaftError + 't)" where
  "load_baseline_checkpoint_to_tree kv fs cp_path temp_path f =
     try_then (copy_dir fs PATH_MAX cp_path temp_path f) (\<lambda>f _.
     map_err_st (\<lambda>e. Storage (''failed to open temp tree from checkpoint: '' @ e)) (tree_open kv f temp_path))"

definition create_temp_tree ::
  "('t, 'x, 'f) merge_env \<Rightarrow> path \<Rightarrow> SnapshotMetaState \<Rightarrow> 'f world \<Rightarrow> 'f world \<times> (RaftError + 't)" where
  "create_temp_tree V temp_base st w =
     (case new_uuid w of (w, temp_id) \<Rightarrow>
     let temp_path = path_join temp_base (''merge_'' @ temp_id) in
     try_then (map_err_st from_io_error (on_files (fs_create_dir_all (mv_fs V) temp_path) w)) (\<lambda>w _.
     try_then (w, resolve_baseline_checkpoint (mv_fs V) st (files w)) (\<lambda>w baseline.
     on_files (load_baseline_checkpoint_to_tree (mv_kv V) (mv_fs V) baseline temp_path) w)))"

section \<open>Replay\<close>

definition apply_entry_to_tree ::
  "('t, 'x, 'f) merge_env \<Rightarrow> DeltaEntry \<Rightarrow> 't \<Rightarrow> 't \<times> (RaftError + unit)" where
  "apply_entry_to_tree V entry t =
     (case from_bytes (mv_request V) (de_payload entry) of
        Inl e \<Rightarrow> (t, Inl (Serialization (''failed to decode entry: '' @ e)))
      | Inr req \<Rightarrow> (case tree_begin (mv_kv V) t of
          Inl e \<Rightarrow> (t, Inl (from_surrealkv_error e))
        | Inr txn \<Rightarrow> (case (case req of
                Set key value \<Rightarrow> txn_set (mv_kv V) txn (as_bytes key) value
              | Delete key \<Rightarrow> txn_delete (mv_kv V) txn (as_bytes key)) of
              Inl e \<Rightarrow> (t, Inl (from_surrealkv_error e))
            | Inr txn' \<Rightarrow> map_err_st from_surrealkv_error (txn_commit (mv_kv V) t txn'))))"

fun apply_entries :: "('t, 'x, 'f) merge_env \<Rightarrow> DeltaEntry list \<Rightarrow> 't \<Rightarrow> 't \<times> (RaftError + unit)" where
  "apply_entries V [] t = (t, Inr ())"
| "apply_entries V (e # es) t = try_then (apply_entry_to_tree V e t) (\<lambda>t _. apply_entries V es t)"

definition read_delta :: "('t, 'x, 'f) merge_env \<Rightarrow> 'f \<Rightarrow> path \<Rightarrow> RaftError + DeltaEntry list" where
  "read_delta V f p =
     and_then (map_err from_io_error (fs_read (mv_fs V) f p)) (decode_entries (mv_zstd V) (mv_entries V))"

fun replay_deltas :: "('t, 'x, 'f) merge_env \<Rightarrow> 'f \<Rightarrow> DeltaInfo list \<Rightarrow> 't \<Rightarrow> 't \<times> (RaftError + unit)" where
  "replay_deltas V f [] t = (t, Inr ())"
| "replay_deltas V f (delta # ds) t =
     (case di_file_path delta of
        None \<Rightarrow> replay_deltas V f ds t
      | Some p \<Rightarrow>
          try_then (t, read_delta V f p) (\<lambda>t entries.
          try_then (apply_entries V entries t) (\<lambda>t _. replay_deltas V f ds t)))"

section \<open>The backends\<close>

definition create_checkpoint_from_tree ::
  "('t, 'x, 'f) merge_env \<Rightarrow> SnapshotMetaState \<Rightarrow> 't \<times> 'f world \<Rightarrow> ('t \<times> 'f world) \<times> (RaftError + MergeExecution)" where
  "create_checkpoint_from_tree V st s =
     (let (applied_index, trm) =
        (if delta_chain st \<noteq> []
         then (end_index (last (delta_chain st)),
               case last_checkpoint st of None \<Rightarrow> 0 | Some cp \<Rightarrow> checkpoint_term cp)
         else case last_checkpoint st of
             Some cp \<Rightarrow> (checkpoint_index cp, checkpoint_term cp)
           | None \<Rightarrow> (0, 0)) in
      try_then (create (mv_kv V) (mv_fs V) ''target/checkpoints'' applied_index trm s) (\<lambda>s metadata.
      try_then (s, get_checkpoint_size (mv_fs V) metadata (files (snd s))) (\<lambda>s sz.
      (s, Inr \<lparr>me_checkpoint_size_bytes = max sz (total_delta_bytes st),
               me_checkpoint_path = Some (path_join (cm_checkpoint_dir metadata) (dir_name metadata))\<rparr>))))"

definition CheckpointMergeBackend_execute_merge ::
  "('t, 'x, 'f) merge_env \<Rightarrow> path \<Rightarrow> SnapshotMetaState \<Rightarrow> 'f world \<Rightarrow> 'f world \<times> (RaftError + MergeExecution)" where
  "CheckpointMergeBackend_execute_merge V temp_base st w =
     try_then (create_temp_tree V temp_base st w) (\<lambda>w temp_tree.
     case replay_deltas V (files w) (delta_chain st) temp_tree of
       (_, Inl e) \<Rightarrow> (w, Inl e)
     | (temp_tree, Inr _) \<Rightarrow>
         (case create_checkpoint_from_tree V st (temp_tree, w) of ((_, w), r) \<Rightarrow> (w, r)))"

definition MetadataOnlyMergeBackend_execute_merge ::
  "SnapshotMetaState \<Rightarrow> 'w \<Rightarrow> 'w \<times> (RaftError + MergeExecution)" where
  "MetadataOnlyMergeBackend_execute_merge st w =
     (w, Inr \<lparr>me_checkpoint_size_bytes = total_delta_bytes st,
              me_checkpoint_path = Option.bind (last_checkpoint st) checkpoint_path\<rparr>)"

text \<open>The checkpoint backend is the directory below which it puts its temporary trees.\<close>

definition CheckpointMergeBackend_new :: path where
  "CheckpointMergeBackend_new = ''target/tmp/merge''"

definition with_temp_base :: "path \<Rightarrow> path \<Rightarrow> path" where
  "with_temp_base temp_base backend = temp_base"

section \<open>The replay against its specification\<close>

primrec request_effect :: "KVRequest \<Rightarrow> (bytes \<Rightarrow> bytes option) \<Rightarrow> bytes \<Rightarrow> bytes option" where
  "request_effect (Set key value) m = m(as_bytes key := Some value)"
| "request_effect (Delete key) m = m(as_bytes key := None)"

text \<open>The requests of a list of entries, when all of them decode.\<close>

fun requests_of :: "KVRequest codec \<Rightarrow> DeltaEntry list \<Rightarrow> KVRequest list option" where
  "requests_of rc [] = Some []"
| "requests_of rc (e # es) = (case from_bytes rc (de_payload e) of
     Inl _ \<Rightarrow> None | Inr r \<Rightarrow> map_option ((#) r) (requests_of rc es))"

text \<open>The requests of a chain: those of the deltas that have a file, in order.\<close>

fun chain_requests :: "('t, 'x, 'f) merge_env \<Rightarrow> 'f \<Rightarrow> DeltaInfo list \<Rightarrow> KVRequest list option" where
  "chain_requests V f [] = Some []"
| "chain_requests V f (d # ds) = (case di_file_path d of
     None \<Rightarrow> chain_requests V f ds
   | Some p \<Rightarrow> (case read_delta V f p of
       Inl _ \<Rightarrow> None
     | Inr es \<Rightarrow> Option.bind (requests_of (mv_request V) es) (\<lambda>rs.
         map_option (\<lambda>qs. rs @ qs) (chain_requests V f ds))))"

lemma apply_entry_view:
  assumes kv: "surrealkv_ok (mv_kv V) view pend" and run: "apply_entry_to_tree V e t = (t', Inr u)"
  shows "\<exists>r. from_bytes (mv_request V) (de_payload e) = Inr r \<and> view t' = request_effect r (view t)"
proof -
  from run obtain r x x' where r: "from_bytes (mv_request V) (de_payload e) = Inr r"
    and b: "tree_begin (mv_kv V) t = Inr x"
    and w: "(case r of Set key value \<Rightarrow> txn_set (mv_kv V) x (as_bytes key) value
              | Delete key \<Rightarrow> txn_delete (mv_kv V) x (as_bytes key)) = Inr x'"
    and c: "txn_commit (mv_kv V) t x' = (t', Inr u)"
    by (auto simp: apply_entry_to_tree_def split: sum.splits)
  have "view t' = request_effect r (view t)"
    using w by (cases r)
      (auto simp: surrealkv_commit(1) [OF kv c] fun_eq_iff surrealkv_begin(1) [OF kv b]
        dest!: surrealkv_set [OF kv] surrealkv_delete [OF kv])
  with r show ?thesis by blast
qed

lemma apply_entries_view:
  assumes kv: "surrealkv_ok (mv_kv V) view pend" and "apply_entries V es t = (t', Inr u)"
  shows "\<exists>rs. requests_of (mv_request V) es = Some rs \<and> view t' = fold request_effect rs (view t)"
  using assms(2)
proof (induction es arbitrary: t)
  case (Cons e es)
  then obtain t1 v where 1: "apply_entry_to_tree V e t = (t1, Inr v)" and 2: "apply_entries V es t1 = (t', Inr u)"
    by (auto simp: try_then_Inr)
  then show ?case using Cons.IH [OF 2] apply_entry_view [OF kv 1] by auto
qed simp

lemma replay_deltas_view:
  assumes kv: "surrealkv_ok (mv_kv V) view pend" and "replay_deltas V f ds t = (t', Inr u)"
  shows "\<exists>rs. chain_requests V f ds = Some rs \<and> view t' = fold request_effect rs (view t)"
  using assms(2)
proof (induction ds arbitrary: t)
  case (Cons d ds)
  show ?case
  proof (cases "di_file_path d")
    case None
    with Cons show ?thesis by simp
  next
    case (Some p)
    with Cons.prems obtain es t1 v where "read_delta V f p = Inr es"
      and 1: "apply_entries V es t = (t1, Inr v)" and 2: "replay_deltas V f ds t1 = (t', Inr u)"
      by (auto simp: try_then_Inr)
    then show ?thesis using Some Cons.IH [OF 2] apply_entries_view [OF kv 1] by auto
  qed
qed simp

text \<open>
  Claim C14: a checkpoint merge is the baseline plus the chain. When the checkpoint backend
  succeeds, the state names a baseline path; a tree was opened from a copy of it that was made
  under a fresh name; every delta
  of the chain that has a file was read and decoded; the tree checkpointed holds the baseline's
  content with the requests of those deltas applied in order; and the new checkpoint carries
  the end index of the last delta (the old index when there is none) and the old term.
\<close>

theorem checkpoint_merge_replays_chain:
  assumes kv: "surrealkv_ok (mv_kv V) view pend"
    and run: "CheckpointMergeBackend_execute_merge V temp_base st w = (w', Inr exec)"
  shows "\<exists>cp p f f0 tmp w1 base rs t s' meta. last_checkpoint st = Some cp \<and> checkpoint_path cp = Some p \<and>
     tmp = path_join temp_base (''merge_'' @ snd (new_uuid w)) \<and> copy_dir (mv_fs V) PATH_MAX p tmp f = (f0, Inr ()) \<and>
     tree_open (mv_kv V) f0 tmp = (files w1, Inr base) \<and>
     chain_requests V (files w1) (delta_chain st) = Some rs \<and>
     view t = fold request_effect rs (view base) \<and>
     create (mv_kv V) (mv_fs V) ''target/checkpoints''
       (if delta_chain st = [] then checkpoint_index cp else end_index (last (delta_chain st)))
       (checkpoint_term cp) (t, w1) = (s', Inr meta) \<and> w' = snd s' \<and>
     me_checkpoint_path exec = Some (path_join ''target/checkpoints'' (dir_name meta)) \<and>
     total_delta_bytes st \<le> me_checkpoint_size_bytes exec"
proof -
  from run obtain w1 base where tmp: "create_temp_tree V temp_base st w = (w1, Inr base)"
    and rest: "(case replay_deltas V (files w1) (delta_chain st) base of (_, Inl e) \<Rightarrow> (w1, Inl e)
       | (t, Inr _) \<Rightarrow> (case create_checkpoint_from_tree V st (t, w1) of ((_, w), r) \<Rightarrow> (w, r))) = (w', Inr exec)"
    unfolding CheckpointMergeBackend_execute_merge_def try_then_Inr by blast
  obtain t q where rep': "replay_deltas V (files w1) (delta_chain st) base = (t, q)" by fastforce
  obtain s1 r where cr': "create_checkpoint_from_tree V st (t, w1) = (s1, r)" by fastforce
  obtain u where rep: "replay_deltas V (files w1) (delta_chain st) base = (t, Inr u)"
    and cr: "create_checkpoint_from_tree V st (t, w1) = (s1, Inr exec)" and w': "w' = snd s1"
    using rest rep' cr' by (cases q; cases s1) auto
  from tmp obtain cp p f f0 tp where cp: "last_checkpoint st = Some cp" "checkpoint_path cp = Some p"
    and tp: "tp = path_join temp_base (''merge_'' @ snd (new_uuid w))" "copy_dir (mv_fs V) PATH_MAX p tp f = (f0, Inr ())"
    and op: "tree_open (mv_kv V) f0 tp = (files w1, Inr base)"
    by (auto simp: create_temp_tree_def Let_def try_then_Inr on_files_eq load_baseline_checkpoint_to_tree_def
        resolve_baseline_checkpoint_def and_then_Inr split: prod.splits if_splits)
  obtain rs where rs: "chain_requests V (files w1) (delta_chain st) = Some rs" "view t = fold request_effect rs (view base)"
    using replay_deltas_view [OF kv rep] by blast
  obtain meta where new: "create (mv_kv V) (mv_fs V) ''target/checkpoints''
       (if delta_chain st = [] then checkpoint_index cp else end_index (last (delta_chain st)))
       (checkpoint_term cp) (t, w1) = (s1, Inr meta)"
    and path: "me_checkpoint_path exec = Some (path_join (cm_checkpoint_dir meta) (dir_name meta))"
    and size: "total_delta_bytes st \<le> me_checkpoint_size_bytes exec"
    using cr cp(1) by (auto simp: create_checkpoint_from_tree_def try_then_Inr split: if_splits)
  from new have "cm_checkpoint_dir meta = ''target/checkpoints''" by (rule create_Inr) simp
  with path have "me_checkpoint_path exec = Some (path_join ''target/checkpoints'' (dir_name meta))" by simp
  with cp tp op rs new w' size show ?thesis by blast
qed

definition sample_merge_env :: "(mem_tree, mem_txn, mem_files) merge_env" where
  "sample_merge_env = \<lparr>mv_kv = mem_kv, mv_fs = mem_fs, mv_zstd = stored_zstd,
     mv_entries = table_codec [sample_entries],
     mv_request = \<lparr>to_stdvec = (\<lambda>_. Inl ''''), from_bytes = (\<lambda>b. if b = [3] then Inr (Delete ''b'') else Inr (Set ''a'' b))\<rparr>\<rparr>"

definition sample_merge_state :: SnapshotMetaState where
  "sample_merge_state = \<lparr>last_checkpoint = Some (with_checkpoint_path ''base'' (PersistedCheckpointMetadata_new 9 1 7 5)),
     delta_chain = [DeltaInfo_with_file_path ''delta'' (DeltaInfo_new 10 11 3 5)], total_delta_bytes = 3\<rparr>"

definition sample_merge_files :: mem_files where
  "sample_merge_files = [(''base'', DirNode), (''delta'', FileNode (40 # be_encode 2 0))]"

abbreviation sample_merge_world :: "nat \<Rightarrow> mem_files world" where
  "sample_merge_world n \<equiv> (mem_world sample_merge_files (\<lambda>_. 5))\<lparr>ticks := n\<rparr>"

abbreviation sample_temp_files :: mem_files where
  "sample_temp_files \<equiv> (''tmp/merge_0'', DirNode) # sample_merge_files"

lemma sample_temp_tree:
  "create_temp_tree sample_merge_env ''tmp'' sample_merge_state (sample_merge_world n) =
     ((mem_world sample_temp_files (\<lambda>_. 5))\<lparr>ticks := n, uuids := 1\<rparr>, Inr (\<lambda>_. None))"
proof -
  have cd: "copy_dir mem_fs PATH_MAX src dst f = copy_dir mem_fs (Suc 4095) src dst f" for src dst f by simp
  have rd: "fs_read_dir mem_fs sample_temp_files ''base'' = Inr []"
    by (simp add: mem_fs_def child_of_def sample_merge_files_def)
  have cp: "copy_dir mem_fs PATH_MAX ''base'' ''tmp/merge_0'' sample_temp_files = (sample_temp_files, Inr ())"
    unfolding cd copy_dir.simps using rd by simp
  have base: "map_of sample_merge_files ''base'' = Some DirNode" "map_of sample_merge_files ''tmp/merge_0'' = None"
    by (simp_all add: sample_merge_files_def)
  show ?thesis
    using cp base
    by (simp add: create_temp_tree_def load_baseline_checkpoint_to_tree_def sample_merge_env_def sample_merge_state_def
        mem_world_def new_uuid_def path_join_def on_files_def resolve_baseline_checkpoint_def with_checkpoint_path_def
        PersistedCheckpointMetadata_new_def show_digits)
qed

lemma sample_replay:
  "\<exists>t. replay_deltas sample_merge_env sample_temp_files (delta_chain sample_merge_state) (\<lambda>_. None) = (t, Inr ())"
proof -
  have "fs_read mem_fs sample_temp_files ''delta'' = Inr (40 # be_encode 2 0)"
    by (simp add: sample_merge_files_def del: be_encode.simps)
  then show ?thesis
    by (simp add: sample_merge_env_def sample_merge_state_def read_delta_def decode_entries_def stored_zstd_def
      DeltaInfo_with_file_path_def DeltaInfo_new_def table_codec_def be_decode_encode sample_entries_def
      apply_entry_to_tree_def DeltaEntry_new_def del: be_encode.simps mem_fs_simps)
qed

abbreviation sample_merged_files :: mem_files where
  "sample_merged_files \<equiv>
     (''target/checkpoints/checkpoint_5/CHECKPOINT_METADATA'',
        FileNode (to_be_bytes_u32 1 @ to_be_bytes_u64 5 @ to_be_bytes_u64 7)) #
     (''target/checkpoints/checkpoint_5'', DirNode) # (''target/checkpoints'', DirNode) # sample_temp_files"

lemma sample_new_checkpoint:
  "\<exists>t' w'. create_checkpoint_from_tree sample_merge_env sample_merge_state
       (t, (mem_world sample_temp_files (\<lambda>_. 5))\<lparr>ticks := n, uuids := 1\<rparr>) =
     ((t', w'), Inr \<lparr>me_checkpoint_size_bytes = 20, me_checkpoint_path = Some ''target/checkpoints/checkpoint_5''\<rparr>) \<and>
     files w' = sample_merged_files"
proof -
  have env: "mv_kv sample_merge_env = mem_kv" "mv_fs sample_merge_env = mem_fs"
    by (simp_all add: sample_merge_env_def)
  have size: "get_checkpoint_size mem_fs \<lparr>cm_applied_index = a, cm_term = b, cm_sequence_number = c, cm_timestamp = 5,
      cm_crc32 = d, cm_checkpoint_dir = ''target/checkpoints'', cm_compressed_size = e\<rparr> sample_merged_files = Inr 20"
    for a b c d e
    by (simp add: get_checkpoint_size_def dir_name_def path_join_def show_digits sample_merge_files_def)
      (simp add: mem_fs_def child_of_def node_meta_def)
  have other: "map_of sample_merge_files ''target/checkpoints'' = None"
    "map_of sample_merge_files ''target/checkpoints/checkpoint_5'' = None"
    "map_of sample_merge_files ''target/checkpoints/checkpoint_5/CHECKPOINT_METADATA'' = None"
    "filter (\<lambda>(q, n). q \<noteq> ''target/checkpoints/checkpoint_5/CHECKPOINT_METADATA'') sample_merge_files = sample_merge_files"
    by (simp_all add: sample_merge_files_def del: be_encode.simps)
  show ?thesis
    using size other
    by (simp add: create_checkpoint_from_tree_def env sample_merge_state_def create_def mem_world_def on_files_def
        CheckpointMetadata_new_eq Let_def path_join_def show_digits
        dir_name_def resolve_sequence_number_def write_sequence_number_dual_def write_sequence_number_def
        now_secs_def system_time_def with_compressed_size_def)
qed

lemma sample_execute:
  "\<exists>w'. CheckpointMergeBackend_execute_merge sample_merge_env ''tmp'' sample_merge_state (sample_merge_world n) =
     (w', Inr \<lparr>me_checkpoint_size_bytes = 20, me_checkpoint_path = Some ''target/checkpoints/checkpoint_5''\<rparr>) \<and>
     files w' = sample_merged_files"
proof -
  obtain t where "replay_deltas sample_merge_env sample_temp_files (delta_chain sample_merge_state) (\<lambda>_. None) = (t, Inr ())"
    using sample_replay by blast
  then show ?thesis
    using sample_new_checkpoint [of t n]
    by (auto simp: CheckpointMergeBackend_execute_merge_def sample_temp_tree) (auto simp: mem_world_def)
qed

theorem checkpoint_merge_replays_chain_witness:
  "\<exists>w' exec rs f t. CheckpointMergeBackend_execute_merge sample_merge_env ''tmp'' sample_merge_state
      (sample_merge_world 0) = (w', Inr exec) \<and> 3 \<le> me_checkpoint_size_bytes exec \<and>
    chain_requests sample_merge_env f (delta_chain sample_merge_state) = Some rs \<and>
    t = fold request_effect rs (\<lambda>_. None)"
proof -
  obtain w' exec where run: "CheckpointMergeBackend_execute_merge sample_merge_env ''tmp'' sample_merge_state
      (sample_merge_world 0) = (w', Inr exec)"
    using sample_execute by blast
  have ok: "surrealkv_ok (mv_kv sample_merge_env) (\<lambda>t. t) snd" by (simp add: sample_merge_env_def mem_kv_ok)
  have "total_delta_bytes sample_merge_state = 3" by (simp add: sample_merge_state_def)
  then show ?thesis
    using run checkpoint_merge_replays_chain [OF ok run] by auto
qed

section \<open>Cumulative deltas\<close>

text \<open>
  The deltas of a chain all start after the checkpoint, so each contains the entries of the one
  before it. Replaying a request list twice is the same as replaying it once, because the last
  request on a key decides its value.
\<close>

fun last_write :: "bytes \<Rightarrow> KVRequest list \<Rightarrow> bytes option option" where
  "last_write k [] = None"
| "last_write k (r # rs) = (case last_write k rs of
     Some v \<Rightarrow> Some v
   | None \<Rightarrow> (case r of
       Set key value \<Rightarrow> if as_bytes key = k then Some (Some value) else None
     | Delete key \<Rightarrow> if as_bytes key = k then Some None else None))"

lemma fold_request_effect:
  "fold request_effect rs m k = (case last_write k rs of None \<Rightarrow> m k | Some v \<Rightarrow> v)"
proof (induction rs arbitrary: m)
  case (Cons r rs)
  show ?case by (cases r) (auto simp: Cons split: option.splits)
qed simp

lemma replay_twice: "fold request_effect rs (fold request_effect rs m) = fold request_effect rs m"
  by (rule ext) (simp add: fold_request_effect split: option.splits)

fun cumulative :: "KVRequest list list \<Rightarrow> bool" where
  "cumulative (a # b # rest) = ((\<exists>c. b = a @ c) \<and> cumulative (b # rest))"
| "cumulative _ = True"

lemma replay_cumulative:
  "cumulative (rs # rss) \<Longrightarrow>
   fold request_effect (concat (rs # rss)) m = fold request_effect (last (rs # rss)) m"
proof (induction rss arbitrary: rs)
  case (Cons qs rss)
  then obtain c where qs: "qs = rs @ c" and cum: "cumulative (qs # rss)" by auto
  have "fold request_effect (concat (rs # qs # rss)) m =
      fold request_effect (concat rss) (fold request_effect c (fold request_effect rs (fold request_effect rs m)))"
    by (simp add: qs)
  also have "\<dots> = fold request_effect (concat (qs # rss)) m"
    by (simp add: qs replay_twice)
  also have "\<dots> = fold request_effect (last (qs # rss)) m" using Cons.IH [OF cum] .
  finally show ?case by simp
qed simp

text \<open>The request lists of the deltas of a chain that have a file.\<close>

fun delta_requests :: "('t, 'x, 'f) merge_env \<Rightarrow> 'f \<Rightarrow> DeltaInfo list \<Rightarrow> KVRequest list list option" where
  "delta_requests V f [] = Some []"
| "delta_requests V f (d # ds) = (case di_file_path d of
     None \<Rightarrow> delta_requests V f ds
   | Some p \<Rightarrow> (case read_delta V f p of
       Inl _ \<Rightarrow> None
     | Inr es \<Rightarrow> Option.bind (requests_of (mv_request V) es) (\<lambda>rs.
         map_option (\<lambda>rss. rs # rss) (delta_requests V f ds))))"

lemma chain_requests_concat: "chain_requests V f ds = map_option concat (delta_requests V f ds)"
proof (induction ds)
  case (Cons d ds)
  show ?case
  proof (cases "di_file_path d")
    case (Some p)
    then show ?thesis using Cons
      by (cases "read_delta V f p") (auto simp: map_option_case split: option.splits bind_splits)
  qed (use Cons in simp)
qed simp

text \<open>
  Overlapping deltas are merged correctly. When each delta of a chain repeats the
  requests of the one before it, as the deltas of one checkpoint do, replaying the whole chain
  leaves the tree with the content that replaying the last delta alone would give.
\<close>

lemma cumulative_chain_merges_to_last:
  assumes "surrealkv_ok (mv_kv V) view pend" and "replay_deltas V f ds t = (t', Inr u)"
    and "delta_requests V f ds = Some rss" and "cumulative rss" and "rss \<noteq> []"
  shows "view t' = fold request_effect (last rss) (view t)"
proof -
  have "chain_requests V f ds = Some (concat rss)" using assms(3) by (simp add: chain_requests_concat)
  then have "view t' = fold request_effect (concat rss) (view t)"
    using replay_deltas_view [OF assms(1,2)] by auto
  with assms(4,5) show ?thesis using replay_cumulative by (cases rss) auto
qed

lemma cumulative_chain_merges_to_last_witness:
  "\<exists>t rss. replay_deltas sample_merge_env sample_temp_files (delta_chain sample_merge_state) (\<lambda>_. None) = (t, Inr ()) \<and>
     delta_requests sample_merge_env sample_temp_files (delta_chain sample_merge_state) = Some rss \<and>
     t = fold request_effect (last rss) (\<lambda>_. None)"
proof -
  obtain t where run: "replay_deltas sample_merge_env sample_temp_files (delta_chain sample_merge_state) (\<lambda>_. None) = (t, Inr ())"
    using sample_replay by blast
  have ok: "surrealkv_ok (mv_kv sample_merge_env) (\<lambda>t. t) snd" by (simp add: sample_merge_env_def mem_kv_ok)
  have rd: "fs_read mem_fs sample_temp_files ''delta'' = Inr (40 # be_encode 2 0)"
    by (simp add: sample_merge_files_def del: be_encode.simps)
  have rss: "delta_requests sample_merge_env sample_temp_files (delta_chain sample_merge_state) =
      Some [[Set ''a'' [1, 2], Delete ''b'']]"
    using rd by (simp add: sample_merge_env_def sample_merge_state_def read_delta_def decode_entries_def stored_zstd_def
      DeltaInfo_with_file_path_def DeltaInfo_new_def table_codec_def be_decode_encode sample_entries_def
      DeltaEntry_new_def del: be_encode.simps mem_fs_simps)
  show ?thesis
    using run rss cumulative_chain_merges_to_last [OF ok run rss] by auto
qed

end
