(* ===== verification/Merge_Executor.thy ===== *)
theory Merge_Executor
  imports Merge_Backend
begin

text \<open>
  \<open>src/merge/executor.rs\<close>: the background task that merges the delta chain, with bounded
  retries, recording its progress and its result in the metadata. The state is the metadata
  manager together with the world. The trait \<open>MergeBackend\<close> is the interface
  \<open>merge_backend\<close>; the two backends of the program interpret it. A backend works on the whole
  state, so that what other tasks do to the metadata while the task awaits the backend can be
  expressed as well. Metrics calls have no effect on this state and are left out.
\<close>

section \<open>Data\<close>

record MergeTaskResult =
  mr_merged :: bool
  mr_trigger :: "MergeTrigger option"
  mr_retries :: u8
  mr_checkpoint_size_bytes :: u64
  mr_cleanup_report :: CleanupReport

definition merge_error_code :: "RaftError \<Rightarrow> string" where
  "merge_error_code err =
     (case err of
        Snapshot msg \<Rightarrow>
          (let s = trim (takeWhile (\<lambda>c. c \<noteq> CHR '':'') msg) in if s \<noteq> [] then s else MERGE_ERR_UNKNOWN)
      | _ \<Rightarrow> MERGE_ERR_UNKNOWN)"

definition build_merged_snapshot_state ::
  "SnapshotMetaState \<Rightarrow> u64 \<Rightarrow> string option \<Rightarrow> SnapshotMetaState" where
  "build_merged_snapshot_state st now cp_path =
     st\<lparr>last_checkpoint := map_option (\<lambda>cp.
          cp\<lparr>sequence_number := saturating_add (sequence_number cp) 1,
             cp_created_at := now,
             checkpoint_path := (case cp_path of
                 Some p \<Rightarrow> Some p
               | None \<Rightarrow> Some (''target/checkpoints/checkpoint_'' @ show_u64 now)),
             checkpoint_index := (if delta_chain st = [] then checkpoint_index cp
                else end_index (last (delta_chain st)))\<rparr>) (last_checkpoint st),
        delta_chain := [], total_delta_bytes := 0\<rparr>"

type_synonym ('t, 'f) merge_state = "'t MetadataManager \<times> 'f world"

record ('t, 'f) MergeExecutor =
  ex_backend :: "SnapshotMetaState \<Rightarrow> ('t, 'f) merge_state \<Rightarrow> ('t, 'f) merge_state \<times> (RaftError + MergeExecution)"
  ex_cleanup :: MergeCleanupConfig
  ex_policy :: DeltaMergePolicy
  ex_max_retries :: u8

definition MergeExecutor_new :: "DeltaMergePolicy \<Rightarrow> MergeCleanupConfig \<Rightarrow> ('t, 'f) MergeExecutor" where
  "MergeExecutor_new policy cleanup = \<lparr>ex_backend = MetadataOnlyMergeBackend_execute_merge,
     ex_cleanup = cleanup, ex_policy = policy, ex_max_retries = 3\<rparr>"

definition with_max_retries :: "u8 \<Rightarrow> ('t, 'f) MergeExecutor \<Rightarrow> ('t, 'f) MergeExecutor" where
  "with_max_retries n x = x\<lparr>ex_max_retries := max n 1\<rparr>"

definition with_backend ::
  "(SnapshotMetaState \<Rightarrow> ('t, 'f) merge_state \<Rightarrow> ('t, 'f) merge_state \<times> (RaftError + MergeExecution)) \<Rightarrow>
   ('t, 'f) MergeExecutor \<Rightarrow> ('t, 'f) MergeExecutor" where
  "with_backend b x = x\<lparr>ex_backend := b\<rparr>"

definition should_spawn ::
  "('t, 'f) MergeExecutor \<Rightarrow> ('t, 'f) merge_state \<Rightarrow> ('t, 'f) merge_state \<times> (RaftError + MergeTrigger option)" where
  "should_spawn x s =
     (case on_world now_secs s of (s', now) \<Rightarrow> (s', Inr (evaluate (ex_policy x) (snapshot_state (fst s)) now)))"

section \<open>The loop\<close>

lemma unat_next_attempt: "(before :: u8) < 255 \<Longrightarrow> unat (saturating_add before 1) = Suc (unat before)"
  by (simp add: unat_saturating_add word_less_nat_alt)

lemma attempt_progress: "\<not> maxr \<le> saturating_add before 1 \<Longrightarrow> (before :: u8) < 255"
proof (rule ccontr)
  assume not: "\<not> maxr \<le> saturating_add before 1" and "\<not> before < 255"
  then have "unat before \<ge> 255" by (simp add: word_less_nat_alt not_less)
  then have "unat (saturating_add before 1) = 255" by (simp add: unat_saturating_add)
  moreover have "unat maxr < 2 ^ 8" using unsigned_less [of maxr] by simp
  ultimately have "maxr \<le> saturating_add before 1" by (simp add: word_le_nat_alt)
  with not show False by simp
qed

text \<open>One turn of the loop from a count of attempts made so far, then the next.\<close>

function merge_attempts ::
  "('t, 'x, 'f) surrealkv \<Rightarrow> meta_codecs \<Rightarrow> 'f filesystem \<Rightarrow>
   (SnapshotMetaState \<Rightarrow> ('t, 'f) merge_state \<Rightarrow> ('t, 'f) merge_state \<times> (RaftError + MergeExecution)) \<Rightarrow>
   MergeCleanupConfig \<Rightarrow> MergeTrigger \<Rightarrow> u8 \<Rightarrow> u64 \<Rightarrow> u8 \<Rightarrow> ('t, 'f) merge_state \<Rightarrow>
   ('t, 'f) merge_state \<times> (RaftError + MergeTaskResult)" where
  "merge_attempts kv mc fs backend cleanup trigger maxr started before s =
     (let retries = saturating_add before 1; reason = MergeTrigger_as_str trigger in
      case on_kv (save_merge_progress_state kv mc (MergeProgressState_started reason retries maxr started)) s of
        (s, Inl e) \<Rightarrow> (s, Inl e)
      | (s, Inr _) \<Rightarrow>
        (let st = snapshot_state (fst s) in
         case backend st s of
           (s, Inr exec) \<Rightarrow>
             (let merged_state = build_merged_snapshot_state st started (me_checkpoint_path exec);
                  progress = MergeProgressState_succeeded reason retries maxr started in
              try_then (on_kv (save_snapshot_and_merge_state kv mc merged_state progress) s) (\<lambda>s _.
              try_then (on_world (cleanup_run fs cleanup merged_state (Some started)) s) (\<lambda>s report.
              (s, Inr \<lparr>mr_merged = True, mr_trigger = Some trigger, mr_retries = retries,
                       mr_checkpoint_size_bytes = me_checkpoint_size_bytes exec,
                       mr_cleanup_report = report\<rparr>))))
         | (s, Inl err) \<Rightarrow>
             if retries \<ge> maxr
             then try_then (on_kv (save_merge_progress_state kv mc
                      (MergeProgressState_failed reason retries maxr started (display_RaftError err))) s) (\<lambda>s _.
                  (s, Inl (Snapshot (merge_error_code err @ '': merge failed after '' @ show_u64 retries @
                     '' retries: '' @ display_RaftError err))))
             else merge_attempts kv mc fs backend cleanup trigger maxr started retries s))"
  by pat_completeness auto

termination
proof (relation "measure (\<lambda>(kv, mc, fs, b, c, t, m, st, before, s). 255 - unat before)", goal_cases)
  case (2 kv mc fs b c t maxr st before s retries)
  then have "before < 255" by (auto dest: attempt_progress)
  then have "unat before < 255" "unat (saturating_add before 1) = Suc (unat before)"
    by (simp_all add: unat_next_attempt word_less_nat_alt)
  with 2 show ?case by simp
qed simp

declare merge_attempts.simps [simp del]

definition run_merge_loop ::
  "('t, 'x, 'f) surrealkv \<Rightarrow> meta_codecs \<Rightarrow> 'f filesystem \<Rightarrow>
   (SnapshotMetaState \<Rightarrow> ('t, 'f) merge_state \<Rightarrow> ('t, 'f) merge_state \<times> (RaftError + MergeExecution)) \<Rightarrow>
   MergeCleanupConfig \<Rightarrow> MergeTrigger \<Rightarrow> u8 \<Rightarrow> ('t, 'f) merge_state \<Rightarrow>
   ('t, 'f) merge_state \<times> (RaftError + MergeTaskResult)" where
  "run_merge_loop kv mc fs backend cleanup trigger maxr s =
     (case on_world now_secs s of (s, started) \<Rightarrow>
      merge_attempts kv mc fs backend cleanup trigger maxr started 0 s)"

text \<open>
  \<open>spawn_if_needed\<close>: the task it spawns is the loop with the captured arguments, to be run by
  the scheduler; \<open>None\<close> when no merge is due.
\<close>

definition spawn_if_needed ::
  "('t, 'x, 'f) surrealkv \<Rightarrow> meta_codecs \<Rightarrow> 'f filesystem \<Rightarrow> ('t, 'f) MergeExecutor \<Rightarrow> ('t, 'f) merge_state \<Rightarrow>
   ('t, 'f) merge_state \<times> (RaftError + (MergeTrigger \<times>
     (('t, 'f) merge_state \<Rightarrow> ('t, 'f) merge_state \<times> (RaftError + MergeTaskResult))) option)" where
  "spawn_if_needed kv mc fs x s =
     try_then (should_spawn x s) (\<lambda>s trigger.
     (s, Inr (map_option (\<lambda>t. (t, run_merge_loop kv mc fs (ex_backend x) (ex_cleanup x) t (ex_max_retries x))) trigger)))"

section \<open>What an attempt does\<close>

lemma save_progress_frame:
  assumes "save_merge_progress_state kv mc p m = (m', r)"
  shows "snapshot_state m' = snapshot_state m" "voting_state m' = voting_state m" "applied_state m' = applied_state m"
  using assms
  by (auto simp: save_merge_progress_state_def save_slot_def on_tree_eq try_then_def split: sum.splits prod.splits)

lemma save_both_frame:
  assumes "save_snapshot_and_merge_state kv mc st p m = (m', r)"
  shows "snapshot_state m' = (if isl r then snapshot_state m else st)"
    "voting_state m' = voting_state m" "applied_state m' = applied_state m"
  using assms
  by (auto simp: save_snapshot_and_merge_state_def on_tree_eq try_then_def split: sum.splits prod.splits)
    (metis sum.disc(1))

lemma merge_attempts_cases:
  assumes "merge_attempts kv mc fs b c tr maxr started before s = (s', r)"
  obtains (progress_failed) e where
      "on_kv (save_merge_progress_state kv mc (MergeProgressState_started (MergeTrigger_as_str tr)
         (saturating_add before 1) maxr started)) s = (s', Inl e)" "r = Inl e"
    | (merged) s1 u s2 exec where
      "on_kv (save_merge_progress_state kv mc (MergeProgressState_started (MergeTrigger_as_str tr)
         (saturating_add before 1) maxr started)) s = (s1, Inr u)"
      "b (snapshot_state (fst s1)) s1 = (s2, Inr exec)"
      "try_then (on_kv (save_snapshot_and_merge_state kv mc
           (build_merged_snapshot_state (snapshot_state (fst s1)) started (me_checkpoint_path exec))
           (MergeProgressState_succeeded (MergeTrigger_as_str tr) (saturating_add before 1) maxr started)) s2) (\<lambda>s _.
         try_then (on_world (cleanup_run fs c (build_merged_snapshot_state (snapshot_state (fst s1)) started
             (me_checkpoint_path exec)) (Some started)) s) (\<lambda>s report.
         (s, Inr \<lparr>mr_merged = True, mr_trigger = Some tr, mr_retries = saturating_add before 1,
            mr_checkpoint_size_bytes = me_checkpoint_size_bytes exec, mr_cleanup_report = report\<rparr>))) = (s', r)"
    | (gave_up) s1 u s2 err where
      "on_kv (save_merge_progress_state kv mc (MergeProgressState_started (MergeTrigger_as_str tr)
         (saturating_add before 1) maxr started)) s = (s1, Inr u)"
      "b (snapshot_state (fst s1)) s1 = (s2, Inl err)" "maxr \<le> saturating_add before 1"
      "try_then (on_kv (save_merge_progress_state kv mc (MergeProgressState_failed (MergeTrigger_as_str tr)
         (saturating_add before 1) maxr started (display_RaftError err))) s2) (\<lambda>s _.
         (s, Inl (Snapshot (merge_error_code err @ '': merge failed after '' @ show_u64 (saturating_add before 1) @
                     '' retries: '' @ display_RaftError err)))) = (s', r)"
    | (retried) s1 u s2 err where
      "on_kv (save_merge_progress_state kv mc (MergeProgressState_started (MergeTrigger_as_str tr)
         (saturating_add before 1) maxr started)) s = (s1, Inr u)"
      "b (snapshot_state (fst s1)) s1 = (s2, Inl err)" "\<not> maxr \<le> saturating_add before 1"
      "merge_attempts kv mc fs b c tr maxr started (saturating_add before 1) s2 = (s', r)"
proof -
  obtain s1 q where 1: "on_kv (save_merge_progress_state kv mc (MergeProgressState_started (MergeTrigger_as_str tr)
         (saturating_add before 1) maxr started)) s = (s1, q)" by fastforce
  obtain s2 x where 2: "b (snapshot_state (fst s1)) s1 = (s2, x)" by fastforce
  show thesis
  proof (cases q)
    case (Inl e)
    then show ?thesis using assms 1 by (intro progress_failed) (auto simp: merge_attempts.simps [of kv])
  next
    case q: (Inr u)
    show ?thesis
    proof (cases x)
      case (Inr exec)
      then show ?thesis using assms 1 2 q
        by (intro merged) (auto simp: merge_attempts.simps [of kv mc fs b c tr maxr started before] Let_def)
    next
      case (Inl err)
      then show ?thesis using assms 1 2 q
        by (cases "maxr \<le> saturating_add before 1")
          (auto simp: merge_attempts.simps [of kv mc fs b c tr maxr started before] Let_def intro: gave_up retried)
    qed
  qed
qed

lemma cleanup_of_merged:
  assumes "cleanup_run fs c (build_merged_snapshot_state st now p) (Some started) w = (w', Inr report)"
  shows "removed_delta_files report = 0"
  using assms by (auto simp: cleanup_run_def try_then_Inr cleanup_delta_files_def build_merged_snapshot_state_def on_files_def)

section \<open>The contract of a backend\<close>

text \<open>A backend reads the snapshot state it is given and leaves the metadata alone.\<close>

locale merge_backend =
  fixes execute :: "SnapshotMetaState \<Rightarrow> ('t, 'f) merge_state \<Rightarrow> ('t, 'f) merge_state \<times> (RaftError + MergeExecution)"
  assumes execute_frame: "execute st s = (s', r) \<Longrightarrow> fst s' = fst s"
begin

definition outcome ::
  "('t \<Rightarrow> bytes \<Rightarrow> bytes option) \<Rightarrow> meta_codecs \<Rightarrow> u64 \<Rightarrow> u8 \<Rightarrow> ('t, 'f) merge_state \<Rightarrow> ('t, 'f) merge_state \<Rightarrow>
   RaftError + MergeTaskResult \<Rightarrow> bool" where
  "outcome view mc started bound s s' r \<longleftrightarrow>
     synced view mc (fst s') \<and> voting_state (fst s') = voting_state (fst s) \<and>
     applied_state (fst s') = applied_state (fst s) \<and>
     (isl r \<and> snapshot_state (fst s') = snapshot_state (fst s) \<or>
      (\<exists>p. snapshot_state (fst s') = build_merged_snapshot_state (snapshot_state (fst s)) started p)) \<and>
     (\<forall>res. r = Inr res \<longrightarrow> unat (mr_retries res) \<le> unat bound \<and> 0 < unat (mr_retries res) \<and>
        removed_delta_files (mr_cleanup_report res) = 0)"

lemma started_step:
  assumes env: "env_ok kv view pend mc" and sy: "synced view mc (fst s)"
    and run: "on_kv (save_merge_progress_state kv mc p) s = (s1, q)"
  shows "synced view mc (fst s1)" "snapshot_state (fst s1) = snapshot_state (fst s)"
    "voting_state (fst s1) = voting_state (fst s)" "applied_state (fst s1) = applied_state (fst s)"
  using save_slot_synced(4) [OF env sy, of p] run save_progress_frame [of kv mc p "fst s" "fst s1" q]
  by (auto simp: on_kv_iff)

lemma merged_outcome:
  assumes env: "env_ok kv view pend mc" and sy: "synced view mc (fst s2)"
    and run: "try_then (on_kv (save_snapshot_and_merge_state kv mc
           (build_merged_snapshot_state (snapshot_state (fst s1)) started (me_checkpoint_path exec)) p) s2) (\<lambda>s _.
         try_then (on_world (cleanup_run fs c (build_merged_snapshot_state (snapshot_state (fst s1)) started
             (me_checkpoint_path exec)) (Some started)) s) (\<lambda>s report.
         (s, Inr \<lparr>mr_merged = True, mr_trigger = Some tr, mr_retries = n,
            mr_checkpoint_size_bytes = me_checkpoint_size_bytes exec, mr_cleanup_report = report\<rparr>))) = (s', r)"
    and same: "fst s2 = fst s1" "snapshot_state (fst s1) = snapshot_state (fst s)"
      "voting_state (fst s1) = voting_state (fst s)" "applied_state (fst s1) = applied_state (fst s)"
    and n: "unat n \<le> unat bound" "0 < unat n"
  shows "outcome view mc started bound s s' r"
proof -
  let ?st = "build_merged_snapshot_state (snapshot_state (fst s1)) started (me_checkpoint_path exec)"
  obtain s3 q where 3: "on_kv (save_snapshot_and_merge_state kv mc ?st p) s2 = (s3, q)" by fastforce
  then have m3: "save_snapshot_and_merge_state kv mc ?st p (fst s2) = (fst s3, q)" by (auto simp: on_kv_iff)
  have sy3: "synced view mc (fst s3)" using save_both_synced [OF env sy, of ?st p] m3 by simp
  note f3 = save_both_frame [OF m3]
  show ?thesis
  proof (cases q)
    case (Inl e)
    then show ?thesis using run 3 sy3 f3 same by (auto simp: outcome_def)
  next
    case (Inr v)
    obtain s4 x where 4: "on_world (cleanup_run fs c ?st (Some started)) s3 = (s4, x)" by fastforce
    have "fst s4 = fst s3" using 4 by (auto simp: on_world_iff)
    moreover have "x = Inr rep \<Longrightarrow> removed_delta_files rep = 0" for rep
      using 4 cleanup_of_merged by (auto simp: on_world_iff)
    ultimately show ?thesis
      using run 3 4 sy3 f3 same n Inr by (cases x) (auto simp: outcome_def)
  qed
qed

lemma attempts_outcome:
  assumes env: "env_ok kv view pend mc" and "synced view mc (fst s)"
    and "merge_attempts kv mc fs execute c tr maxr started before s = (s', r)" and "before < 255"
  shows "outcome view mc started (max maxr (before + 1)) s s' r"
  using assms(2-)
proof (induction "255 - unat before" arbitrary: before s rule: less_induct)
  case less
  have next_attempt: "saturating_add before 1 = before + 1" "0 < unat (before + 1)"
    using less.prems(3) by (simp_all add: saturating_add_def word_less_nat_alt unat_word_ariths)
  note step = started_step [OF env less.prems(1)]
  from less.prems(2) show ?case
  proof (cases rule: merge_attempts_cases)
    case (progress_failed e)
    then show ?thesis using step [OF progress_failed(1)] by (simp add: outcome_def)
  next
    case (merged s1 u s2 exec)
    show ?thesis
      using merged_outcome [OF env _ merged(3), of s] step [OF merged(1)] execute_frame [OF merged(2)] next_attempt
      by (auto simp: word_le_nat_alt max_def)
  next
    case (gave_up s1 u s2 err)
    note s1 = step [OF gave_up(1)] and fr = execute_frame [OF gave_up(2)]
    let ?p = "MergeProgressState_failed (MergeTrigger_as_str tr) (saturating_add before 1) maxr started (display_RaftError err)"
    obtain s3 q where 3: "on_kv (save_merge_progress_state kv mc ?p) s2 = (s3, q)" by fastforce
    have "synced view mc (fst s2)" using s1 fr by simp
    note s3 = started_step [OF env this 3]
    have "s' = s3" "isl r" using gave_up(4) 3 by (cases q; auto)+
    then show ?thesis using s1 s3 fr by (auto simp: outcome_def)
  next
    case (retried s1 u s2 err)
    note s1 = step [OF retried(1)] and fr = execute_frame [OF retried(2)]
    have lt: "before + 1 < maxr" using retried(3) next_attempt by (simp add: not_le)
    moreover have "maxr \<le> 255" using unsigned_less [of maxr, where ?'a = nat] by (simp add: word_le_nat_alt)
    ultimately have lt': "before + 1 < 255" by simp
    have "outcome view mc started (max maxr (before + 1 + 1)) s2 s' r"
      using less.hyps [of "before + 1" s2] retried(4) s1 fr lt' less.prems(3) next_attempt
      by (simp add: word_less_nat_alt unat_word_ariths)
    moreover have "max maxr (before + 1 + 1) = max maxr (before + 1)"
      using lt inc_le [OF lt] by (simp add: max_absorb1)
    ultimately show ?thesis using s1 fr by (auto simp: outcome_def)
  qed
qed

text \<open>A task writes the tree under the keys of the snapshot state and of the merge progress only.\<close>

lemma attempts_keys:
  assumes kv: "surrealkv_ok kv view pend" and k: "k \<notin> {key_snapshot, key_progress}"
    and "merge_attempts kv mc fs execute c tr maxr started before s = (s', r)" and "before < 255"
  shows "view (tree (fst s')) k = view (tree (fst s)) k"
  using assms(3-)
proof (induction "255 - unat before" arbitrary: before s rule: less_induct)
  case less
  have progress: "view (tree (fst s2)) k = view (tree (fst s1)) k" if "on_kv (save_merge_progress_state kv mc p) s1 = (s2, q)"
    for p q and s1 s2 :: "('t, 'f) merge_state"
    using that k save_slot_cases [OF kv] by (auto simp: on_kv_iff save_merge_progress_state_def elim!: save_slot_cases [OF kv])
  have both: "view (tree (fst s2)) k = view (tree (fst s1)) k" if "on_kv (save_snapshot_and_merge_state kv mc st p) s1 = (s2, q)"
    for st p q and s1 s2 :: "('t, 'f) merge_state"
    using that k by (auto simp: on_kv_iff elim!: save_both_cases [OF kv])
  from less.prems(1) show ?case
  proof (cases rule: merge_attempts_cases)
    case (progress_failed e)
    then show ?thesis using progress by blast
  next
    case (merged s1 u s2 exec)
    have "view (tree (fst s')) k = view (tree (fst s2)) k"
      using merged(3) by (auto simp: try_then_def on_world_iff dest!: both split: prod.splits sum.splits)
    then show ?thesis using progress [OF merged(1)] execute_frame [OF merged(2)] by simp
  next
    case (gave_up s1 u s2 err)
    have "view (tree (fst s')) k = view (tree (fst s2)) k"
      using gave_up(4) by (auto simp: try_then_def dest!: progress split: prod.splits sum.splits)
    then show ?thesis using progress [OF gave_up(1)] execute_frame [OF gave_up(2)] by simp
  next
    case (retried s1 u s2 err)
    have next_attempt: "saturating_add before 1 = before + 1" "unat (before + 1) = unat before + 1"
      using less.prems(2) by (simp_all add: saturating_add_def word_less_nat_alt unat_word_ariths)
    have "before + 1 < maxr" using retried(3) next_attempt by (simp add: not_le)
    moreover have "maxr \<le> 255" using unsigned_less [of maxr, where ?'a = nat] by (simp add: word_le_nat_alt)
    ultimately have "before + 1 < 255" by simp
    then have "view (tree (fst s')) k = view (tree (fst s2)) k"
      using less.hyps [of "before + 1" s2] retried(4) next_attempt less.prems(2) by (simp add: word_less_nat_alt)
    then show ?thesis using progress [OF retried(1)] execute_frame [OF retried(2)] by simp
  qed
qed

end

section \<open>The backends of the program satisfy it\<close>

text \<open>The checkpoint backend works on the world only.\<close>

definition checkpoint_backend ::
  "('t, 'x, 'f) merge_env \<Rightarrow> path \<Rightarrow> SnapshotMetaState \<Rightarrow> ('u, 'f) merge_state \<Rightarrow>
   ('u, 'f) merge_state \<times> (RaftError + MergeExecution)" where
  "checkpoint_backend V temp_base st = on_world (CheckpointMergeBackend_execute_merge V temp_base st)"

interpretation checkpoint_merge: merge_backend "checkpoint_backend V temp_base" for V temp_base
  by unfold_locales (auto simp: checkpoint_backend_def on_world_iff)

interpretation metadata_merge: merge_backend
  "MetadataOnlyMergeBackend_execute_merge :: SnapshotMetaState \<Rightarrow> ('t, 'f) merge_state \<Rightarrow> _"
  by unfold_locales (simp add: MetadataOnlyMergeBackend_execute_merge_def)

section \<open>Properties\<close>

text \<open>
  Claim C15: what a merge task does to the metadata. Whatever happens in the attempts, the task
  ends; memory and disk agree afterwards; vote and applied position are untouched; and the
  snapshot state is either the old one, then the task reports an error, or the merged one: the
  chain emptied, the checkpoint moved to the end of the chain. A task that reports success has
  recorded the merged state, has made at least one attempt and no more than allowed, and
  afterwards the policy sees no reason to merge at the time recorded.
\<close>

theorem merge_task_outcome:
  assumes "env_ok kv view pend mc" "synced view mc (fst s)"
    and run: "run_merge_loop kv mc fs (checkpoint_backend V temp_base) c tr maxr s = (s', r)"
    and policy: "0 < max_chain_length pol" "0 < max_delta_bytes pol" "0 < checkpoint_interval_secs pol"
  shows "synced view mc (fst s') \<and> voting_state (fst s') = voting_state (fst s) \<and>
    applied_state (fst s') = applied_state (fst s) \<and>
    (snapshot_state (fst s') = snapshot_state (fst s) \<or>
     (\<exists>now p. snapshot_state (fst s') = build_merged_snapshot_state (snapshot_state (fst s)) now p)) \<and>
    (\<forall>res. r = Inr res \<longrightarrow> 1 \<le> unat (mr_retries res) \<and> unat (mr_retries res) \<le> max 1 (unat maxr) \<and>
       (\<exists>now p. snapshot_state (fst s') = build_merged_snapshot_state (snapshot_state (fst s)) now p \<and>
          delta_chain (snapshot_state (fst s')) = [] \<and> evaluate pol (snapshot_state (fst s')) now = None))"
proof -
  obtain s0 started where s0: "on_world now_secs s = (s0, started)" by fastforce
  then have same: "fst s0 = fst s" by (auto simp: on_world_iff)
  have "checkpoint_merge.outcome view mc started (max maxr (0 + 1)) s0 s' r"
    using run s0 same by (intro checkpoint_merge.attempts_outcome [OF assms(1)]) (auto simp: assms(2) run_merge_loop_def)
  moreover have "unat (max maxr (0 + 1)) = max 1 (unat maxr)"
    by (simp add: max_def word_le_nat_alt)
  moreover have "evaluate pol (build_merged_snapshot_state st now p) now = None" for st now p
    using policy by (auto simp: evaluate_def MergeDecision_from_state_def build_merged_snapshot_state_def
        not_le split: option.splits)
  ultimately show ?thesis
    unfolding checkpoint_merge.outcome_def same by (fastforce simp: build_merged_snapshot_state_def)
qed

lemma mem_save_progress:
  "to_stdvec (progress_codec mc) p = Inr b \<Longrightarrow>
   save_merge_progress_state mem_kv mc p m =
     (m\<lparr>tree := (tree m)(key_progress := Some b), merge_progress_state := p\<rparr>, Inr ())"
  by (simp add: save_merge_progress_state_def save_slot_def txn_put_def on_tree_eq fun_eq_iff
      MetadataManager.update_convs fun_upd_def)

lemma mem_save_snapshot:
  "to_stdvec (snapshot_codec mc) st = Inr b \<Longrightarrow>
   save_snapshot_state mem_kv mc st m =
     (m\<lparr>tree := (tree m)(key_snapshot := Some b), snapshot_state := st\<rparr>, Inr ())"
  by (simp add: save_snapshot_state_def save_slot_def txn_put_def on_tree_eq fun_eq_iff fun_upd_def)

lemma mem_save_both:
  "to_stdvec (snapshot_codec mc) st = Inr b \<Longrightarrow> to_stdvec (progress_codec mc) p = Inr c \<Longrightarrow>
   save_snapshot_and_merge_state mem_kv mc st p m =
     (m\<lparr>tree := (tree m)(key_snapshot := Some b, key_progress := Some c), snapshot_state := st,
        merge_progress_state := p\<rparr>, Inr ())"
  by (simp add: save_snapshot_and_merge_state_def on_tree_eq) (simp add: fun_upd_def fun_eq_iff cong: if_cong)

definition sample_merged_state :: SnapshotMetaState where
  "sample_merged_state = build_merged_snapshot_state sample_merge_state 5 (Some ''target/checkpoints/checkpoint_5'')"

definition merge_codecs :: meta_codecs where
  "merge_codecs = sample_codecs\<lparr>
     snapshot_codec := table_codec [sample_merge_state, sample_merged_state],
     progress_codec := table_codec [MergeProgressState_started ''chain_too_long'' 1 3 5,
       MergeProgressState_succeeded ''chain_too_long'' 1 3 5]\<rparr>"

lemma merge_codecs_encode:
  "to_stdvec (progress_codec merge_codecs) (MergeProgressState_started ''chain_too_long'' 1 3 5) = Inr (be_encode 2 0)"
  "\<exists>b. to_stdvec (progress_codec merge_codecs) (MergeProgressState_succeeded ''chain_too_long'' 1 3 5) = Inr b"
  "to_stdvec (snapshot_codec merge_codecs) sample_merge_state = Inr (be_encode 2 0)"
  "\<exists>b. to_stdvec (snapshot_codec merge_codecs) sample_merged_state = Inr b"
  by (simp_all add: merge_codecs_def to_stdvec_table_codec del: be_encode.simps)

lemma merge_env_ok: "env_ok mem_kv (\<lambda>t. t) snd merge_codecs"
  using sample_env_ok by (simp add: env_ok_def merge_codecs_def table_codec_ok)

abbreviation sample_manager :: "mem_tree MetadataManager" where
  "sample_manager \<equiv> fst (save_snapshot_state mem_kv merge_codecs sample_merge_state (MetadataManager_new (\<lambda>_. None)))"

lemma sample_manager_synced: "synced (\<lambda>t. t) merge_codecs sample_manager"
  by (rule meta_reach_synced [OF merge_env_ok], rule meta_reach.snapshot, rule meta_reach.loaded, rule sample_load)

lemma sample_cleanup:
  "files w = sample_merged_files \<Longrightarrow>
   cleanup_run mem_fs MergeCleanupConfig_default sample_merged_state (Some 5) w =
     (w, Inr \<lparr>removed_delta_files = 0, removed_temp_dirs = 0, removed_checkpoint_dirs = 0\<rparr>)"
proof -
  assume w: "files w = sample_merged_files"
  have temp: "\<not> path_exists mem_fs sample_merged_files ''target/tmp/merge''"
    by (simp add: path_exists_def sample_merge_files_def)
  have ex: "path_exists mem_fs sample_merged_files ''target/checkpoints''"
    by (simp add: path_exists_def)
  have rd: "\<exists>e. fs_read_dir mem_fs sample_merged_files ''target/checkpoints'' = Inr [Inr e] \<and> entry_meta e = Inr (node_meta DirNode)"
    by (simp add: sample_merge_files_def mem_fs_def child_of_def del: be_encode.simps)
  have chain: "delta_chain sample_merged_state = []"
    by (simp add: sample_merged_state_def build_merged_snapshot_state_def)
  show ?thesis
    using temp ex rd
    by (auto simp: cleanup_run_def on_files_def cleanup_delta_files_def cleanup_temp_dirs_def cleanup_old_checkpoints_def
        w chain node_meta_def MergeCleanupConfig_default_def)
qed

lemma sample_merge_run:
  "\<exists>s'. run_merge_loop mem_kv merge_codecs mem_fs (checkpoint_backend sample_merge_env ''tmp'')
     MergeCleanupConfig_default ChainTooLong 3 (sample_manager, sample_merge_world 0) =
   (s', Inr \<lparr>mr_merged = True, mr_trigger = Some ChainTooLong, mr_retries = 1, mr_checkpoint_size_bytes = 20,
      mr_cleanup_report = \<lparr>removed_delta_files = 0, removed_temp_dirs = 0, removed_checkpoint_dirs = 0\<rparr>\<rparr>)"
proof -
  obtain w' where ex: "CheckpointMergeBackend_execute_merge sample_merge_env ''tmp'' sample_merge_state (sample_merge_world (Suc 0)) =
     (w', Inr \<lparr>me_checkpoint_size_bytes = 20, me_checkpoint_path = Some ''target/checkpoints/checkpoint_5''\<rparr>)"
    and fi: "files w' = sample_merged_files"
    using sample_execute by blast
  obtain b where b: "to_stdvec (snapshot_codec merge_codecs) sample_merged_state = Inr b"
    using merge_codecs_encode(4) by blast
  obtain c where c: "to_stdvec (progress_codec merge_codecs) (MergeProgressState_succeeded ''chain_too_long'' 1 3 5) = Inr c"
    using merge_codecs_encode(2) by blast
  have now: "on_world now_secs (m, sample_merge_world 0) = ((m, sample_merge_world (Suc 0)), 5)" for m :: "mem_tree MetadataManager"
    by (simp add: now_secs_def system_time_def mem_world_def)
  have one: "saturating_add (0 :: u8) 1 = 1" by (simp add: saturating_add_def)
  show ?thesis
    unfolding run_merge_loop_def now
    by (subst merge_attempts.simps) (simp add: one Let_def mem_save_progress merge_codecs_encode mem_save_snapshot checkpoint_backend_def ex
        sample_merged_state_def [symmetric] mem_save_both [OF b c] sample_cleanup [OF fi] del: be_encode.simps)
qed

theorem merge_task_outcome_witness:
  "\<exists>s' res. run_merge_loop mem_kv merge_codecs mem_fs (checkpoint_backend sample_merge_env ''tmp'')
     MergeCleanupConfig_default ChainTooLong 3 (sample_manager, sample_merge_world 0) = (s', Inr res) \<and>
     synced (\<lambda>t. t) merge_codecs (fst s') \<and> delta_chain (snapshot_state (fst s')) = []"
proof -
  obtain s' res where run: "run_merge_loop mem_kv merge_codecs mem_fs (checkpoint_backend sample_merge_env ''tmp'')
     MergeCleanupConfig_default ChainTooLong 3 (sample_manager, sample_merge_world 0) = (s', Inr res)"
    using sample_merge_run by blast
  show ?thesis
    using run merge_task_outcome [OF merge_env_ok _ run, of DeltaMergePolicy_new] sample_manager_synced
    by (auto simp: DeltaMergePolicy_new_def)
qed

lemma failing_attempts:
  fixes b :: "SnapshotMetaState \<Rightarrow> ('t, 'f) merge_state \<Rightarrow> ('t, 'f) merge_state \<times> (RaftError + MergeExecution)"
  assumes saved: "\<And>p (s :: ('t, 'f) merge_state). \<exists>s'. on_kv (save_merge_progress_state kv mc p) s = (s', Inr ()) \<and> merge_progress_state (fst s') = p"
    and fails: "\<And>st s. \<exists>s'. b st s = (s', Inl err)" and "before < 255"
  shows "\<exists>s'. merge_attempts kv mc fs b c tr maxr started before s =
      (s', Inl (Snapshot (merge_error_code err @ '': merge failed after '' @ show_u64 (max maxr (before + 1)) @
         '' retries: '' @ display_RaftError err))) \<and>
      merge_progress_state (fst s') =
        MergeProgressState_failed (MergeTrigger_as_str tr) (max maxr (before + 1)) maxr started (display_RaftError err)"
  using \<open>before < 255\<close>
proof (induction "255 - unat before" arbitrary: before s rule: less_induct)
  case less
  have nx: "saturating_add before 1 = before + 1" "unat (before + 1) = Suc (unat before)"
    using less.prems by (simp_all add: saturating_add_def word_less_nat_alt unat_word_ariths)
  obtain s1 where 1: "on_kv (save_merge_progress_state kv mc
      (MergeProgressState_started (MergeTrigger_as_str tr) (before + 1) maxr started)) s = (s1, Inr ())"
    using saved by blast
  obtain s2 where 2: "b (snapshot_state (fst s1)) s1 = (s2, Inl err)" using fails by blast
  show ?case
  proof (cases "maxr \<le> before + 1")
    case True
    obtain s3 where 3: "on_kv (save_merge_progress_state kv mc (MergeProgressState_failed (MergeTrigger_as_str tr)
        (before + 1) maxr started (display_RaftError err))) s2 = (s3, Inr ())"
      "merge_progress_state (fst s3) = MergeProgressState_failed (MergeTrigger_as_str tr)
        (before + 1) maxr started (display_RaftError err)"
      using saved by blast
    with True 1 2 nx show ?thesis
      by (subst merge_attempts.simps) (simp add: max_absorb2 Let_def)
  next
    case False
    then have lt: "before + 1 < maxr" by (simp add: not_le)
    moreover have "maxr \<le> 255" using unsigned_less [of maxr, where ?'a = nat] by (simp add: word_le_nat_alt)
    ultimately have lt': "before + 1 < 255" by simp
    have mx: "max maxr (before + 1 + 1) = max maxr (before + 1)"
      using lt inc_le [OF lt] by (simp add: max_absorb1)
    have "255 - unat (before + 1) < 255 - unat before" using nx less.prems by (simp add: word_less_nat_alt)
    from less.hyps [OF this lt', of s2] False 1 2 nx show ?thesis
      unfolding mx by (subst merge_attempts.simps) (simp add: Let_def)
  qed
qed

text \<open>
  A backend that keeps failing is tried as often as allowed, and then the task
  reports the failure. The final error carries the stable code of the backend's error and the
  number of attempts, which is the configured maximum (one when that is zero), and the failure
  is recorded as the merge progress.
\<close>

lemma failing_backend_exhausts_retries:
  assumes saves: "\<And>p m. \<exists>m'. save_merge_progress_state kv mc p m = (m', Inr ())"
    and fails: "\<And>st s. \<exists>s'. b st s = (s', Inl err)"
  shows "\<exists>s' started. run_merge_loop kv mc fs b c tr maxr s =
      (s', Inl (Snapshot (merge_error_code err @ '': merge failed after '' @ show_nat (max 1 (unat maxr)) @
         '' retries: '' @ display_RaftError err))) \<and>
    merge_progress_state (fst s') =
      MergeProgressState_failed (MergeTrigger_as_str tr) (max maxr 1) maxr started (display_RaftError err)"
proof -
  have saved: "\<exists>s'. on_kv (save_merge_progress_state kv mc p) s = (s', Inr ()) \<and> merge_progress_state (fst s') = p" for p s
    using saves [of p "fst s"]
    by (auto simp: on_kv_iff) (auto simp: save_merge_progress_state_def save_slot_def try_then_Inr split: sum.splits)
  obtain s0 started where s0: "on_world now_secs s = (s0, started)" by fastforce
  note loop = failing_attempts [where before = 0 and b = b and s = s0 and started = started and fs = fs and c = c and tr = tr and maxr = maxr,
      OF saved fails]
  have "max 1 (unat maxr) = unat (max maxr (0 + 1))" "max maxr 1 = max maxr (0 + 1)"
    by (simp_all add: max_def word_le_nat_alt)
  then show ?thesis
    using loop s0 by (auto simp: run_merge_loop_def simp del: add_0)
qed

definition failing_backend ::
  "SnapshotMetaState \<Rightarrow> ('t, 'f) merge_state \<Rightarrow> ('t, 'f) merge_state \<times> (RaftError + MergeExecution)" where
  "failing_backend st s = (s, Inl (Snapshot ''MERGE_INJECTED_FAILURE: injected failure''))"

definition counting_codecs :: meta_codecs where
  "counting_codecs = sample_codecs\<lparr>progress_codec := \<lparr>to_stdvec = \<lambda>_. Inr [], from_bytes = \<lambda>_. Inl ''x''\<rparr>\<rparr>"

lemma failing_backend_exhausts_retries_witness:
  "\<exists>s' started. run_merge_loop mem_kv counting_codecs mem_fs failing_backend MergeCleanupConfig_default SizeTooLarge 3
      (sample_manager, sample_merge_world 0) =
    (s', Inl (Snapshot (merge_error_code (Snapshot ''MERGE_INJECTED_FAILURE: injected failure'') @
       '': merge failed after '' @ show_nat 3 @ '' retries: '' @
       display_RaftError (Snapshot ''MERGE_INJECTED_FAILURE: injected failure'')))) \<and>
    merge_progress_state (fst s') = MergeProgressState_failed (MergeTrigger_as_str SizeTooLarge) 3 3 started
       (display_RaftError (Snapshot ''MERGE_INJECTED_FAILURE: injected failure''))"
proof -
  have "\<exists>m'. save_merge_progress_state mem_kv counting_codecs p m = (m', Inr ())" for p m
    by (simp add: mem_save_progress counting_codecs_def)
  moreover have "\<exists>s'. failing_backend st s = (s', Inl (Snapshot ''MERGE_INJECTED_FAILURE: injected failure''))"
    for st and s :: "(mem_tree, mem_files) merge_state"
    by (simp add: failing_backend_def)
  moreover have "max 1 (unat (3 :: u8)) = 3" "max (3 :: u8) 1 = 3" by (simp_all add: max_def word_le_nat_alt)
  ultimately show ?thesis
    using failing_backend_exhausts_retries [of mem_kv counting_codecs failing_backend
        "Snapshot ''MERGE_INJECTED_FAILURE: injected failure''" mem_fs MergeCleanupConfig_default SizeTooLarge 3
        "(sample_manager, sample_merge_world 0)"]
    by metis
qed

text \<open>
  Claim C38: a delta recorded while a merge is running is dropped. Whatever the metadata holds
  when the backend returns, a task that reports success leaves an empty chain: the state it
  stores is computed from the snapshot state read before the backend ran.
\<close>

theorem merge_drops_concurrent_deltas:
  assumes "run_merge_loop kv mc fs b c tr maxr s = (s', Inr res)"
  shows "delta_chain (snapshot_state (fst s')) = [] \<and> total_delta_bytes (snapshot_state (fst s')) = 0"
proof -
  have "merge_attempts kv mc fs b c tr maxr started before s = (s', Inr res) \<Longrightarrow>
      delta_chain (snapshot_state (fst s')) = [] \<and> total_delta_bytes (snapshot_state (fst s')) = 0" for started before s
  proof (induction "255 - unat before" arbitrary: before s rule: less_induct)
    case less
    from less.prems show ?case
    proof (cases rule: merge_attempts_cases)
      case (merged s1 u s2 exec)
      then obtain s3 v where "on_kv (save_snapshot_and_merge_state kv mc
           (build_merged_snapshot_state (snapshot_state (fst s1)) started (me_checkpoint_path exec))
           (MergeProgressState_succeeded (MergeTrigger_as_str tr) (saturating_add before 1) maxr started)) s2 = (s3, Inr v)"
        and "fst s' = fst s3"
        by (auto simp: try_then_Inr on_world_iff)
      then show ?thesis
        by (auto simp: on_kv_iff build_merged_snapshot_state_def dest!: save_both_frame(1))
    next
      case (retried s1 u s2 err)
      have "before < 255" using retried(3) by (rule attempt_progress)
      then have "255 - unat (saturating_add before 1) < 255 - unat before"
        by (simp add: unat_next_attempt word_less_nat_alt)
      from less.hyps [OF this retried(4)] show ?thesis .
    qed (auto simp: try_then_Inr)
  qed
  with assms show ?thesis by (auto simp: run_merge_loop_def split: prod.splits)
qed

text \<open>A delta that another task records while the metadata backend runs.\<close>

definition interrupted_backend ::
  "SnapshotMetaState \<Rightarrow> (mem_tree, mem_files) merge_state \<Rightarrow> (mem_tree, mem_files) merge_state \<times> (RaftError + MergeExecution)" where
  "interrupted_backend st s =
     (case MetadataOnlyMergeBackend_execute_merge st s of ((m, w), r) \<Rightarrow>
      ((m\<lparr>snapshot_state := (snapshot_state m)\<lparr>delta_chain := delta_chain (snapshot_state m) @ [DeltaInfo_new 12 20 5 6]\<rparr>\<rparr>, w), r))"

theorem merge_drops_concurrent_deltas_witness:
  "\<exists>s' res. run_merge_loop mem_kv (counting_codecs\<lparr>snapshot_codec := \<lparr>to_stdvec = \<lambda>_. Inr [], from_bytes = \<lambda>_. Inl ''x''\<rparr>\<rparr>)
      mem_fs interrupted_backend MergeCleanupConfig_default SizeTooLarge 3 (sample_manager, mem_world [] (\<lambda>_. 5)) =
      (s', Inr res) \<and> delta_chain (snapshot_state (fst s')) = []"
proof -
  let ?mc = "counting_codecs\<lparr>snapshot_codec := \<lparr>to_stdvec = \<lambda>_. Inr [], from_bytes = \<lambda>_. Inl ''x''\<rparr>\<rparr>"
  have enc: "to_stdvec (progress_codec ?mc) p = Inr []" "to_stdvec (snapshot_codec ?mc) st = Inr []" for p st
    by (simp_all add: counting_codecs_def)
  have cl: "cleanup_run mem_fs MergeCleanupConfig_default (build_merged_snapshot_state st 5 p) (Some 5) w =
      (w, Inr \<lparr>removed_delta_files = 0, removed_temp_dirs = 0, removed_checkpoint_dirs = 0\<rparr>)"
    if "files w = []" for st p and w :: "mem_files world"
    using that by (simp add: cleanup_run_def on_files_def cleanup_delta_files_def build_merged_snapshot_state_def
        cleanup_temp_dirs_def cleanup_old_checkpoints_def path_exists_def)
  have "\<exists>s' res. run_merge_loop mem_kv ?mc mem_fs interrupted_backend MergeCleanupConfig_default SizeTooLarge 3
      (sample_manager, mem_world [] (\<lambda>_. 5)) = (s', Inr res)"
    unfolding run_merge_loop_def
    by (simp add: now_secs_def system_time_def mem_world_def, subst merge_attempts.simps)
      (simp add: Let_def mem_save_progress [OF enc(1)] interrupted_backend_def
        MetadataOnlyMergeBackend_execute_merge_def mem_save_both [OF enc(2,1)] cl)
  then show ?thesis using merge_drops_concurrent_deltas by blast
qed

text \<open>
  The cleanup after a merge never removes a delta file. It is handed the merged
  state, whose chain is empty, so no delta is visited and the file system is untouched by this
  step, while the files of the old chain were its purpose: on a chain whose first delta has a
  file of sufficient age, the same step asks for that file to be removed.
\<close>

lemma cleanup_after_merge_keeps_delta_files:
  "cleanup_delta_files fs cfg (build_merged_snapshot_state st started p) now f = (f, Inr 0) \<and>
   (\<forall>d file f'. di_file_path d = Some file \<and> max_delta_age_secs cfg \<le> saturating_sub now (di_created_at d) \<and>
      fs_remove_file fs file f = (f', Inr ()) \<longrightarrow>
      cleanup_delta_files fs cfg (st\<lparr>delta_chain := [d]\<rparr>) now f = (f', Inr 1))"
  by (auto simp: cleanup_delta_files_def build_merged_snapshot_state_def saturating_add_def not_le)

lemma cleanup_after_merge_keeps_delta_files_witness:
  "cleanup_delta_files mem_fs MergeCleanupConfig_default
      (sample_merge_state\<lparr>delta_chain := [DeltaInfo_with_file_path ''d'' (DeltaInfo_new 1 2 3 0)]\<rparr>) 90000 [(''d'', FileNode [])] =
     ([], Inr 1)"
  by (rule cleanup_after_merge_keeps_delta_files [THEN conjunct2,
        THEN spec [of _ "DeltaInfo_with_file_path ''d'' (DeltaInfo_new 1 2 3 0)"],
        THEN spec [of _ "''d''"], THEN spec [of _ "[]"], THEN mp])
    (simp add: DeltaInfo_with_file_path_def DeltaInfo_new_def MergeCleanupConfig_default_def saturating_sub_def
      word_le_nat_alt)

end
