(* ===== verification/Storage.thy ===== *)
theory Storage
  imports Ordered_Map Snapshots Merge_Executor
begin

text \<open>
  \<open>src/storage.rs\<close>: the storage of a node. It owns the metadata manager (and through it the
  tree), the key-value state machine, the applied log kept for deltas (\<open>raft_logs\<close>), the
  consensus log (\<open>raft_entries\<close>), and the current snapshot, and it drives building and
  installing snapshots and starting merge tasks. The shared references of the source become
  one record; the tree lives in its metadata manager. A spawned merge task is an element of
  the list \<open>spawned\<close> until it is run. Logging and metrics are left out.
\<close>

section \<open>Data\<close>

record LogEntry =
  log_term :: u64
  log_index :: u64
  log_payload :: bytes

definition LogEntry_new :: "u64 \<Rightarrow> u64 \<Rightarrow> bytes \<Rightarrow> LogEntry" where
  "LogEntry_new trm index payload = \<lparr>log_term = trm, log_index = index, log_payload = payload\<rparr>"

definition storage_key :: "u64 \<Rightarrow> u64 \<Rightarrow> bytes" where
  "storage_key trm index = as_bytes (''raft_log:'' @ show_u64 trm @ '':'' @ show_u64 index)"

record ('t, 'f, 'm) SurrealStorage =
  metadata :: "'t MetadataManager"
  state_machine :: "string \<Rightarrow> bytes option"
  raft_logs :: "(u64, LogEntry) btree_map"
  raft_entries :: "(u64, 'm Entry) btree_map"
  last_purged_log_id :: "LogId option"
  last_membership :: "'m StoredMembership"
  current_snapshot :: "'m RaftSnapshot option"
  merge_executor :: "('t, 'f) MergeExecutor option"
  spawned :: "MergeTrigger list"
  st_world :: "'f world"

text \<open>What the storage calls: the snapshot environment, the codecs, \<open>Membership::new_with_defaults\<close>.\<close>

record ('t, 'x, 'f, 'm) storage_env =
  so_snap :: "('t, 'x, 'f, 'm) snap_env"
  so_meta :: meta_codecs
  so_request :: "KVRequest codec"
  so_vote :: "Vote codec"
  so_default_membership :: "u64 list list \<Rightarrow> u64 list \<Rightarrow> 'm"

abbreviation so_kv :: "('t, 'x, 'f, 'm) storage_env \<Rightarrow> ('t, 'x, 'f) surrealkv" where
  "so_kv E \<equiv> se_kv (so_snap E)"

abbreviation so_fs :: "('t, 'x, 'f, 'm) storage_env \<Rightarrow> 'f filesystem" where
  "so_fs E \<equiv> se_fs (so_snap E)"

definition so_merge :: "('t, 'x, 'f, 'm) storage_env \<Rightarrow> ('t, 'x, 'f) merge_env" where
  "so_merge E = \<lparr>mv_kv = so_kv E, mv_fs = so_fs E, mv_zstd = se_zstd (so_snap E),
     mv_entries = se_entries (so_snap E), mv_request = so_request E\<rparr>"

text \<open>Running operations of the parts on the whole.\<close>

definition on_metadata ::
  "('t MetadataManager \<Rightarrow> 't MetadataManager \<times> 'r) \<Rightarrow> ('t, 'f, 'm) SurrealStorage \<Rightarrow> ('t, 'f, 'm) SurrealStorage \<times> 'r" where
  "on_metadata op S = (case op (metadata S) of (m, r) \<Rightarrow> (S\<lparr>metadata := m\<rparr>, r))"

definition on_tree_world ::
  "('t \<times> 'f world \<Rightarrow> ('t \<times> 'f world) \<times> 'r) \<Rightarrow> ('t, 'f, 'm) SurrealStorage \<Rightarrow> ('t, 'f, 'm) SurrealStorage \<times> 'r" where
  "on_tree_world op S = (case op (tree (metadata S), st_world S) of
     ((t, w), r) \<Rightarrow> (S\<lparr>metadata := (metadata S)\<lparr>tree := t\<rparr>, st_world := w\<rparr>, r))"

definition on_merge ::
  "(('t, 'f) merge_state \<Rightarrow> ('t, 'f) merge_state \<times> 'r) \<Rightarrow> ('t, 'f, 'm) SurrealStorage \<Rightarrow> ('t, 'f, 'm) SurrealStorage \<times> 'r" where
  "on_merge op S = (case op (metadata S, st_world S) of ((m, w), r) \<Rightarrow> (S\<lparr>metadata := m, st_world := w\<rparr>, r))"

definition on_st_world ::
  "('f world \<Rightarrow> 'f world \<times> 'r) \<Rightarrow> ('t, 'f, 'm) SurrealStorage \<Rightarrow> ('t, 'f, 'm) SurrealStorage \<times> 'r" where
  "on_st_world op S = (case op (st_world S) of (w, r) \<Rightarrow> (S\<lparr>st_world := w\<rparr>, r))"

section \<open>Construction and recovery\<close>

definition default_stored_membership :: "('t, 'x, 'f, 'm) storage_env \<Rightarrow> 'm StoredMembership" where
  "default_stored_membership E = \<lparr>sm_log_id = None, sm_membership = so_default_membership E [[1]] [1]\<rparr>"

definition SurrealStorage_new ::
  "('t, 'x, 'f, 'm) storage_env \<Rightarrow> 't \<Rightarrow> 'f world \<Rightarrow> RaftError + ('t, 'f, 'm) SurrealStorage" where
  "SurrealStorage_new E t w =
     (case load (so_kv E) (so_meta E) (MetadataManager_new t) of
        (_, Inl e) \<Rightarrow> Inl e
      | (m, Inr _) \<Rightarrow> Inr \<lparr>metadata = m, state_machine = (\<lambda>_. None), raft_logs = [], raft_entries = [],
          last_purged_log_id = None, last_membership = default_stored_membership E,
          current_snapshot = None, merge_executor = None, spawned = [], st_world = w\<rparr>)"

definition with_merge_policy ::
  "('t, 'x, 'f, 'm) storage_env \<Rightarrow> DeltaMergePolicy \<Rightarrow> ('t, 'f, 'm) SurrealStorage \<Rightarrow> ('t, 'f, 'm) SurrealStorage" where
  "with_merge_policy E policy S =
     S\<lparr>merge_executor := Some (with_backend (checkpoint_backend (so_merge E) CheckpointMergeBackend_new)
        (MergeExecutor_new policy MergeCleanupConfig_default))\<rparr>"

definition with_default_merge ::
  "('t, 'x, 'f, 'm) storage_env \<Rightarrow> ('t, 'f, 'm) SurrealStorage \<Rightarrow> ('t, 'f, 'm) SurrealStorage" where
  "with_default_merge E S = with_merge_policy E DeltaMergePolicy_new S"

text \<open>\<open>spawn_if_needed\<close> on the storage: the task is queued.\<close>

definition spawn_task ::
  "('t, 'x, 'f, 'm) storage_env \<Rightarrow> ('t, 'f) MergeExecutor \<Rightarrow> ('t, 'f, 'm) SurrealStorage \<Rightarrow>
   ('t, 'f, 'm) SurrealStorage \<times> (RaftError + MergeTrigger option)" where
  "spawn_task E x S =
     (case on_merge (spawn_if_needed (so_kv E) (so_meta E) (so_fs E) x) S of
        (S, Inl e) \<Rightarrow> (S, Inl e)
      | (S, Inr None) \<Rightarrow> (S, Inr None)
      | (S, Inr (Some (trigger, _))) \<Rightarrow> (S\<lparr>spawned := spawned S @ [trigger]\<rparr>, Inr (Some trigger)))"

text \<open>The scheduler runs a queued task.\<close>

definition run_task ::
  "('t, 'x, 'f, 'm) storage_env \<Rightarrow> ('t, 'f) MergeExecutor \<Rightarrow> MergeTrigger \<Rightarrow> ('t, 'f, 'm) SurrealStorage \<Rightarrow>
   ('t, 'f, 'm) SurrealStorage \<times> (RaftError + MergeTaskResult)" where
  "run_task E x trigger S =
     on_merge (run_merge_loop (so_kv E) (so_meta E) (so_fs E) (ex_backend x) (ex_cleanup x) trigger (ex_max_retries x)) S"

definition recover_merge_state ::
  "('t, 'x, 'f, 'm) storage_env \<Rightarrow> ('t, 'f, 'm) SurrealStorage \<Rightarrow> ('t, 'f, 'm) SurrealStorage \<times> (RaftError + unit)" where
  "recover_merge_state E S =
     (let progress = merge_progress_state (metadata S) in
      if \<not> in_progress progress then (S, Inr ())
      else if attempt progress \<ge> max_retries progress
      then on_metadata (save_merge_progress_state (so_kv E) (so_meta E) MergeProgressState_new) S
      else case merge_executor S of
          None \<Rightarrow> (S, Inr ())
        | Some executor \<Rightarrow> (case spawn_task E executor S of
            (S, Inr (Some _)) \<Rightarrow> (S, Inr ())
          | (S, Inr None) \<Rightarrow>
              on_metadata (save_merge_progress_state (so_kv E) (so_meta E) MergeProgressState_new) S
          | (S, Inl e) \<Rightarrow> (S, Inl e)))"

section \<open>The state machine and the applied log\<close>

definition Storage_read :: "string \<Rightarrow> ('t, 'f, 'm) SurrealStorage \<Rightarrow> RaftError + bytes option" where
  "Storage_read key S = Inr (state_machine S key)"

definition apply_request ::
  "KVRequest \<Rightarrow> ('t, 'f, 'm) SurrealStorage \<Rightarrow> ('t, 'f, 'm) SurrealStorage \<times> (RaftError + KVResponse)" where
  "apply_request req S =
     (case req of
        Set key value \<Rightarrow> (S\<lparr>state_machine := (state_machine S)(key := Some value)\<rparr>, Inr Ok)
      | Delete key \<Rightarrow> (S\<lparr>state_machine := (state_machine S)(key := None)\<rparr>, Inr Ok))"

definition append_log_entry ::
  "('t, 'x, 'f, 'm) storage_env \<Rightarrow> u64 \<Rightarrow> u64 \<Rightarrow> KVRequest \<Rightarrow> ('t, 'f, 'm) SurrealStorage \<Rightarrow>
   ('t, 'f, 'm) SurrealStorage \<times> (RaftError + unit)" where
  "append_log_entry E trm index req S =
     (case to_stdvec (so_request E) req of
        Inl e \<Rightarrow> (S, Inl (from_postcard_error e))
      | Inr payload \<Rightarrow>
          on_metadata (save_applied_state (so_kv E) (so_meta E)
              \<lparr>last_applied_index = index, last_applied_term = trm\<rparr>)
            (S\<lparr>raft_logs := bt_insert index (LogEntry_new trm index payload) (raft_logs S)\<rparr>))"

text \<open>\<open>BTreeMap::range\<close> panics when the start of an inclusive range is greater than its end.\<close>

definition applied_log_entries :: "u64 \<Rightarrow> u64 \<Rightarrow> ('t, 'f, 'm) SurrealStorage \<Rightarrow> LogEntry list option" where
  "applied_log_entries lo hi S =
     (if lo > hi then None else Some (map snd (bt_range lo hi (raft_logs S))))"

section \<open>Snapshots\<close>

abbreviation ERR_SNAPSHOT_INSTALL_BASE_MISMATCH :: string where
  "ERR_SNAPSHOT_INSTALL_BASE_MISMATCH \<equiv> ''SNAPSHOT_INSTALL_BASE_MISMATCH''"
abbreviation ERR_SNAPSHOT_INSTALL_INVALID_PAYLOAD :: string where
  "ERR_SNAPSHOT_INSTALL_INVALID_PAYLOAD \<equiv> ''SNAPSHOT_INSTALL_INVALID_PAYLOAD''"
abbreviation ERR_SNAPSHOT_INSTALL_DELTA_DECODE :: string where
  "ERR_SNAPSHOT_INSTALL_DELTA_DECODE \<equiv> ''SNAPSHOT_INSTALL_DELTA_DECODE''"
abbreviation ERR_SNAPSHOT_INSTALL_DELTA_APPLY_DECODE :: string where
  "ERR_SNAPSHOT_INSTALL_DELTA_APPLY_DECODE \<equiv> ''SNAPSHOT_INSTALL_DELTA_APPLY_DECODE''"

definition snapshot_error :: "string \<Rightarrow> string \<Rightarrow> RaftError" where
  "snapshot_error kind detail = Snapshot (kind @ '': '' @ detail)"

text \<open>
  The entries a snapshot may carry as a delta: the applied log after the last checkpoint. The
  panic of \<open>range\<close> cannot occur, since the start is checked first.
\<close>

definition delta_candidates :: "('t, 'f, 'm) SurrealStorage \<Rightarrow> DeltaEntry list" where
  "delta_candidates S =
     (let applied = last_applied_index (applied_state (metadata S));
          start = (case last_checkpoint (snapshot_state (metadata S)) of
              None \<Rightarrow> 1 | Some c \<Rightarrow> saturating_add (checkpoint_index c) 1);
          logs = (if applied \<ge> start
                  then (case applied_log_entries start applied S of None \<Rightarrow> [] | Some ls \<Rightarrow> ls) else [])
      in map (\<lambda>l. DeltaEntry_new (log_term l) (log_index l) (log_payload l)) logs)"

text \<open>The snapshot state after a snapshot was built: a new baseline or one more delta.\<close>

definition record_full :: "'m SnapshotMeta \<Rightarrow> DeltaMetadata \<Rightarrow> SnapshotMetaState \<Rightarrow> SnapshotMetaState" where
  "record_full sm meta st =
     (let (index, trm) = (case meta_last_log_id sm of None \<Rightarrow> (0, 0) | Some l \<Rightarrow> (li_index l, li_term l));
          created = (case dm_format meta of Full cm \<Rightarrow> cm_timestamp cm | Delta _ _ \<Rightarrow> dm_created_at meta);
          cp_path = (case dm_format meta of
              Full cm \<Rightarrow> path_join (cm_checkpoint_dir cm) (dir_name cm)
            | Delta _ _ \<Rightarrow> ''target/checkpoints/checkpoint_'' @ show_u64 created)
      in st\<lparr>last_checkpoint := Some (with_checkpoint_path cp_path
               (PersistedCheckpointMetadata_new index trm 0 created)),
            delta_chain := [], total_delta_bytes := 0\<rparr>)"

definition record_delta :: "DeltaMetadata \<Rightarrow> DeltaEntry list \<Rightarrow> SnapshotMetaState \<Rightarrow> SnapshotMetaState" where
  "record_delta meta entries st =
     (let first = (if entries = [] then 0 else de_index (hd entries));
          final = (if entries = [] then first else de_index (last entries));
          info = DeltaInfo_new first final (dm_size_bytes meta) (dm_created_at meta);
          info = (case dm_file_path meta of None \<Rightarrow> info | Some p \<Rightarrow> DeltaInfo_with_file_path p info)
      in st\<lparr>delta_chain := delta_chain st @ [info],
            total_delta_bytes := saturating_add (total_delta_bytes st) (dm_size_bytes meta)\<rparr>)"

definition build_snapshot_auto ::
  "('t, 'x, 'f, 'm) storage_env \<Rightarrow> u64 \<Rightarrow> ('t, 'f, 'm) SurrealStorage \<Rightarrow>
   ('t, 'f, 'm) SurrealStorage \<times> (RaftError + 'm RaftSnapshot)" where
  "build_snapshot_auto E trm S =
     (let applied = last_applied_index (applied_state (metadata S));
          st = snapshot_state (metadata S);
          cfg = \<lparr>sbc_node_id = 1, sbc_node_addr = ''127.0.0.1:50051'', sbc_current_term = trm\<rparr> in
      try_then (on_tree_world (build_snapshot_with_delta (so_snap E) cfg applied st (delta_candidates S)) S) (\<lambda>S snapshot.
      try_then (S, decode_snapshot_payload (so_snap E) (snap_data snapshot)) (\<lambda>S decoded.
      try_then (case decoded of
            None \<Rightarrow> (S, Inr ())
          | Some (DecodedFull meta) \<Rightarrow>
              on_metadata (save_snapshot_state (so_kv E) (so_meta E) (record_full (snap_meta snapshot) meta st)) S
          | Some (DecodedDelta meta entries) \<Rightarrow>
              on_metadata (save_snapshot_state (so_kv E) (so_meta E) (record_delta meta entries st)) S) (\<lambda>S _.
      (case merge_executor S of None \<Rightarrow> S | Some x \<Rightarrow> fst (spawn_task E x S), Inr snapshot)))))"

fun apply_delta_entries ::
  "('t, 'x, 'f, 'm) storage_env \<Rightarrow> DeltaEntry list \<Rightarrow> ('t, 'f, 'm) SurrealStorage \<Rightarrow>
   ('t, 'f, 'm) SurrealStorage \<times> (RaftError + unit)" where
  "apply_delta_entries E [] S = (S, Inr ())"
| "apply_delta_entries E (e # es) S =
     (case from_bytes (so_request E) (de_payload e) of
        Inl err \<Rightarrow> (S, Inl (snapshot_error ERR_SNAPSHOT_INSTALL_DELTA_APPLY_DECODE
            (''index='' @ show_u64 (de_index e) @ '', cause='' @ err)))
      | Inr req \<Rightarrow>
          try_then (apply_request req S) (\<lambda>S _.
          try_then (append_log_entry E (de_term e) (de_index e) req S) (\<lambda>S _.
          apply_delta_entries E es S)))"

definition install_snapshot_auto ::
  "('t, 'x, 'f, 'm) storage_env \<Rightarrow> 'm RaftSnapshot \<Rightarrow> ('t, 'f, 'm) SurrealStorage \<Rightarrow>
   ('t, 'f, 'm) SurrealStorage \<times> (RaftError + unit)" where
  "install_snapshot_auto E snapshot S =
     (case decode_snapshot_payload (so_snap E) (snap_data snapshot) of
        Inl e \<Rightarrow> (S, Inl (snapshot_error ERR_SNAPSHOT_INSTALL_DELTA_DECODE (display_RaftError e)))
      | Inr (Some (DecodedDelta meta entries)) \<Rightarrow>
          (let base = (case dm_format meta of Delta b _ \<Rightarrow> b | Full _ \<Rightarrow> 0);
               applied = last_applied_index (applied_state (metadata S)) in
           if applied \<noteq> base
           then (S, Inl (snapshot_error ERR_SNAPSHOT_INSTALL_BASE_MISMATCH
               (''expected='' @ show_u64 base @ '', got='' @ show_u64 applied)))
           else apply_delta_entries E entries S)
      | Inr (Some (DecodedFull _)) \<Rightarrow>
          on_st_world (RaftSnapshotBuilder_install_snapshot (so_snap E) snapshot) S
      | Inr None \<Rightarrow> (S, Inl (snapshot_error ERR_SNAPSHOT_INSTALL_INVALID_PAYLOAD ''unknown or invalid snapshot payload'')))"

section \<open>The invariant\<close>

definition storage_ok ::
  "('t \<Rightarrow> bytes \<Rightarrow> bytes option) \<Rightarrow> ('t, 'x, 'f, 'm) storage_env \<Rightarrow> ('t, 'f, 'm) SurrealStorage \<Rightarrow> bool" where
  "storage_ok view E S \<longleftrightarrow>
     synced view (so_meta E) (metadata S) \<and>
     bt_wf (raft_logs S) \<and> (\<forall>(i, l) \<in> set (raft_logs S). log_index l = i) \<and>
     bt_wf (raft_entries S) \<and> (\<forall>(i, e) \<in> set (raft_entries S). li_index (entry_log_id e) = i) \<and>
     (\<forall>x. merge_executor S = Some x \<longrightarrow> (\<exists>base. ex_backend x = checkpoint_backend (so_merge E) base))"

lemma on_metadata_iff: "on_metadata op S = (S', r) \<longleftrightarrow> (\<exists>m. op (metadata S) = (m, r) \<and> S' = S\<lparr>metadata := m\<rparr>)"
  by (auto simp: on_metadata_def split: prod.splits)

lemma fst_on_metadata: "fst (on_metadata op S) = S\<lparr>metadata := fst (op (metadata S))\<rparr>"
  by (simp add: on_metadata_def split: prod.splits)

lemma on_merge_iff:
  "on_merge op S = (S', r) \<longleftrightarrow> (\<exists>m w. op (metadata S, st_world S) = ((m, w), r) \<and> S' = S\<lparr>metadata := m, st_world := w\<rparr>)"
  by (auto simp: on_merge_def split: prod.splits)

lemma on_st_world_iff: "on_st_world op S = (S', r) \<longleftrightarrow> (\<exists>w. op (st_world S) = (w, r) \<and> S' = S\<lparr>st_world := w\<rparr>)"
  by (auto simp: on_st_world_def split: prod.splits)

lemma on_tree_world_iff:
  "on_tree_world op S = (S', r) \<longleftrightarrow> (\<exists>t w. op (tree (metadata S), st_world S) = ((t, w), r) \<and>
     S' = S\<lparr>metadata := (metadata S)\<lparr>tree := t\<rparr>, st_world := w\<rparr>)"
  by (auto simp: on_tree_world_def split: prod.splits)

lemma storage_ok_metadata:
  "storage_ok view E S \<Longrightarrow> synced view (so_meta E) m \<Longrightarrow> storage_ok view E (S\<lparr>metadata := m\<rparr>)"
  by (simp add: storage_ok_def)

lemma storage_ok_frames [simp]:
  "storage_ok view E (S\<lparr>st_world := w\<rparr>) = storage_ok view E S"
  "storage_ok view E (S\<lparr>spawned := ts\<rparr>) = storage_ok view E S"
  "storage_ok view E (S\<lparr>state_machine := sm\<rparr>) = storage_ok view E S"
  "storage_ok view E (S\<lparr>last_membership := lm\<rparr>) = storage_ok view E S"
  "storage_ok view E (S\<lparr>current_snapshot := cs\<rparr>) = storage_ok view E S"
  "storage_ok view E (S\<lparr>last_purged_log_id := lp\<rparr>) = storage_ok view E S"
  by (simp_all add: storage_ok_def)

lemma storage_ok_synced: "storage_ok view E S \<Longrightarrow> synced view (so_meta E) (metadata S)"
  by (simp add: storage_ok_def)

text \<open>A write of the tree that leaves the four metadata keys alone keeps memory and disk in agreement.\<close>

lemma synced_tree_cong:
  assumes "synced view mc m" "\<And>k. k \<in> {key_vote, key_applied, key_snapshot, key_progress} \<Longrightarrow> view t k = view (tree m) k"
  shows "synced view mc (m\<lparr>tree := t\<rparr>)"
  using assms by (simp add: synced_def durable_defs)

lemma write_sequence_number_view:
  assumes kv: "surrealkv_ok kv view pend" and run: "write_sequence_number kv n t = (t', r)" and k: "k \<noteq> CONSISTENCY_SEQ_KEY"
  shows "view t' k = view t k"
proof (cases "tree_begin kv t")
  case (Inr x)
  show ?thesis
  proof (cases "txn_set kv x CONSISTENCY_SEQ_KEY (to_be_bytes_u64 n)")
    case x': (Inr x')
    obtain c q where c: "txn_commit kv t x' = (c, q)" by fastforce
    then have t': "t' = c" using run Inr x' by (simp add: write_sequence_number_def)
    have "pend x' k = None"
      using surrealkv_set [OF kv x'] surrealkv_begin(1) [OF kv Inr] k by simp
    then show ?thesis
      using c t' surrealkv_commit [OF kv, of t x' c] by (cases q) auto
  qed (use run Inr in \<open>simp add: write_sequence_number_def\<close>)
qed (use run in \<open>simp add: write_sequence_number_def\<close>)

text \<open>Building a snapshot writes the tree under the sequence-number key only.\<close>

definition tree_frame :: "('t \<Rightarrow> bytes \<Rightarrow> bytes option) \<Rightarrow> 't \<Rightarrow> 't \<times> 'f world \<Rightarrow> bool" where
  "tree_frame view t s \<longleftrightarrow> (\<forall>k. k \<noteq> CONSISTENCY_SEQ_KEY \<longrightarrow> view (fst s) k = view t k)"

lemma tree_frame_world: "tree_frame view t s \<Longrightarrow> tree_frame view t (fst (on_world op s))"
  by (cases s) (simp add: tree_frame_def on_world_def zoom_eq)

lemma tree_frame_world_case:
  assumes "tree_frame view t s" "\<And>s a. tree_frame view t s \<Longrightarrow> tree_frame view t (fst (g s a))"
  shows "tree_frame view t (fst (case on_world op s of (s, a) \<Rightarrow> g s a))"
  using assms tree_frame_world [of view t s op] by (cases "on_world op s") auto

lemma tree_frame_try:
  assumes "tree_frame view t (fst r)" "\<And>s a. tree_frame view t s \<Longrightarrow> tree_frame view t (fst (g s a))"
  shows "tree_frame view t (fst (try_then r g))"
  using assms by (rule try_then_inv)

lemma tree_frame_sum:
  "(\<And>e. tree_frame view t (fst (f e))) \<Longrightarrow> (\<And>v. tree_frame view t (fst (g v))) \<Longrightarrow>
   tree_frame view t (fst (case x of Inl e \<Rightarrow> f e | Inr v \<Rightarrow> g v))"
  by (cases x) auto

lemma tree_frame_write_dual:
  assumes kv: "surrealkv_ok kv view pend" and s: "tree_frame view t s"
  shows "tree_frame view t (fst (write_sequence_number_dual fs (write_sequence_number kv) dir n s))"
proof -
  have "tree_frame view t (fst (on_kv (write_sequence_number kv n) s))"
    using s write_sequence_number_view [OF kv prod.collapse [symmetric], where n = n and t = "fst s"]
    by (cases s) (simp add: tree_frame_def on_kv_def zoom_eq)
  then show ?thesis
    unfolding write_sequence_number_dual_def by (intro tree_frame_try tree_frame_world)
qed

lemma tree_frame_create:
  assumes kv: "surrealkv_ok kv view pend" and s: "tree_frame view t s"
  shows "tree_frame view t (fst (create kv fs base ai tm s))"
  unfolding create_def Let_def
  by (intro tree_frame_try tree_frame_world tree_frame_world_case tree_frame_sum
      tree_frame_write_dual [OF kv] s) simp_all

lemma tree_frame_build_full:
  assumes kv: "surrealkv_ok (se_kv E) view pend" and s: "tree_frame view t s"
  shows "tree_frame view t (fst (RaftSnapshotBuilder_build_snapshot E cfg ai s))"
  unfolding RaftSnapshotBuilder_build_snapshot_def Let_def
  by (intro tree_frame_try tree_frame_world tree_frame_world_case tree_frame_create [OF kv] s) simp_all

lemma tree_frame_if:
  "tree_frame view t (fst x) \<Longrightarrow> tree_frame view t (fst y) \<Longrightarrow> tree_frame view t (fst (if b then x else y))"
  by simp

lemma tree_frame_build:
  assumes kv: "surrealkv_ok (se_kv E) view pend" and s: "tree_frame view t s"
  shows "tree_frame view t (fst (build_snapshot_with_delta E cfg ai st es s))"
  unfolding build_snapshot_with_delta_def Let_def
  by (intro tree_frame_world_case tree_frame_try tree_frame_if tree_frame_world tree_frame_build_full [OF kv] s) simp_all

section \<open>Every operation keeps the invariant\<close>

lemma append_log_entry_cases:
  assumes "append_log_entry E trm index req S = (S', r)"
  obtains (encode) e where "to_stdvec (so_request E) req = Inl e" "S' = S" "isl r"
    | (save) payload m where "to_stdvec (so_request E) req = Inr payload"
      "save_applied_state (so_kv E) (so_meta E) \<lparr>last_applied_index = index, last_applied_term = trm\<rparr> (metadata S) = (m, r)"
      "S' = S\<lparr>raft_logs := bt_insert index (LogEntry_new trm index payload) (raft_logs S), metadata := m\<rparr>"
  using assms by (auto simp: append_log_entry_def on_metadata_iff split: sum.splits)

lemma env_ok_kv: "env_ok kv view pend mc \<Longrightarrow> surrealkv_ok kv view pend"
  by (simp add: env_ok_def)

lemma storage_ok_log_insert:
  assumes "storage_ok view E S" "synced view (so_meta E) m"
  shows "storage_ok view E (S\<lparr>raft_logs := bt_insert i (LogEntry_new t i p) (raft_logs S), metadata := m\<rparr>)"
  using assms by (auto simp: storage_ok_def bt_wf_insert set_bt_insert LogEntry_new_def)

lemma save_keeps_storage_ok:
  assumes env: "env_ok (so_kv E) view pend (so_meta E)" and ok: "storage_ok view E S"
  shows "storage_ok view E (fst (on_metadata (save_voting_state (so_kv E) (so_meta E) v) S))"
    "storage_ok view E (fst (on_metadata (save_applied_state (so_kv E) (so_meta E) a) S))"
    "storage_ok view E (fst (on_metadata (save_snapshot_state (so_kv E) (so_meta E) st) S))"
    "storage_ok view E (fst (on_metadata (save_merge_progress_state (so_kv E) (so_meta E) p) S))"
  unfolding fst_on_metadata
  by (intro storage_ok_metadata [OF ok] save_slot_synced [OF env storage_ok_synced [OF ok]])+

lemma apply_request_ok: "storage_ok view E S \<Longrightarrow> storage_ok view E (fst (apply_request req S))"
  by (cases req) (simp_all add: apply_request_def)

lemma append_log_entry_ok:
  assumes env: "env_ok (so_kv E) view pend (so_meta E)" and ok: "storage_ok view E S"
  shows "storage_ok view E (fst (append_log_entry E trm index req S))"
proof -
  obtain S' r where run: "append_log_entry E trm index req S = (S', r)" by fastforce
  then show ?thesis
  proof (cases rule: append_log_entry_cases)
    case (save payload m)
    then have "synced view (so_meta E) m"
      using save_slot_synced(2) [OF env storage_ok_synced [OF ok]] by (metis fst_conv)
    with run save ok show ?thesis by (simp add: storage_ok_log_insert)
  qed (use run ok in simp)
qed

lemma apply_delta_entries_ok:
  assumes env: "env_ok (so_kv E) view pend (so_meta E)"
  shows "storage_ok view E S \<Longrightarrow> storage_ok view E (fst (apply_delta_entries E es S))"
proof (induction es arbitrary: S)
  case (Cons e es)
  show ?case
  proof (cases "from_bytes (so_request E) (de_payload e)")
    case (Inr req)
    have "storage_ok view E (fst (try_then (apply_request req S) (\<lambda>S _.
          try_then (append_log_entry E (de_term e) (de_index e) req S) (\<lambda>S _. apply_delta_entries E es S))))"
      by (rule try_then_inv, rule apply_request_ok, rule Cons.prems, rule try_then_inv,
          erule append_log_entry_ok [OF env], erule Cons.IH)
    then show ?thesis by (simp add: Inr)
  qed (use Cons.prems in simp)
qed simp

lemma install_snapshot_auto_ok:
  assumes env: "env_ok (so_kv E) view pend (so_meta E)" and ok: "storage_ok view E S"
  shows "storage_ok view E (fst (install_snapshot_auto E snap S))"
  using ok apply_delta_entries_ok [OF env ok]
  by (auto simp: install_snapshot_auto_def on_st_world_def Let_def split: sum.splits option.splits
      DecodedSnapshotPayload.splits prod.splits)

lemma build_tree_ok:
  assumes env: "env_ok (so_kv E) view pend (so_meta E)" and ok: "storage_ok view E S"
  shows "storage_ok view E (fst (on_tree_world (build_snapshot_with_delta (so_snap E) cfg ai st es) S))"
proof -
  obtain t w r where run: "build_snapshot_with_delta (so_snap E) cfg ai st es (tree (metadata S), st_world S) = ((t, w), r)"
    by (metis prod.exhaust)
  have "tree_frame view (tree (metadata S)) (t, w)"
    using tree_frame_build [OF env_ok_kv [OF env], of "tree (metadata S)" "(tree (metadata S), st_world S)" cfg ai st es] run
    by (simp add: tree_frame_def)
  then have "synced view (so_meta E) ((metadata S)\<lparr>tree := t\<rparr>)"
    using storage_ok_synced [OF ok] by (intro synced_tree_cong) (auto simp: tree_frame_def)
  then show ?thesis using run ok by (simp add: on_tree_world_def storage_ok_def)
qed

lemma spawn_task_frame:
  assumes "spawn_task E x S = (S', r)"
  obtains ts w where "S' = S\<lparr>st_world := w, spawned := ts\<rparr>"
proof -
  obtain m w q where run: "spawn_if_needed (so_kv E) (so_meta E) (so_fs E) x (metadata S, st_world S) = ((m, w), q)"
    by (metis prod.exhaust)
  then have m: "m = metadata S"
    by (auto simp: spawn_if_needed_def should_spawn_def split: prod.splits)
  show thesis
    by (rule that [where ts = "spawned S'" and w = w])
      (use assms run m in \<open>auto simp: spawn_task_def on_merge_def split: sum.splits option.splits prod.splits\<close>)
qed

lemma spawn_task_ok: "storage_ok view E S \<Longrightarrow> storage_ok view E (fst (spawn_task E x S))"
  using spawn_task_frame [of E x S] by (metis prod.collapse storage_ok_frames(1,2))

lemma build_snapshot_auto_ok:
  assumes env: "env_ok (so_kv E) view pend (so_meta E)" and ok: "storage_ok view E S"
  shows "storage_ok view E (fst (build_snapshot_auto E trm S))"
proof -
  have dec: "storage_ok view E (fst (case decoded of
            None \<Rightarrow> (S, Inr ())
          | Some (DecodedFull meta) \<Rightarrow> on_metadata (save_snapshot_state (so_kv E) (so_meta E) (f meta)) S
          | Some (DecodedDelta meta entries) \<Rightarrow> on_metadata (save_snapshot_state (so_kv E) (so_meta E) (g meta entries)) S))"
    if "storage_ok view E S" for S :: "('a, 'c, 'd) SurrealStorage" and decoded f g
    using that save_keeps_storage_ok(3) [OF env that] by (auto split: option.splits DecodedSnapshotPayload.splits)
  have fin: "storage_ok view E (fst (case merge_executor S of None \<Rightarrow> S | Some x \<Rightarrow> fst (spawn_task E x S), r))"
    if "storage_ok view E S" for S :: "('a, 'c, 'd) SurrealStorage" and r :: "RaftError + 'd RaftSnapshot"
    using that by (auto simp: spawn_task_ok split: option.splits)
  show ?thesis
    unfolding build_snapshot_auto_def Let_def
    by (rule try_then_inv, rule build_tree_ok [OF env ok], rule try_then_inv, simp, rule try_then_inv,
        erule dec, erule fin)
qed

lemma run_task_ok:
  assumes env: "env_ok (so_kv E) view pend (so_meta E)" and ok: "storage_ok view E S"
    and x: "merge_executor S = Some x"
  shows "storage_ok view E (fst (run_task E x tr S))"
proof -
  obtain base where b: "ex_backend x = checkpoint_backend (so_merge E) base" using ok x by (auto simp: storage_ok_def)
  obtain s' r where run: "run_merge_loop (so_kv E) (so_meta E) (so_fs E) (checkpoint_backend (so_merge E) base)
      (ex_cleanup x) tr (ex_max_retries x) (metadata S, st_world S) = (s', r)" by fastforce
  obtain s0 started where s0: "on_world now_secs (metadata S, st_world S) = (s0, started)" by fastforce
  have "checkpoint_merge.outcome view (so_meta E) started (max (ex_max_retries x) (0 + 1)) s0 s' r"
    using run s0 storage_ok_synced [OF ok]
    by (intro checkpoint_merge.attempts_outcome [OF env])
      (auto simp: run_merge_loop_def simp del: on_world_Pair dest!: on_world_iff [THEN iffD1])
  then have "synced view (so_meta E) (fst s')" by (simp add: checkpoint_merge.outcome_def)
  with run ok show ?thesis
    by (cases s') (simp add: run_task_def on_merge_def b storage_ok_def)
qed

lemma recover_merge_state_ok:
  assumes env: "env_ok (so_kv E) view pend (so_meta E)" and ok: "storage_ok view E S"
  shows "storage_ok view E (fst (recover_merge_state E S))"
proof (cases "merge_executor S")
  case None
  then show ?thesis using ok save_keeps_storage_ok(4) [OF env ok] by (simp add: recover_merge_state_def Let_def)
next
  case (Some x)
  obtain S1 r where sp: "spawn_task E x S = (S1, r)" by fastforce
  have "storage_ok view E S1" using spawn_task_ok [OF ok, of x] sp by simp
  then show ?thesis
    using ok Some sp save_keeps_storage_ok(4) [OF env]
    by (auto simp: recover_merge_state_def Let_def split: sum.splits option.splits)
qed

lemma storage_new_ok:
  assumes env: "env_ok (so_kv E) view pend (so_meta E)" and run: "SurrealStorage_new E t w = Inr S"
  shows "storage_ok view E S"
  using run load_new_synced(1) [OF env_ok_kv [OF env]]
  by (auto simp: SurrealStorage_new_def storage_ok_def split: prod.splits sum.splits)

section \<open>The state machine against its specification\<close>

text \<open>
  A request's effect on the key-value map. The replay of the merge backend has the same effect
  on the tree, through the encoding of keys as bytes.
\<close>

primrec kv_effect :: "KVRequest \<Rightarrow> (string \<Rightarrow> bytes option) \<Rightarrow> string \<Rightarrow> bytes option" where
  "kv_effect (Set key value) m = m(key := Some value)"
| "kv_effect (Delete key) m = m(key := None)"

lemma apply_request_eq:
  "apply_request req S = (S\<lparr>state_machine := kv_effect req (state_machine S)\<rparr>, Inr Ok)"
  by (cases req) (simp_all add: apply_request_def)

lemma state_machine_applied:
  "state_machine (fold (\<lambda>r S. fst (apply_request r S)) rs S) = fold kv_effect rs (state_machine S)"
  by (induction rs arbitrary: S) (simp_all add: apply_request_eq)

lemma request_effect_as_bytes:
  "\<forall>k. m (as_bytes k) = sm k \<Longrightarrow> fold request_effect rs m (as_bytes k) = fold kv_effect rs sm k"
proof (induction rs arbitrary: m sm)
  case (Cons r rs)
  have "\<forall>k. request_effect r m (as_bytes k) = kv_effect r sm k" using Cons.prems by (cases r) auto
  then show ?case using Cons.IH by simp
qed simp


lemma append_log_entry_frame:
  assumes "append_log_entry E trm index req S = (S', Inr u)"
  shows "state_machine S' = state_machine S" "raft_entries S' = raft_entries S"
    "applied_state (metadata S') = \<lparr>last_applied_index = index, last_applied_term = trm\<rparr>"
    "snapshot_state (metadata S') = snapshot_state (metadata S)"
    "bt_wf (raft_logs S) \<Longrightarrow> \<exists>payload. to_stdvec (so_request E) req = Inr payload \<and>
       bt_get (raft_logs S') = (bt_get (raft_logs S))(index \<mapsto> LogEntry_new trm index payload)"
  using assms
  by (auto elim!: append_log_entry_cases simp: bt_get_insert save_applied_state_def save_slot_def try_then_Inr on_tree_eq
      split: sum.splits)

lemma apply_delta_entries_Inr:
  assumes "apply_delta_entries E es S = (S', Inr u)"
  shows "\<exists>rs. requests_of (so_request E) es = Some rs \<and>
      state_machine S' = fold kv_effect rs (state_machine S) \<and> raft_entries S' = raft_entries S \<and>
      snapshot_state (metadata S') = snapshot_state (metadata S) \<and>
      applied_state (metadata S') = (if es = [] then applied_state (metadata S)
        else \<lparr>last_applied_index = de_index (last es), last_applied_term = de_term (last es)\<rparr>)"
  using assms
proof (induction es arbitrary: S)
  case (Cons e es)
  then obtain req S1 v where dec: "from_bytes (so_request E) (de_payload e) = Inr req"
    and ap: "append_log_entry E (de_term e) (de_index e) req (S\<lparr>state_machine := kv_effect req (state_machine S)\<rparr>) = (S1, Inr v)"
    and rest: "apply_delta_entries E es S1 = (S', Inr u)"
    by (auto simp: apply_request_eq try_then_Inr split: sum.splits)
  show ?case
    using Cons.IH [OF rest] dec append_log_entry_frame(1-4) [OF ap] by auto
qed simp

lemma built_delta:
  assumes "codec_ok (se_envelope (so_snap E))" "codec_ok (se_entries (so_snap E))" "zstd_ok (se_zstd (so_snap E))"
    and built: "build_snapshot_auto E trm L = (L', Inr snap)"
    and delta: "decode_snapshot_payload (so_snap E) (snap_data snap) = Inr (Some (DecodedDelta m es))"
    and cp: "last_checkpoint (snapshot_state (metadata L)) = Some cp"
  shows "es = delta_candidates L \<and> dm_format m = Delta (checkpoint_index cp) (of_nat (length (delta_candidates L)))"
proof -
  let ?cfg = "\<lparr>sbc_node_id = 1, sbc_node_addr = ''127.0.0.1:50051'', sbc_current_term = trm\<rparr>"
  obtain s' where run: "build_snapshot_with_delta (so_snap E) ?cfg (last_applied_index (applied_state (metadata L)))
      (snapshot_state (metadata L)) (delta_candidates L) (tree (metadata L), st_world L) = (s', Inr snap)"
    using built by (auto simp: build_snapshot_auto_def Let_def try_then_Inr on_tree_world_iff)
  show ?thesis using built_decodes [OF assms(1-3) run] delta cp by (auto split: if_splits)
qed

text \<open>Every candidate lies above the last checkpoint, unless that is at the largest index.\<close>

lemma delta_candidates_above:
  assumes "\<forall>(i, l) \<in> set (raft_logs L). log_index l = i" "last_checkpoint (snapshot_state (metadata L)) = Some cp"
    and "checkpoint_index cp \<noteq> - 1" "e \<in> set (delta_candidates L)"
  shows "checkpoint_index cp < de_index e"
proof -
  have "delta_candidates L = (if last_applied_index (applied_state (metadata L)) < saturating_add (checkpoint_index cp) 1 then []
      else map (\<lambda>(i, l). DeltaEntry_new (log_term l) (log_index l) (log_payload l))
        (bt_range (saturating_add (checkpoint_index cp) 1) (last_applied_index (applied_state (metadata L))) (raft_logs L)))"
    using assms(2) by (auto simp: delta_candidates_def applied_log_entries_def Let_def case_prod_beta' not_less dest: leD)
  then obtain i l where "(i, l) \<in> set (raft_logs L)" "saturating_add (checkpoint_index cp) 1 \<le> i" "de_index e = log_index l"
    using assms(4) by (auto simp: bt_range_def DeltaEntry_new_def split: if_splits)
  moreover have "checkpoint_index cp < saturating_add (checkpoint_index cp) 1"
  proof -
    have "unat (checkpoint_index cp) \<noteq> 2 ^ 64 - 1"
      using assms(3) by (simp only: u64_max_iff not_False_eq_True)
    then show ?thesis using unsigned_less [of "checkpoint_index cp", where ?'a = nat]
      by (simp add: word_less_nat_alt unat_saturating_add)
  qed
  ultimately show ?thesis using assms(1) by fastforce
qed

text \<open>
  A delta snapshot brings a follower up to date. If the leader's snapshot turned out
  to be a delta and the follower's applied index is the leader's checkpoint index, then after
  installing it the follower's state machine is its old one with the requests of exactly the
  leader's applied log entries since the checkpoint applied in log order, its applied position
  is that of the last of them, and its own log is untouched. With any other applied index the
  install is refused and changes nothing.
\<close>

lemma delta_snapshot_install:
  assumes "codec_ok (se_envelope (so_snap E))" "codec_ok (se_entries (so_snap E))" "zstd_ok (se_zstd (so_snap E))"
    and built: "build_snapshot_auto E trm L = (L', Inr snap)"
    and delta: "decode_snapshot_payload (so_snap E) (snap_data snap) = Inr (Some (DecodedDelta m es))"
    and cp: "last_checkpoint (snapshot_state (metadata L)) = Some cp"
    and inst: "install_snapshot_auto E snap F = (F', r)"
  shows "es = delta_candidates L \<and>
    (if last_applied_index (applied_state (metadata F)) \<noteq> checkpoint_index cp
     then F' = F \<and> isl r
     else \<forall>u. r = Inr u \<longrightarrow> (\<exists>rs. requests_of (so_request E) (delta_candidates L) = Some rs \<and>
        state_machine F' = fold kv_effect rs (state_machine F) \<and> raft_entries F' = raft_entries F \<and>
        (es \<noteq> [] \<longrightarrow> applied_state (metadata F') =
           \<lparr>last_applied_index = de_index (last es), last_applied_term = de_term (last es)\<rparr>)))"
proof -
  note d = built_delta [OF assms(1-3) built delta cp]
  show ?thesis
  proof (cases "last_applied_index (applied_state (metadata F)) = checkpoint_index cp")
    case True
    then have "apply_delta_entries E es F = (F', r)"
      using inst delta d by (simp add: install_snapshot_auto_def)
    then show ?thesis using True d apply_delta_entries_Inr [of E es F F'] by auto
  next
    case False
    then show ?thesis using inst delta d by (auto simp: install_snapshot_auto_def)
  qed
qed

lemma building_delta_keeps_checkpoint:
  assumes built: "build_snapshot_auto E trm L = (L', Inr snap)"
    and delta: "decode_snapshot_payload (so_snap E) (snap_data snap) = Inr (Some (DecodedDelta m es))"
  shows "last_checkpoint (snapshot_state (metadata L')) = last_checkpoint (snapshot_state (metadata L))"
proof -
  from built delta obtain S1 S2 u
    where save: "on_metadata (save_snapshot_state (so_kv E) (so_meta E) (record_delta m es (snapshot_state (metadata L)))) S1 = (S2, Inr u)"
      and L': "L' = (case merge_executor S2 of None \<Rightarrow> S2 | Some x \<Rightarrow> fst (spawn_task E x S2))"
    by (auto simp: build_snapshot_auto_def Let_def try_then_Inr)
  have "snapshot_state (metadata S2) = record_delta m es (snapshot_state (metadata L))"
    using save by (auto simp: on_metadata_iff save_snapshot_state_def save_slot_def try_then_Inr on_tree_eq split: sum.splits)
  moreover have "metadata L' = metadata S2"
  proof (cases "merge_executor S2")
    case (Some x)
    then have "spawn_task E x S2 = (L', snd (spawn_task E x S2))" using L' by simp
    then show ?thesis by (rule spawn_task_frame) simp
  qed (use L' in simp)
  ultimately show ?thesis by (simp add: record_delta_def Let_def)
qed

text \<open>
  Claim C35: one delta per checkpoint. A follower that installed a delta with entries refuses
  every further delta the leader builds on the same checkpoint: the base of a delta is always the
  checkpoint, while the follower has moved on to the last entry of the first delta. The
  leader's own checkpoint does not move when it builds a delta, so the follower has to wait
  for a full snapshot.
\<close>

theorem next_delta_is_refused:
  assumes "codec_ok (se_envelope (so_snap E))" "codec_ok (se_entries (so_snap E))" "zstd_ok (se_zstd (so_snap E))"
    and built: "build_snapshot_auto E trm L = (L', Inr snap)"
    and delta: "decode_snapshot_payload (so_snap E) (snap_data snap) = Inr (Some (DecodedDelta m es))"
    and cp: "last_checkpoint (snapshot_state (metadata L)) = Some cp" and "checkpoint_index cp \<noteq> - 1"
    and logs: "\<forall>(i, l) \<in> set (raft_logs L). log_index l = i"
    and inst: "install_snapshot_auto E snap F = (F', Inr u)" and "es \<noteq> []"
    and built2: "build_snapshot_auto E trm2 L2 = (L2', Inr snap2)"
    and delta2: "decode_snapshot_payload (so_snap E) (snap_data snap2) = Inr (Some (DecodedDelta m2 es2))"
    and cp2: "last_checkpoint (snapshot_state (metadata L2)) = Some cp"
  shows "last_checkpoint (snapshot_state (metadata L')) = Some cp \<and>
    install_snapshot_auto E snap2 F' = (F', Inl (snapshot_error ERR_SNAPSHOT_INSTALL_BASE_MISMATCH
      (''expected='' @ show_u64 (checkpoint_index cp) @ '', got='' @ show_u64 (de_index (last es)))))"
proof -
  note d = built_delta [OF assms(1-3) built delta cp] and d2 = built_delta [OF assms(1-3) built2 delta2 cp2]
  have "apply_delta_entries E es F = (F', Inr u)"
    using inst delta d by (auto simp: install_snapshot_auto_def Let_def split: if_splits)
  then have at: "last_applied_index (applied_state (metadata F')) = de_index (last es)"
    using apply_delta_entries_Inr \<open>es \<noteq> []\<close> by fastforce
  have "checkpoint_index cp < de_index (last es)"
    using delta_candidates_above [OF logs cp assms(7), of "last es"] d \<open>es \<noteq> []\<close> by simp
  then have "de_index (last es) \<noteq> checkpoint_index cp" by simp
  then have "install_snapshot_auto E snap2 F' = (F', Inl (snapshot_error ERR_SNAPSHOT_INSTALL_BASE_MISMATCH
      (''expected='' @ show_u64 (checkpoint_index cp) @ '', got='' @ show_u64 (de_index (last es)))))"
    using delta2 d2 at by (simp add: install_snapshot_auto_def Let_def)
  moreover have "last_checkpoint (snapshot_state (metadata L')) = Some cp"
    using building_delta_keeps_checkpoint [OF built delta] cp by simp
  ultimately show ?thesis by blast
qed

text \<open>Sample nodes for concrete runs.\<close>

definition loose_codec :: "'a codec" where
  "loose_codec = \<lparr>to_stdvec = \<lambda>_. Inr [], from_bytes = \<lambda>_. Inl ''opaque''\<rparr>"

definition loose_env :: "(mem_tree, mem_txn, mem_files, unit) storage_env" where
  "loose_env = \<lparr>so_snap = sample_env [sample_delta_envelope],
     so_meta = \<lparr>voting_codec = loose_codec, applied_codec = loose_codec, snapshot_codec = loose_codec, progress_codec = loose_codec\<rparr>,
     so_request = \<lparr>to_stdvec = \<lambda>_. Inr [], from_bytes = (\<lambda>b. if b = [3] then Inr (Delete ''b'') else Inr (Set ''a'' b))\<rparr>,
     so_vote = table_codec [\<lparr>vote_term = 5, vote_voted_for = Some 2, vote_committed = True\<rparr>],
     so_default_membership = (\<lambda>_ _. ())\<rparr>"

definition sample_node :: "u64 \<Rightarrow> (u64, LogEntry) btree_map \<Rightarrow> (mem_tree, mem_files, unit) SurrealStorage" where
  "sample_node applied logs = \<lparr>metadata = (MetadataManager_new (\<lambda>_. None))\<lparr>
       applied_state := \<lparr>last_applied_index = applied, last_applied_term = 1\<rparr>, snapshot_state := sample_state\<rparr>,
     state_machine = (\<lambda>_. None), raft_logs = logs, raft_entries = [], last_purged_log_id = None,
     last_membership = \<lparr>sm_log_id = None, sm_membership = ()\<rparr>, current_snapshot = None, merge_executor = None,
     spawned = [], st_world = mem_world [] (\<lambda>_. 5)\<rparr>"

abbreviation sample_leader :: "(mem_tree, mem_files, unit) SurrealStorage" where
  "sample_leader \<equiv> sample_node 11 [(10, LogEntry_new 1 10 [1, 2]), (11, LogEntry_new 1 11 [3])]"

abbreviation sample_follower :: "(mem_tree, mem_files, unit) SurrealStorage" where
  "sample_follower \<equiv> sample_node 9 []"

lemma mem_save_applied:
  "to_stdvec (applied_codec mc) a = Inr b \<Longrightarrow>
   save_applied_state mem_kv mc a m = (m\<lparr>tree := (tree m)(key_applied := Some b), applied_state := a\<rparr>, Inr ())"
  by (simp add: save_applied_state_def save_slot_def txn_put_def on_tree_eq fun_eq_iff fun_upd_def)

lemma sample_candidates: "delta_candidates sample_leader = sample_entries"
  by (simp add: delta_candidates_def sample_node_def MetadataManager_new_def sample_state_checkpoint
      saturating_add_def applied_log_entries_def bt_range_def LogEntry_new_def sample_entries_def)

text \<open>
  Any node with the sample checkpoint and the sample entries after it builds the sample delta,
  whatever requests its codec stands for.
\<close>

lemma sample_build:
  assumes E: "E = loose_env\<lparr>so_request := rc\<rparr>"
    and node: "delta_candidates L = sample_entries" "snapshot_state (metadata L) = sample_state"
      "last_applied_index (applied_state (metadata L)) = 11" "st_world L = mem_world [] (\<lambda>_. 5)" "merge_executor L = None"
  shows "\<exists>L' snap. build_snapshot_auto E 1 L = (L', Inr snap) \<and>
     decode_snapshot_payload (sample_env [sample_delta_envelope]) (snap_data snap) =
       Inr (Some (DecodedDelta (env_metadata sample_delta_envelope) sample_entries))"
proof -
  let ?E = "sample_env [sample_delta_envelope]"
  have enc: "encode_entries stored_zstd (table_codec [[], sample_entries]) sample_entries = Inr (40 # be_encode 2 1)"
    by (simp add: encode_entries_def stored_zstd_def table_codec_def sample_entries_def del: be_encode.simps)
  have should: "should_build_delta sample_state 2 3 5"
    by (simp add: should_build_delta_def sample_state_def PersistedCheckpointMetadata_new_def)
  obtain s' where bs: "build_snapshot_with_delta ?E \<lparr>sbc_node_id = 1, sbc_node_addr = ''127.0.0.1:50051'', sbc_current_term = 1\<rparr>
      11 sample_state sample_entries (tree (metadata L), mem_world [] (\<lambda>_. 5)) = (s', Inr \<lparr>snap_meta = \<lparr>
        meta_last_log_id = Some (new_term_index 1 11), meta_snapshot_id = ''delta-'' @ show_u64 (11 :: u64) @ ''-'' @ show_u64 (5 :: u64),
        meta_last_membership = \<lparr>sm_log_id = None, sm_membership = ()\<rparr>\<rparr>, snap_data = be_encode 2 0\<rparr>)"
    using should
    by (simp add: build_snapshot_with_delta_def enc now_secs_eq mem_world_def persist_to_temp_file_def
        on_files_def Let_def path_join_def sample_state_checkpoint length_sample_entries
        to_stdvec_table_codec sample_delta_envelope_def build_snapshot_meta_def
        build_local_membership_def del: be_encode.simps)
  have dec: "decode_snapshot_payload ?E (be_encode 2 0) =
      Inr (Some (DecodedDelta (env_metadata sample_delta_envelope) sample_entries))"
    by (simp add: decode_snapshot_payload_def table_codec_def be_decode_encode sample_delta_envelope_def
        DeltaMetadata_with_file_path_def DeltaMetadata_new_def decode_entries_def stored_zstd_def del: be_encode.simps)
  show ?thesis
    using bs dec node
    by (cases s') (simp add: E build_snapshot_auto_def loose_env_def Let_def on_tree_world_def
        on_metadata_def mem_save_snapshot loose_codec_def del: be_encode.simps)
qed

lemma sample_leader_build:
  "\<exists>L' snap. build_snapshot_auto loose_env 1 sample_leader = (L', Inr snap) \<and>
     decode_snapshot_payload (sample_env [sample_delta_envelope]) (snap_data snap) =
       Inr (Some (DecodedDelta (env_metadata sample_delta_envelope) sample_entries))"
  by (rule sample_build [where rc = "so_request loose_env", OF _ sample_candidates]) (simp_all add: sample_node_def)

lemma sample_install:
  obtains L' snap F' where "build_snapshot_auto loose_env 1 sample_leader = (L', Inr snap)"
    "decode_snapshot_payload (so_snap loose_env) (snap_data snap) =
       Inr (Some (DecodedDelta (env_metadata sample_delta_envelope) sample_entries))"
    "install_snapshot_auto loose_env snap sample_follower = (F', Inr ())"
proof -
  let ?m = "env_metadata sample_delta_envelope"
  obtain L' snap where run: "build_snapshot_auto loose_env 1 sample_leader = (L', Inr snap)"
    and dec: "decode_snapshot_payload (so_snap loose_env) (snap_data snap) = Inr (Some (DecodedDelta ?m sample_entries))"
    using sample_leader_build by (auto simp: loose_env_def)
  have fmt: "dm_format ?m = Delta 9 2"
    by (simp add: sample_delta_envelope_def DeltaMetadata_with_file_path_def DeltaMetadata_new_def)
  have ap: "\<exists>F'. apply_delta_entries loose_env sample_entries sample_follower = (F', Inr ())"
    by (simp add: sample_entries_def DeltaEntry_new_def loose_env_def apply_request_def append_log_entry_def
        on_metadata_def mem_save_applied loose_codec_def)
  then obtain F' where "install_snapshot_auto loose_env snap sample_follower = (F', Inr ())"
    using dec fmt by (auto simp: install_snapshot_auto_def sample_node_def MetadataManager_new_def)
  with run dec show thesis by (rule that)
qed

lemma sample_leader_checkpoint:
  "last_checkpoint (snapshot_state (metadata sample_leader)) = Some (PersistedCheckpointMetadata_new 9 1 7 5)"
  by (simp add: sample_node_def sample_state_checkpoint)

lemma loose_env_ok:
  "codec_ok (se_envelope (so_snap loose_env))" "codec_ok (se_entries (so_snap loose_env))" "zstd_ok (se_zstd (so_snap loose_env))"
  by (simp_all add: loose_env_def table_codec_ok stored_zstd_ok)

lemma delta_snapshot_install_witness:
  "\<exists>L' snap F' m. build_snapshot_auto loose_env 1 sample_leader = (L', Inr snap) \<and>
     install_snapshot_auto loose_env snap sample_follower = (F', Inr ()) \<and>
     decode_snapshot_payload (so_snap loose_env) (snap_data snap) = Inr (Some (DecodedDelta m (delta_candidates sample_leader))) \<and>
     applied_state (metadata F') = \<lparr>last_applied_index = 11, last_applied_term = 1\<rparr>"
proof -
  obtain L' snap F' where run: "build_snapshot_auto loose_env 1 sample_leader = (L', Inr snap)"
    and dec: "decode_snapshot_payload (so_snap loose_env) (snap_data snap) =
      Inr (Some (DecodedDelta (env_metadata sample_delta_envelope) sample_entries))"
    and inst: "install_snapshot_auto loose_env snap sample_follower = (F', Inr ())"
    by (rule sample_install)
  have f9: "last_applied_index (applied_state (metadata sample_follower)) = 9" by (simp add: sample_node_def)
  show ?thesis
    using run inst dec f9 delta_snapshot_install [OF loose_env_ok run dec sample_leader_checkpoint inst]
    by (auto simp: sample_state_checkpoint sample_entries_def DeltaEntry_new_def)
qed


theorem next_delta_is_refused_witness:
  "\<exists>L' snap F' e. build_snapshot_auto loose_env 1 sample_leader = (L', Inr snap) \<and>
     install_snapshot_auto loose_env snap sample_follower = (F', Inr ()) \<and>
     install_snapshot_auto loose_env snap F' = (F', Inl e)"
proof -
  obtain L' snap F' where run: "build_snapshot_auto loose_env 1 sample_leader = (L', Inr snap)"
    and dec: "decode_snapshot_payload (so_snap loose_env) (snap_data snap) =
      Inr (Some (DecodedDelta (env_metadata sample_delta_envelope) sample_entries))"
    and inst: "install_snapshot_auto loose_env snap sample_follower = (F', Inr ())"
    by (rule sample_install)
  have "\<forall>(i, l) \<in> set (raft_logs sample_leader). log_index l = i" "sample_entries \<noteq> []"
    "checkpoint_index (PersistedCheckpointMetadata_new 9 1 7 5) \<noteq> - 1"
    by (simp_all add: sample_node_def LogEntry_new_def sample_entries_def PersistedCheckpointMetadata_new_def)
  then show ?thesis
    using next_delta_is_refused [OF loose_env_ok run dec sample_leader_checkpoint _ _ inst _ run dec sample_leader_checkpoint] run inst
    by blast
qed

end
