(* ===== verification/App.thy ===== *)
theory App
  imports Config Storage
begin

text \<open>
  \<open>src/app.rs\<close>, \<open>src/api/handlers.rs\<close> and the conversions of \<open>src/raft_adapter.rs\<close>: the
  node as its clients see it. Writes go through OpenRaft and fall back to the local state
  machine; reads are local; the HTTP handlers translate between requests and the node.
  OpenRaft is the parameter \<open>openraft\<close>, a record of the methods called, acting on the storage
  it shares with the handlers and on a runtime state \<open>'o\<close> of its own.
\<close>

section \<open>OpenRaft as the node uses it\<close>

record openraft_config =
  or_cluster_name :: string
  or_heartbeat_interval :: u64
  or_election_timeout_min :: u64
  or_election_timeout_max :: u64
  or_max_payload_entries :: u64

type_synonym ('t, 'f, 'm, 'o) node_state = "('t, 'f, 'm) SurrealStorage \<times> 'o"

record ('r, 't, 'f, 'm, 'o) openraft =
  config_validate :: "openraft_config \<Rightarrow> string + openraft_config"
  raft_create :: "u64 \<Rightarrow> openraft_config \<Rightarrow> ('t, 'f, 'm, 'o) node_state \<Rightarrow> ('t, 'f, 'm, 'o) node_state \<times> (string + 'r)"
  raft_initialize :: "'r \<Rightarrow> (u64, BasicNode) btree_map \<Rightarrow> ('t, 'f, 'm, 'o) node_state \<Rightarrow> ('t, 'f, 'm, 'o) node_state \<times> (string + unit)"
  raft_client_write :: "'r \<Rightarrow> KVRequest \<Rightarrow> ('t, 'f, 'm, 'o) node_state \<Rightarrow> ('t, 'f, 'm, 'o) node_state \<times> (string + KVResponse)"
  raft_shutdown :: "'r \<Rightarrow> ('t, 'f, 'm, 'o) node_state \<Rightarrow> ('t, 'f, 'm, 'o) node_state \<times> (string + unit)"
  raft_current_term :: "'r \<Rightarrow> ('t, 'f, 'm, 'o) node_state \<Rightarrow> u64"
  raft_server_state :: "'r \<Rightarrow> ('t, 'f, 'm, 'o) node_state \<Rightarrow> string"

section \<open>The node (app.rs)\<close>

record 'r RaftNode =
  is_standalone :: bool
  rn_node_id :: u64
  rn_raft :: "'r option"

text \<open>The fields of \<open>openraft::Config\<close> that are set; the others keep OpenRaft's defaults.\<close>

definition raft_config_of :: "Config \<Rightarrow> openraft_config" where
  "raft_config_of c = \<lparr>
     or_cluster_name = ''openraft-surrealkv'',
     or_heartbeat_interval = heartbeat_interval_ms (cf_raft c),
     or_election_timeout_min = election_timeout_ms (cf_raft c),
     or_election_timeout_max = saturating_add (election_timeout_ms (cf_raft c)) (max (heartbeat_interval_ms (cf_raft c)) 1),
     or_max_payload_entries = max_payload_entries (cf_raft c)\<rparr>"

definition RaftNode_new ::
  "('r, 't, 'f, 'm, 'o) openraft \<Rightarrow> Config \<Rightarrow> ('t, 'f, 'm, 'o) node_state \<Rightarrow>
   ('t, 'f, 'm, 'o) node_state \<times> (string + 'r RaftNode)" where
  "RaftNode_new rf c s =
     try_then (s, map_err (\<lambda>e. ''invalid openraft config: '' @ e) (config_validate rf (raft_config_of c))) (\<lambda>s raft_cfg.
     try_then (map_err_st (\<lambda>e. ''create raft node failed: '' @ e) (raft_create rf (nc_node_id (cf_node c)) raft_cfg s)) (\<lambda>s raft.
     (s, Inr \<lparr>is_standalone = False, rn_node_id = nc_node_id (cf_node c), rn_raft = Some raft\<rparr>)))"

definition initialize_cluster ::
  "('r, 't, 'f, 'm, 'o) openraft \<Rightarrow> 'r RaftNode \<Rightarrow> (u64, BasicNode) btree_map \<Rightarrow> ('t, 'f, 'm, 'o) node_state \<Rightarrow>
   ('t, 'f, 'm, 'o) node_state \<times> (string + unit)" where
  "initialize_cluster rf node members s =
     (if members = [] then (s, Inl ''raft initialize members cannot be empty'')
      else if bt_get members (rn_node_id node) = None
      then (s, Inl ''raft initialize members must include current node'')
      else case rn_raft node of
          None \<Rightarrow> (s, Inr ())
        | Some raft \<Rightarrow> map_err_st (\<lambda>e. ''raft initialize failed: '' @ e) (raft_initialize rf raft members s))"

definition RaftNode_new_standalone :: "Config \<Rightarrow> 'r RaftNode" where
  "RaftNode_new_standalone c = \<lparr>is_standalone = True, rn_node_id = nc_node_id (cf_node c), rn_raft = None\<rparr>"

definition fallback_allowed :: "string \<Rightarrow> bool" where
  "fallback_allowed msg =
     (let lower = to_lowercase msg in
      contains lower ''forward'' \<or> contains lower ''leader'' \<or>
      contains lower ''temporarily unavailable'' \<or> contains lower ''unavailable'')"

definition local_write ::
  "KVRequest \<Rightarrow> ('t, 'f, 'm, 'o) node_state \<Rightarrow> ('t, 'f, 'm, 'o) node_state \<times> (RaftError + KVResponse)" where
  "local_write req s = (case apply_request req (fst s) of (S, r) \<Rightarrow> ((S, snd s), r))"

definition client_write ::
  "('r, 't, 'f, 'm, 'o) openraft \<Rightarrow> 'r RaftNode \<Rightarrow> KVRequest \<Rightarrow> ('t, 'f, 'm, 'o) node_state \<Rightarrow>
   ('t, 'f, 'm, 'o) node_state \<times> (string + KVResponse)" where
  "client_write rf node req s =
     (let fallback = (\<lambda>s. map_err_st (\<lambda>e. ''client_write fallback failed: '' @ display_RaftError e) (local_write req s)) in
      case rn_raft node of
        None \<Rightarrow> fallback s
      | Some raft \<Rightarrow> (case raft_client_write rf raft req s of
          (s, Inr resp) \<Rightarrow> (s, Inr resp)
        | (s, Inl msg) \<Rightarrow>
            if fallback_allowed msg then fallback s
            else (s, Inl (''raft client_write failed: '' @ msg))))"

definition is_real_raft :: "'r RaftNode \<Rightarrow> bool" where
  "is_real_raft node = (rn_raft node \<noteq> None \<and> \<not> is_standalone node)"

definition RaftNode_shutdown ::
  "('r, 't, 'f, 'm, 'o) openraft \<Rightarrow> 'r RaftNode \<Rightarrow> ('t, 'f, 'm, 'o) node_state \<Rightarrow> ('t, 'f, 'm, 'o) node_state \<times> (string + unit)" where
  "RaftNode_shutdown rf node s =
     (case rn_raft node of
        None \<Rightarrow> (s, Inr ())
      | Some raft \<Rightarrow> map_err_st (\<lambda>e. ''raft shutdown failed: '' @ e) (raft_shutdown rf raft s))"

definition node_current_term :: "('r, 't, 'f, 'm, 'o) openraft \<Rightarrow> 'r RaftNode \<Rightarrow> ('t, 'f, 'm, 'o) node_state \<Rightarrow> u64" where
  "node_current_term rf node s = (case rn_raft node of None \<Rightarrow> 0 | Some raft \<Rightarrow> raft_current_term rf raft s)"

definition node_current_role :: "('r, 't, 'f, 'm, 'o) openraft \<Rightarrow> 'r RaftNode \<Rightarrow> ('t, 'f, 'm, 'o) node_state \<Rightarrow> string" where
  "node_current_role rf node s =
     (case rn_raft node of
        Some raft \<Rightarrow> raft_server_state rf raft s
      | None \<Rightarrow> if is_standalone node then ''Standalone'' else ''Running'')"

definition applied_index :: "('t, 'f, 'm, 'o) node_state \<Rightarrow> u64" where
  "applied_index s = last_applied_index (applied_state (metadata (fst s)))"

definition read_key :: "string \<Rightarrow> ('t, 'f, 'm, 'o) node_state \<Rightarrow> string + bytes option" where
  "read_key key s = map_err (\<lambda>e. ''read key failed: '' @ display_RaftError e) (Storage_read key (fst s))"

section \<open>HTTP handlers (api/handlers.rs)\<close>

record 'r AppState =
  raft_node :: "'r RaftNode option"
  as_node_id :: u64

datatype AppError = NotFound string | Internal string

text \<open>The status code and the message of the JSON body.\<close>

primrec into_response :: "AppError \<Rightarrow> u16 \<times> string" where
  "into_response (NotFound msg) = (404, msg)"
| "into_response (Internal msg) = (500, msg)"

text \<open>Base64 encoding is the parameter \<open>b64\<close>; the body of the response is the encoded value.\<close>

definition get_key :: "(bytes \<Rightarrow> string) \<Rightarrow> string \<Rightarrow> ('t, 'f, 'm, 'o) node_state \<Rightarrow> AppError + string" where
  "get_key b64 key s =
     and_then (map_err (\<lambda>e. Internal (display_RaftError e)) (Storage_read key (fst s))) (\<lambda>value.
     case value of
       Some v \<Rightarrow> Inr (b64 v)
     | None \<Rightarrow> Inl (NotFound (''Key '' @ [CHR 0x27] @ key @ [CHR 0x27] @ '' not found'')))"

definition write_request ::
  "('r, 't, 'f, 'm, 'o) openraft \<Rightarrow> 'r AppState \<Rightarrow> KVRequest \<Rightarrow> ('t, 'f, 'm, 'o) node_state \<Rightarrow>
   ('t, 'f, 'm, 'o) node_state \<times> (AppError + unit)" where
  "write_request rf app req s =
     (case raft_node app of
        Some node \<Rightarrow> try_then (map_err_st Internal (client_write rf node req s)) (\<lambda>s _. (s, Inr ()))
      | None \<Rightarrow> try_then (map_err_st (\<lambda>e. Internal (display_RaftError e)) (local_write req s)) (\<lambda>s _. (s, Inr ())))"

definition put_key ::
  "('r, 't, 'f, 'm, 'o) openraft \<Rightarrow> 'r AppState \<Rightarrow> string \<Rightarrow> bytes \<Rightarrow> ('t, 'f, 'm, 'o) node_state \<Rightarrow>
   ('t, 'f, 'm, 'o) node_state \<times> (AppError + string)" where
  "put_key rf app key body s =
     try_then (write_request rf app (Set key body) s) (\<lambda>s _.
     (s, Inr (''Key '' @ [CHR 0x27] @ key @ [CHR 0x27] @ '' updated successfully'')))"

definition delete_key ::
  "('r, 't, 'f, 'm, 'o) openraft \<Rightarrow> 'r AppState \<Rightarrow> string \<Rightarrow> ('t, 'f, 'm, 'o) node_state \<Rightarrow>
   ('t, 'f, 'm, 'o) node_state \<times> (AppError + string)" where
  "delete_key rf app key s =
     try_then (write_request rf app (Delete key) s) (\<lambda>s _.
     (s, Inr (''Key '' @ [CHR 0x27] @ key @ [CHR 0x27] @ '' deleted successfully'')))"

record HealthResponse =
  health_status :: string
  health_node_id :: u64

definition health_check :: "'r AppState \<Rightarrow> HealthResponse" where
  "health_check app = \<lparr>health_status = ''healthy'', health_node_id = as_node_id app\<rparr>"

record ReadyResponse =
  ready :: bool
  ready_mode :: string
  ready_node_id :: u64
  probe_latency_ms :: u64
  ready_last_error :: "string option"
  checked_at_unix_ms :: u64

text \<open>The measured latency and the time of the check are arguments.\<close>

definition ready_check :: "'r AppState \<Rightarrow> u64 \<Rightarrow> u64 \<Rightarrow> ('t, 'f, 'm, 'o) node_state \<Rightarrow> ReadyResponse" where
  "ready_check app latency now_ms s =
     (let (rdy, err) = (case Storage_read ''__ready_probe__'' (fst s) of
          Inr _ \<Rightarrow> (True, None) | Inl e \<Rightarrow> (False, Some (display_RaftError e)))
      in \<lparr>ready = rdy, ready_mode = ''process+storage'', ready_node_id = as_node_id app,
          probe_latency_ms = latency, ready_last_error = err, checked_at_unix_ms = now_ms\<rparr>)"

record StatusResponse =
  status_node_id :: u64
  status_role :: string
  status_term :: u64
  status_applied_index :: u64

definition status_of ::
  "('r, 't, 'f, 'm, 'o) openraft \<Rightarrow> 'r AppState \<Rightarrow> ('t, 'f, 'm, 'o) node_state \<Rightarrow> StatusResponse" where
  "status_of rf app s =
     (let applied = applied_state (metadata (fst s)); voting = voting_state (metadata (fst s));
          (role, trm) = (case raft_node app of
              Some node \<Rightarrow> (node_current_role rf node s, node_current_term rf node s)
            | None \<Rightarrow> (''unknown'', current_term voting))
      in \<lparr>status_node_id = as_node_id app, status_role = role, status_term = trm,
          status_applied_index = last_applied_index applied\<rparr>)"

section \<open>Conversions (raft_adapter.rs)\<close>

record AdapterRaftConfig =
  adapter_election_timeout_ms :: u64
  adapter_heartbeat_interval_ms :: u64

definition AdapterRaftConfig_default :: AdapterRaftConfig where
  "AdapterRaftConfig_default = \<lparr>adapter_election_timeout_ms = 150, adapter_heartbeat_interval_ms = 50\<rparr>"

text \<open>
  The two adapter traits, which nothing in the program implements or calls: an implementation
  with state \<open>'s\<close> is a record of its methods. A snapshot's metadata names its members.
\<close>

record 'n SnapshotMetadata =
  sn_index :: u64
  sn_term :: u64
  sn_members :: "(u64 \<times> 'n) list"

record 's RaftLogStorageAdapter =
  adapter_append :: "bytes list \<Rightarrow> 's \<Rightarrow> 's \<times> (RaftError + unit)"
  adapter_truncate :: "u64 \<Rightarrow> 's \<Rightarrow> 's \<times> (RaftError + unit)"
  adapter_purge :: "u64 \<Rightarrow> 's \<Rightarrow> 's \<times> (RaftError + unit)"

record ('s, 'n) RaftStateMachineAdapter =
  adapter_apply :: "bytes \<Rightarrow> 's \<Rightarrow> 's \<times> (RaftError + bytes)"
  adapter_snapshot :: "'s \<Rightarrow> 's \<times> (RaftError + bytes)"
  adapter_install_snapshot :: "'n SnapshotMetadata \<Rightarrow> bytes \<Rightarrow> 's \<Rightarrow> 's \<times> (RaftError + unit)"

definition convert_openraft_error :: "string \<Rightarrow> RaftError" where
  "convert_openraft_error err = RaftProto err"

definition convert_io_error :: "string \<Rightarrow> RaftError" where
  "convert_io_error err = Io err"

definition convert_serde_error :: "string \<Rightarrow> RaftError" where
  "convert_serde_error err = Serialization err"

section \<open>What a client observes\<close>

text \<open>
  What OpenRaft's documentation says of \<open>client_write\<close>: it returns with success once the request
  was applied to the local state machine; a refused request was not applied.
\<close>

definition openraft_applies :: "('r, 't, 'f, 'm, 'o) openraft \<Rightarrow> bool" where
  "openraft_applies rf \<longleftrightarrow> (\<forall>r req s s' q. raft_client_write rf r req s = (s', q) \<longrightarrow>
     state_machine (fst s') = (if isl q then state_machine (fst s) else kv_effect req (state_machine (fst s))))"

lemma openraft_appliesD:
  "openraft_applies rf \<Longrightarrow> raft_client_write rf r req s = (s', q) \<Longrightarrow>
     state_machine (fst s') = (if isl q then state_machine (fst s) else kv_effect req (state_machine (fst s)))"
  unfolding openraft_applies_def by blast

lemma local_write_eq:
  "local_write req s = (((fst s)\<lparr>state_machine := kv_effect req (state_machine (fst s))\<rparr>, snd s), Inr Ok)"
  by (simp add: local_write_def apply_request_eq)

lemma client_write_cases:
  assumes "client_write rf node req s = (s', q)"
  obtains (raft) r resp where "rn_raft node = Some r" "raft_client_write rf r req s = (s', Inr resp)" "q = Inr resp"
  | (refused) r msg where "rn_raft node = Some r" "raft_client_write rf r req s = (s', Inl msg)" "\<not> fallback_allowed msg"
      "q = Inl (''raft client_write failed: '' @ msg)"
  | (fallback) r msg s1 where "rn_raft node = Some r" "raft_client_write rf r req s = (s1, Inl msg)" "fallback_allowed msg"
      "(s', Inr Ok) = local_write req s1" "q = Inr Ok"
  | (local) "rn_raft node = None" "(s', Inr Ok) = local_write req s" "q = Inr Ok"
proof (cases "rn_raft node")
  case None
  then show thesis by (intro local) (use assms in \<open>simp_all add: client_write_def local_write_eq Let_def\<close>)
next
  case (Some r)
  obtain s1 a where w: "raft_client_write rf r req s = (s1, a)" by fastforce
  show thesis
  proof (cases a)
    case (Inr resp)
    then show thesis
      by (intro raft [OF Some, of resp]) (use assms Some w in \<open>simp_all add: client_write_def Let_def\<close>)
  next
    case (Inl msg)
    show thesis
    proof (cases "fallback_allowed msg")
      case True
      then show thesis
        by (intro fallback [OF Some, of s1 msg])
          (use assms Some w Inl in \<open>simp_all add: client_write_def local_write_eq Let_def\<close>)
    next
      case False
      then show thesis
        by (intro refused [OF Some, of msg]) (use assms Some w Inl in \<open>simp_all add: client_write_def Let_def\<close>)
    qed
  qed
qed

lemma client_write_applies:
  assumes "openraft_applies rf" and "client_write rf node req s = (s', q)"
  shows "state_machine (fst s') = (if isl q then state_machine (fst s) else kv_effect req (state_machine (fst s)))"
  using assms(2)
proof (cases rule: client_write_cases)
  case (fallback r msg s1)
  then show ?thesis using openraft_appliesD [OF assms(1) fallback(2)] by (simp add: local_write_eq)
next
  case (raft r resp)
  then show ?thesis using openraft_appliesD [OF assms(1) raft(2)] by simp
next
  case (refused r msg)
  then show ?thesis using openraft_appliesD [OF assms(1) refused(2)] by simp
qed (simp add: local_write_eq)

lemma write_request_applies:
  assumes "openraft_applies rf" and "write_request rf app req s = (s', q)"
  shows "state_machine (fst s') = (if isl q then state_machine (fst s) else kv_effect req (state_machine (fst s)))"
proof (cases "raft_node app")
  case None
  then show ?thesis using assms(2) by (auto simp: write_request_def local_write_eq)
next
  case (Some node)
  obtain s1 a where w: "client_write rf node req s = (s1, a)" by fastforce
  then have "s' = s1 \<and> isl q = isl a"
    using assms(2) Some by (cases a) (auto simp: write_request_def)
  then show ?thesis using client_write_applies [OF assms(1) w] by simp
qed

lemma write_request_error:
  assumes "write_request rf app req s = (s', Inl e)"
  shows "fst (into_response e) = 500"
proof (cases "raft_node app")
  case None
  then show ?thesis using assms by (simp add: write_request_def local_write_eq)
next
  case (Some node)
  obtain s1 a where w: "client_write rf node req s = (s1, a)" by fastforce
  then show ?thesis using assms Some by (cases a) (auto simp: write_request_def)
qed

lemma put_delete_run:
  "put_key rf app key body s = (s', r) \<Longrightarrow>
     \<exists>q. write_request rf app (Set key body) s = (s', q) \<and> isl q = isl r \<and> (\<forall>e. r = Inl e \<longrightarrow> q = Inl e)"
  "delete_key rf app key s = (s', r) \<Longrightarrow>
     \<exists>q. write_request rf app (Delete key) s = (s', q) \<and> isl q = isl r \<and> (\<forall>e. r = Inl e \<longrightarrow> q = Inl e)"
  by (cases "write_request rf app (Set key body) s"; cases "snd (write_request rf app (Set key body) s)";
      auto simp: put_key_def)
    (cases "write_request rf app (Delete key) s"; cases "snd (write_request rf app (Delete key) s)";
      auto simp: delete_key_def)

lemma get_key_eq:
  "get_key b64 key s = (case state_machine (fst s) key of
     Some v \<Rightarrow> Inr (b64 v)
   | None \<Rightarrow> Inl (NotFound (''Key '' @ [CHR 0x27] @ key @ [CHR 0x27] @ '' not found'')))"
  by (simp add: get_key_def Storage_read_def)


text \<open>A consensus layer that never finds a leader.\<close>

definition leaderless :: "(unit, 't, 'f, 'm, 'o) openraft" where
  "leaderless = \<lparr>config_validate = Inr, raft_create = (\<lambda>_ _ s. (s, Inr ())), raft_initialize = (\<lambda>_ _ s. (s, Inr ())),
     raft_client_write = (\<lambda>_ _ s. (s, Inl ''has to forward request to: None, None'')),
     raft_shutdown = (\<lambda>_ s. (s, Inr ())), raft_current_term = (\<lambda>_ _. 1), raft_server_state = (\<lambda>_ _. ''Candidate'')\<rparr>"

definition leaderless_app :: "unit AppState" where
  "leaderless_app = \<lparr>raft_node = Some \<lparr>is_standalone = False, rn_node_id = 1, rn_raft = Some ()\<rparr>, as_node_id = 1\<rparr>"

lemma leaderless_applies: "openraft_applies leaderless"
  by (simp add: openraft_applies_def leaderless_def)

lemma forward_allows_fallback: "fallback_allowed ''has to forward request to: None, None''"
  by code_simp

lemma leaderless_put:
  "\<exists>s' msg. put_key leaderless leaderless_app ''k'' [1] (sample_follower, ()) = (s', Inr msg)"
  using forward_allows_fallback
  by (simp add: put_key_def write_request_def leaderless_app_def client_write_def leaderless_def local_write_eq Let_def)


text \<open>
  Claim C19: a write the consensus layer refuses is acknowledged and applied on this node only.
  When OpenRaft answers that the request has to go to the leader, or that there is none, the
  node applies it to its own state machine and reports success; consensus log, applied log,
  applied position and membership are as OpenRaft left them, so the write is in no snapshot
  and reaches no other node.
\<close>

theorem refused_write_is_applied_locally:
  assumes "rn_raft node = Some r" and "raft_client_write rf r req s = (s1, Inl msg)"
    and "contains (to_lowercase msg) ''forward'' \<or> contains (to_lowercase msg) ''leader''"
  shows "\<exists>s'. client_write rf node req s = (s', Inr Ok) \<and>
    state_machine (fst s') = kv_effect req (state_machine (fst s1)) \<and>
    raft_entries (fst s') = raft_entries (fst s1) \<and> raft_logs (fst s') = raft_logs (fst s1) \<and>
    metadata (fst s') = metadata (fst s1) \<and> last_membership (fst s') = last_membership (fst s1) \<and>
    delta_candidates (fst s') = delta_candidates (fst s1)"
proof -
  have "fallback_allowed msg" using assms(3) by (auto simp: fallback_allowed_def)
  then show ?thesis
    using assms(1,2)
    by (simp add: client_write_def local_write_eq Let_def delta_candidates_def applied_log_entries_def)
qed

theorem refused_write_is_applied_locally_witness:
  "\<exists>s'. client_write leaderless \<lparr>is_standalone = False, rn_node_id = 1, rn_raft = Some ()\<rparr> (Delete ''k'') (sample_follower, ()) = (s', Inr Ok) \<and>
     raft_entries (fst s') = raft_entries sample_follower"
proof -
  have "raft_client_write leaderless () (Delete ''k'') (sample_follower, ()) =
      ((sample_follower, ()), Inl ''has to forward request to: None, None'')"
    by (simp add: leaderless_def)
  moreover have "contains (to_lowercase ''has to forward request to: None, None'') ''forward''" by code_simp
  ultimately show ?thesis
    using refused_write_is_applied_locally [of "\<lparr>is_standalone = False, rn_node_id = 1, rn_raft = Some ()\<rparr>" "()"
        leaderless "Delete ''k''" "(sample_follower, ())"] by fastforce
qed

end
