(* ===== verification/Metrics.thy ===== *)
theory Metrics
  imports Merge_Policy App
begin

text \<open>
  \<open>src/metrics/\<close>: what the program reports. A call of the recorders is the list of events it
  hands to the metrics crate, in order; a registry is the list of all events so far, of which
  the exporter shows, for each name and set of labels, the number of increments of a counter,
  the last value of a gauge and the values of a histogram. A sample keeps the integer that
  the source converts to floating point.
\<close>

section \<open>Events\<close>

datatype sample = AsF64 u64 | Ratio u64 nat

type_synonym labels = "(string \<times> string) list"

datatype metric_event = Increment string labels | SetGauge string labels sample | Observe string labels sample

definition counter_value :: "metric_event list \<Rightarrow> string \<Rightarrow> labels \<Rightarrow> nat" where
  "counter_value evs name ls = length (filter (\<lambda>e. e = Increment name ls) evs)"

fun gauge_value :: "metric_event list \<Rightarrow> string \<Rightarrow> labels \<Rightarrow> sample option" where
  "gauge_value [] name ls = None"
| "gauge_value (e # evs) name ls =
     (case gauge_value evs name ls of
        Some v \<Rightarrow> Some v
      | None \<Rightarrow> (case e of SetGauge n l v \<Rightarrow> if n = name \<and> l = ls then Some v else None | _ \<Rightarrow> None))"

definition show_bool :: "bool \<Rightarrow> string" where
  "show_bool b = (if b then ''true'' else ''false'')"

definition saturating_mul :: "u64 \<Rightarrow> u64 \<Rightarrow> u64" where
  "saturating_mul a b = (if unat a * unat b < 2 ^ 64 then a * b else - 1)"

section \<open>Snapshot and merge metrics (mod.rs)\<close>

datatype SnapshotStage = DecodePayload | ValidateBase | ApplyDelta | RejectPayload

primrec SnapshotStage_as_str :: "SnapshotStage \<Rightarrow> string" where
  "SnapshotStage_as_str DecodePayload = ''decode_payload''"
| "SnapshotStage_as_str ValidateBase = ''validate_base''"
| "SnapshotStage_as_str ApplyDelta = ''apply_delta''"
| "SnapshotStage_as_str RejectPayload = ''reject_payload''"

primrec strict_error_metric_name :: "SnapshotStage \<Rightarrow> string" where
  "strict_error_metric_name DecodePayload = ''snapshot_strict_error_decode_payload_total''"
| "strict_error_metric_name ValidateBase = ''snapshot_strict_error_validate_base_total''"
| "strict_error_metric_name ApplyDelta = ''snapshot_strict_error_apply_delta_total''"
| "strict_error_metric_name RejectPayload = ''snapshot_strict_error_reject_payload_total''"

definition record_snapshot_strict_error :: "string \<Rightarrow> SnapshotStage \<Rightarrow> u64 \<Rightarrow> u64 \<Rightarrow> metric_event list" where
  "record_snapshot_strict_error kind stage base applied = [Increment (strict_error_metric_name stage)
     [(''error_key'', kind), (''snapshot_stage'', SnapshotStage_as_str stage),
      (''base_index'', show_u64 base), (''applied_index'', show_u64 applied)]]"

abbreviation METRIC_MERGE_DURATION_MS :: string where
  "METRIC_MERGE_DURATION_MS \<equiv> ''raft_snapshot_merge_duration_ms''"
abbreviation METRIC_MERGE_SUCCESS_TOTAL :: string where
  "METRIC_MERGE_SUCCESS_TOTAL \<equiv> ''raft_snapshot_merge_success_total''"
abbreviation METRIC_MERGE_FAILED_TOTAL :: string where
  "METRIC_MERGE_FAILED_TOTAL \<equiv> ''raft_snapshot_merge_failed_total''"
abbreviation METRIC_CHECKPOINT_SIZE_BYTES :: string where
  "METRIC_CHECKPOINT_SIZE_BYTES \<equiv> ''raft_snapshot_checkpoint_size_bytes''"
abbreviation METRIC_DELTA_CHAIN_LENGTH :: string where
  "METRIC_DELTA_CHAIN_LENGTH \<equiv> ''raft_snapshot_delta_chain_length''"
abbreviation METRIC_DELTA_CUMULATIVE_MB :: string where
  "METRIC_DELTA_CUMULATIVE_MB \<equiv> ''raft_snapshot_delta_cumulative_mb''"

text \<open>A merge recorder is the text of its node id; the two recorders of a result read the clock.\<close>

definition record_snapshot_chain :: "string \<Rightarrow> nat \<Rightarrow> u64 \<Rightarrow> metric_event list" where
  "record_snapshot_chain node_id chain_len cumulative_bytes =
     [SetGauge METRIC_DELTA_CHAIN_LENGTH [(''node_id'', node_id)] (AsF64 (of_nat chain_len)),
      SetGauge METRIC_DELTA_CUMULATIVE_MB [(''node_id'', node_id)] (Ratio cumulative_bytes (1024 * 1024))]"

definition merge_duration_ms :: "u64 \<Rightarrow> 'f world \<Rightarrow> 'f world \<times> u64" where
  "merge_duration_ms started_at_secs w =
     (case system_time w of (w, t) \<Rightarrow>
      let now = (case t of None \<Rightarrow> started_at_secs | Some s \<Rightarrow> s) in
      (w, saturating_mul (saturating_sub now started_at_secs) 1000))"

definition record_merge_success ::
  "string \<Rightarrow> MergeTrigger \<Rightarrow> u8 \<Rightarrow> u64 \<Rightarrow> u64 \<Rightarrow> 'f world \<Rightarrow> 'f world \<times> metric_event list" where
  "record_merge_success node_id trigger retries checkpoint_size_bytes started_at_secs w =
     (case merge_duration_ms started_at_secs w of (w, duration_ms) \<Rightarrow>
      (w, [Observe METRIC_MERGE_DURATION_MS [(''node_id'', node_id), (''trigger'', MergeTrigger_as_str trigger),
             (''retries'', show_u64 retries)] (AsF64 duration_ms),
           Increment METRIC_MERGE_SUCCESS_TOTAL [(''node_id'', node_id), (''trigger'', MergeTrigger_as_str trigger)],
           SetGauge METRIC_CHECKPOINT_SIZE_BYTES [(''node_id'', node_id)] (AsF64 checkpoint_size_bytes)]))"

definition record_merge_failure ::
  "string \<Rightarrow> MergeTrigger \<Rightarrow> u8 \<Rightarrow> u64 \<Rightarrow> string \<Rightarrow> 'f world \<Rightarrow> 'f world \<times> metric_event list" where
  "record_merge_failure node_id trigger retries started_at_secs error_code w =
     (case merge_duration_ms started_at_secs w of (w, duration_ms) \<Rightarrow>
      (w, [Observe METRIC_MERGE_DURATION_MS [(''node_id'', node_id), (''trigger'', MergeTrigger_as_str trigger),
             (''retries'', show_u64 retries), (''result'', ''failed''), (''error_code'', error_code)] (AsF64 duration_ms),
           Increment METRIC_MERGE_FAILED_TOTAL [(''node_id'', node_id), (''trigger'', MergeTrigger_as_str trigger),
             (''error_code'', error_code)]]))"

section \<open>HTTP metrics (api.rs)\<close>

text \<open>A recorder of the remaining groups is its node id.\<close>

definition record_request :: "u64 \<Rightarrow> string \<Rightarrow> string \<Rightarrow> u16 \<Rightarrow> u64 \<Rightarrow> metric_event list" where
  "record_request node_id method endpoint status latency_ms =
     (let ls = [(''node_id'', show_u64 node_id), (''method'', method), (''endpoint'', endpoint), (''status'', show_u64 status)] in
      [Increment ''http_requests_total'' ls, Observe ''http_request_duration_ms'' ls (AsF64 latency_ms)])"

definition record_get_kv :: "u64 \<Rightarrow> bool \<Rightarrow> u64 \<Rightarrow> metric_event list" where
  "record_get_kv node_id found latency_ms = record_request node_id ''GET'' ''/kv/:key'' (if found then 200 else 404) latency_ms"

definition record_put_kv :: "u64 \<Rightarrow> bool \<Rightarrow> u64 \<Rightarrow> metric_event list" where
  "record_put_kv node_id success latency_ms = record_request node_id ''POST'' ''/kv/:key'' (if success then 200 else 500) latency_ms"

definition record_delete_kv :: "u64 \<Rightarrow> bool \<Rightarrow> u64 \<Rightarrow> metric_event list" where
  "record_delete_kv node_id success latency_ms = record_request node_id ''DELETE'' ''/kv/:key'' (if success then 200 else 500) latency_ms"

definition record_health_check :: "u64 \<Rightarrow> u64 \<Rightarrow> metric_event list" where
  "record_health_check node_id latency_ms = record_request node_id ''GET'' ''/health'' 200 latency_ms"

definition record_status :: "u64 \<Rightarrow> u64 \<Rightarrow> metric_event list" where
  "record_status node_id latency_ms = record_request node_id ''GET'' ''/status'' 200 latency_ms"

text \<open>A timer is the reading of the monotonic clock, in nanoseconds, at its start.\<close>

record RequestTimer =
  timer_start :: nat

definition RequestTimer_new :: "nat \<Rightarrow> RequestTimer" where
  "RequestTimer_new now = \<lparr>timer_start = now\<rparr>"

definition elapsed_ms :: "RequestTimer \<Rightarrow> nat \<Rightarrow> u64" where
  "elapsed_ms timer now = of_nat ((now - timer_start timer) div 1000000)"

text \<open>The aggregate: the first three recorders by the node id, the fourth by its text.\<close>

record AppMetrics =
  am_raft :: u64
  am_storage :: u64
  am_api :: u64
  am_merge :: string

definition AppMetrics_new :: "u64 \<Rightarrow> AppMetrics" where
  "AppMetrics_new node_id = \<lparr>am_raft = node_id, am_storage = node_id, am_api = node_id, am_merge = show_u64 node_id\<rparr>"

section \<open>Raft and storage metrics (raft.rs, storage.rs)\<close>

abbreviation node_label :: "u64 \<Rightarrow> string \<times> string" where
  "node_label node_id \<equiv> (''node_id'', show_u64 node_id)"

definition record_current_term :: "u64 \<Rightarrow> u64 \<Rightarrow> metric_event list" where
  "record_current_term node_id value = [SetGauge ''raft_current_term'' [node_label node_id] (AsF64 value)]"

definition record_state :: "u64 \<Rightarrow> string \<Rightarrow> metric_event list" where
  "record_state node_id state = [SetGauge ''raft_state'' [node_label node_id, (''state'', state)] (AsF64 1)]"

definition record_commit_index :: "u64 \<Rightarrow> u64 \<Rightarrow> metric_event list" where
  "record_commit_index node_id value = [SetGauge ''raft_commit_index'' [node_label node_id] (AsF64 value)]"

definition record_applied_index :: "u64 \<Rightarrow> u64 \<Rightarrow> metric_event list" where
  "record_applied_index node_id value = [SetGauge ''raft_applied_index'' [node_label node_id] (AsF64 value)]"

definition record_log_length :: "u64 \<Rightarrow> u64 \<Rightarrow> metric_event list" where
  "record_log_length node_id value = [SetGauge ''raft_log_length'' [node_label node_id] (AsF64 value)]"

definition record_election_latency_ms :: "u64 \<Rightarrow> u64 \<Rightarrow> metric_event list" where
  "record_election_latency_ms node_id latency_ms = [Observe ''raft_election_latency_ms'' [node_label node_id] (AsF64 latency_ms)]"

definition record_replication_latency_ms :: "u64 \<Rightarrow> u64 \<Rightarrow> u64 \<Rightarrow> metric_event list" where
  "record_replication_latency_ms node_id latency_ms peer =
     [Observe ''raft_replication_latency_ms'' [node_label node_id, (''peer'', show_u64 peer)] (AsF64 latency_ms)]"

definition record_append_entries_success :: "u64 \<Rightarrow> u64 \<Rightarrow> metric_event list" where
  "record_append_entries_success node_id peer =
     [Increment ''raft_append_entries_total'' [node_label node_id, (''peer'', show_u64 peer), (''status'', ''success'')]]"

definition record_append_entries_failure :: "u64 \<Rightarrow> u64 \<Rightarrow> metric_event list" where
  "record_append_entries_failure node_id peer =
     [Increment ''raft_append_entries_total'' [node_label node_id, (''peer'', show_u64 peer), (''status'', ''failure'')]]"

definition record_vote_request :: "u64 \<Rightarrow> bool \<Rightarrow> metric_event list" where
  "record_vote_request node_id granted =
     [Increment ''raft_vote_requests_total'' [node_label node_id, (''granted'', show_bool granted)]]"

definition record_keys_total :: "u64 \<Rightarrow> u64 \<Rightarrow> metric_event list" where
  "record_keys_total node_id value = [SetGauge ''storage_keys_total'' [node_label node_id] (AsF64 value)]"

definition record_size_bytes :: "u64 \<Rightarrow> u64 \<Rightarrow> metric_event list" where
  "record_size_bytes node_id value = [SetGauge ''storage_size_bytes'' [node_label node_id] (AsF64 value)]"

definition record_read :: "u64 \<Rightarrow> bool \<Rightarrow> metric_event list" where
  "record_read node_id success =
     [Increment ''storage_reads_total'' [node_label node_id, (''status'', if success then ''success'' else ''failed'')]]"

definition record_write :: "u64 \<Rightarrow> bool \<Rightarrow> metric_event list" where
  "record_write node_id success =
     [Increment ''storage_writes_total'' [node_label node_id, (''status'', if success then ''success'' else ''failed'')]]"

definition record_delete :: "u64 \<Rightarrow> bool \<Rightarrow> metric_event list" where
  "record_delete node_id success =
     [Increment ''storage_deletes_total'' [node_label node_id, (''status'', if success then ''success'' else ''failed'')]]"

definition record_snapshot_created :: "u64 \<Rightarrow> metric_event list" where
  "record_snapshot_created node_id = [Increment ''storage_snapshots_created_total'' [node_label node_id]]"

definition record_snapshot_restored :: "u64 \<Rightarrow> metric_event list" where
  "record_snapshot_restored node_id = [Increment ''storage_snapshots_restored_total'' [node_label node_id]]"

definition record_log_entries :: "u64 \<Rightarrow> u64 \<Rightarrow> metric_event list" where
  "record_log_entries node_id value = [SetGauge ''storage_log_entries'' [node_label node_id] (AsF64 value)]"

section \<open>The exporter (exporter.rs)\<close>

text \<open>
  The process-wide handle, set at most once. \<open>install\<close> is \<open>set_global_recorder\<close>, which fails
  when a recorder is installed already; \<open>render\<close> turns a handle into text.
\<close>

definition init_prometheus_recorder :: "(string + 'h) \<Rightarrow> 'h option \<Rightarrow> 'h option \<times> (string + unit)" where
  "init_prometheus_recorder install handle =
     (case handle of
        Some h \<Rightarrow> (Some h, Inr ())
      | None \<Rightarrow> (case install of
          Inl e \<Rightarrow> (None, Inl (''failed to install metrics recorder: '' @ e))
        | Inr h \<Rightarrow> (Some h, Inr ())))"

definition render_metrics :: "('h \<Rightarrow> string) \<Rightarrow> 'h option \<Rightarrow> string" where
  "render_metrics render handle = (case handle of
     Some h \<Rightarrow> render h | None \<Rightarrow> ''# prometheus recorder not initialized'' @ [CHR 0x0A])"

section \<open>Strict errors of an install (storage.rs)\<close>

text \<open>
  The events that installing a snapshot hands to the recorder, along the branches of
  \<open>install_snapshot_auto\<close>: the source makes every strict error in \<open>snapshot_error\<close>, which counts it.
\<close>

fun apply_delta_events ::
  "('t, 'x, 'f, 'm) storage_env \<Rightarrow> DeltaEntry list \<Rightarrow> ('t, 'f, 'm) SurrealStorage \<Rightarrow> metric_event list" where
  "apply_delta_events E [] S = []"
| "apply_delta_events E (e # es) S =
     (case from_bytes (so_request E) (de_payload e) of
        Inl _ \<Rightarrow> record_snapshot_strict_error ERR_SNAPSHOT_INSTALL_DELTA_APPLY_DECODE ApplyDelta 0 0
      | Inr req \<Rightarrow> (case apply_request req S of
          (S, Inl _) \<Rightarrow> []
        | (S, Inr _) \<Rightarrow> (case append_log_entry E (de_term e) (de_index e) req S of
            (S, Inl _) \<Rightarrow> []
          | (S, Inr _) \<Rightarrow> apply_delta_events E es S)))"

definition install_snapshot_events ::
  "('t, 'x, 'f, 'm) storage_env \<Rightarrow> 'm RaftSnapshot \<Rightarrow> ('t, 'f, 'm) SurrealStorage \<Rightarrow> metric_event list" where
  "install_snapshot_events E snapshot S =
     (case decode_snapshot_payload (so_snap E) (snap_data snapshot) of
        Inl e \<Rightarrow> record_snapshot_strict_error ERR_SNAPSHOT_INSTALL_DELTA_DECODE DecodePayload 0 0
      | Inr (Some (DecodedDelta meta entries)) \<Rightarrow>
          (let base = (case dm_format meta of Delta b _ \<Rightarrow> b | Full _ \<Rightarrow> 0);
               applied = last_applied_index (applied_state (metadata S)) in
           if applied \<noteq> base
           then record_snapshot_strict_error ERR_SNAPSHOT_INSTALL_BASE_MISMATCH ValidateBase base applied
           else apply_delta_events E entries S)
      | Inr (Some (DecodedFull _)) \<Rightarrow> []
      | Inr None \<Rightarrow> record_snapshot_strict_error ERR_SNAPSHOT_INSTALL_INVALID_PAYLOAD RejectPayload 0 0)"

section \<open>What the numbers say\<close>

lemma gauge_value_append:
  "gauge_value (evs @ evs') name ls = (case gauge_value evs' name ls of Some v \<Rightarrow> Some v | None \<Rightarrow> gauge_value evs name ls)"
  by (induction evs) (auto split: option.splits)

lemma counter_value_append [simp]: "counter_value (evs @ evs') name ls = counter_value evs name ls + counter_value evs' name ls"
  by (simp add: counter_value_def)

lemma unat_saturating_mul: "unat (saturating_mul a b) = min (unat a * unat b) (2 ^ 64 - 1)"
  by (auto simp: saturating_mul_def unat_word_ariths unat_max_word not_less)

text \<open>Installing the recorder again keeps the handle that is there.\<close>

lemma init_prometheus_once:
  assumes "init_prometheus_recorder install handle = (handle', Inr u)"
  shows "handle' \<noteq> None \<and> init_prometheus_recorder install' handle' = (handle', Inr ())"
  using assms by (auto simp: init_prometheus_recorder_def split: option.splits sum.splits)

text \<open>The counter of a strict error names its stage: different stages count apart.\<close>

lemma strict_error_metric_inject:
  "strict_error_metric_name s = strict_error_metric_name t \<longleftrightarrow> s = t"
  "strict_error_metric_name s = ''snapshot_strict_error_'' @ SnapshotStage_as_str s @ ''_total''"
  by (cases s; cases t; simp) (cases s; simp)

text \<open>
  The gauge of the state is never taken back: after a node reported one state and then
  another, both series show 1, so the exported states do not tell the current one.
\<close>

lemma reported_states_accumulate:
  assumes "a \<noteq> b"
  shows "gauge_value (evs @ record_state i a @ record_state i b) ''raft_state'' [node_label i, (''state'', a)] = Some (AsF64 1)"
    and "gauge_value (evs @ record_state i a @ record_state i b) ''raft_state'' [node_label i, (''state'', b)] = Some (AsF64 1)"
  using assms by (simp_all add: record_state_def gauge_value_append)

text \<open>The duration of a merge in milliseconds, when the clock is not before the start and the product fits.\<close>

lemma merge_duration:
  assumes "merge_duration_ms started w = (w', d)" "clock w (ticks w) = Some t" "started \<le> t" "unat (t - started) * 1000 < 2 ^ 64"
  shows "unat d = 1000 * (unat t - unat started)"
proof -
  have "unat (saturating_sub t started) = unat t - unat started" by (simp add: unat_saturating_sub)
  moreover have "unat (t - started) = unat t - unat started" using assms(3) by (simp add: unat_sub word_le_nat_alt)
  ultimately show ?thesis
    using assms by (auto simp: merge_duration_ms_def system_time_def Let_def unat_saturating_mul)
qed

text \<open>
  The status recorded for a write agrees with the one sent: 500 exactly when the handler
  answers with an error.
\<close>

lemma recorded_put_status:
  assumes "put_key rf app key body s = (s', r)"
  shows "counter_value (record_put_kv i (\<not> isl r) ms) ''http_requests_total''
    [node_label i, (''method'', ''POST''), (''endpoint'', ''/kv/:key''),
     (''status'', show_u64 (case r of Inl e \<Rightarrow> fst (into_response e) | Inr _ \<Rightarrow> 200))] = 1"
proof (cases r)
  case (Inl e)
  then have "fst (into_response e) = 500" using put_delete_run(1) [OF assms] write_request_error by fastforce
  with Inl show ?thesis by (simp add: record_put_kv_def record_request_def counter_value_def Let_def)
qed (simp add: record_put_kv_def record_request_def counter_value_def Let_def)

text \<open>The stage of a strict error, by its key.\<close>

definition strict_stage :: "string \<Rightarrow> SnapshotStage option" where
  "strict_stage kind = map_of [(ERR_SNAPSHOT_INSTALL_DELTA_DECODE, DecodePayload),
     (ERR_SNAPSHOT_INSTALL_BASE_MISMATCH, ValidateBase), (ERR_SNAPSHOT_INSTALL_DELTA_APPLY_DECODE, ApplyDelta),
     (ERR_SNAPSHOT_INSTALL_INVALID_PAYLOAD, RejectPayload)] kind"

text \<open>A delta whose entry does not decode is the one strict error of applying it.\<close>

lemma apply_delta_events_result:
  assumes "apply_delta_entries E es S = (S', r)"
  shows "apply_delta_events E es S = [] \<or>
    apply_delta_events E es S = record_snapshot_strict_error ERR_SNAPSHOT_INSTALL_DELTA_APPLY_DECODE ApplyDelta 0 0 \<and>
    (\<exists>detail. r = Inl (snapshot_error ERR_SNAPSHOT_INSTALL_DELTA_APPLY_DECODE detail))"
  using assms
proof (induction es arbitrary: S)
  case (Cons e es)
  show ?case
  proof (cases "from_bytes (so_request E) (de_payload e)")
    case (Inr req)
    obtain S1 x where 1: "apply_request req S = (S1, x)" by fastforce
    obtain S2 y where 2: "append_log_entry E (de_term e) (de_index e) req S1 = (S2, y)" by fastforce
    show ?thesis using Cons Inr 1 2 by (cases x; cases y) auto
  qed (use Cons.prems in auto)
qed simp

lemma strict_stage_simps:
  "strict_stage ERR_SNAPSHOT_INSTALL_DELTA_DECODE = Some DecodePayload"
  "strict_stage ERR_SNAPSHOT_INSTALL_BASE_MISMATCH = Some ValidateBase"
  "strict_stage ERR_SNAPSHOT_INSTALL_DELTA_APPLY_DECODE = Some ApplyDelta"
  "strict_stage ERR_SNAPSHOT_INSTALL_INVALID_PAYLOAD = Some RejectPayload"
  by (simp_all add: strict_stage_def)

definition counted :: "metric_event list \<Rightarrow> RaftError + unit \<Rightarrow> bool" where
  "counted evs r \<longleftrightarrow> (\<exists>kind stage base applied detail. strict_stage kind = Some stage \<and> r = Inl (snapshot_error kind detail) \<and>
     evs = record_snapshot_strict_error kind stage base applied)"

lemma countedI:
  "strict_stage kind = Some stage \<Longrightarrow> r = Inl (snapshot_error kind detail) \<Longrightarrow>
   evs = record_snapshot_strict_error kind stage base applied \<Longrightarrow> counted evs r"
  unfolding counted_def by blast

text \<open>
  An install counts at most one strict error, and when it counts one it is refused with that
  error: the key in the message is the key of the counter, under the stage that belongs to it.
\<close>

lemma strict_errors_counted:
  assumes "install_snapshot_auto E snapshot S = (S', r)"
  shows "install_snapshot_events E snapshot S = [] \<or> counted (install_snapshot_events E snapshot S) r"
proof (cases "decode_snapshot_payload (so_snap E) (snap_data snapshot)")
  case (Inl e)
  have "counted (install_snapshot_events E snapshot S) r"
    by (rule countedI [OF strict_stage_simps(1), where detail = "display_RaftError e"]) (use Inl assms in \<open>simp_all add: install_snapshot_auto_def install_snapshot_events_def\<close>)
  then show ?thesis ..
next
  case (Inr d)
  consider "d = None" | meta where "d = Some (DecodedFull meta)" | meta entries where "d = Some (DecodedDelta meta entries)"
    by (metis DecodedSnapshotPayload.exhaust option.exhaust)
  then show ?thesis
  proof cases
    case 1
    have "counted (install_snapshot_events E snapshot S) r"
      by (rule countedI [OF strict_stage_simps(4), where detail = "''unknown or invalid snapshot payload''"]) (use Inr 1 assms in \<open>simp_all add: install_snapshot_auto_def install_snapshot_events_def\<close>)
    then show ?thesis ..
  next
    case 2
    then show ?thesis by (simp add: install_snapshot_events_def Inr)
  next
    case 3
    let ?applied = "last_applied_index (applied_state (metadata S))" and ?base = "case dm_format meta of Delta b _ \<Rightarrow> b | Full _ \<Rightarrow> 0"
    have run: "(if ?applied \<noteq> ?base then (S, Inl (snapshot_error ERR_SNAPSHOT_INSTALL_BASE_MISMATCH
          (''expected='' @ show_u64 ?base @ '', got='' @ show_u64 ?applied))) else apply_delta_entries E entries S) = (S', r)"
      using assms by (simp only: install_snapshot_auto_def Inr 3 sum.case option.case DecodedSnapshotPayload.case Let_def)
    have evs: "install_snapshot_events E snapshot S = (if ?applied \<noteq> ?base
        then record_snapshot_strict_error ERR_SNAPSHOT_INSTALL_BASE_MISMATCH ValidateBase ?base ?applied else apply_delta_events E entries S)"
      by (simp only: install_snapshot_events_def Inr 3 sum.case option.case DecodedSnapshotPayload.case Let_def)
    show ?thesis
    proof (cases "?applied = ?base")
      case True
      then have "apply_delta_entries E entries S = (S', r)" using run by (simp only: if_False simp_thms)
      from apply_delta_events_result [OF this] show ?thesis
        using countedI [OF strict_stage_simps(3)] evs True by (metis (no_types))
    next
      case False
      then show ?thesis using countedI [OF strict_stage_simps(2)] run evs by (metis (no_types) snd_conv)
    qed
  qed
qed

text \<open>A timer read within 2 ^ 64 milliseconds shows whole milliseconds, rounded down.\<close>

lemma elapsed_ms_exact:
  assumes "now - timer_start t < 2 ^ 64 * 1000000"
  shows "unat (elapsed_ms t now) = (now - timer_start t) div 1000000"
proof -
  have "(now - timer_start t) div 1000000 < 2 ^ 64" using assms by (simp add: less_mult_imp_div_less)
  then show ?thesis by (simp add: elapsed_ms_def unat_of_nat take_bit_nat_eq_self)
qed

end
