(* ===== verification/Network.thy ===== *)
theory Network
  imports Ordered_Map Types
begin

text \<open>
  \<open>src/network/client.rs\<close>, \<open>src/network/mod.rs\<close> and \<open>src/network/server.rs\<close>: remote calls
  between nodes. A client encodes a request, sends it with a timeout and a bounded number of
  retries and decodes the reply; a pool keeps one client per node; a snapshot is sent in
  chunks; the server decodes, calls the node and encodes its answer. The gRPC transport is the
  parameter \<open>grpc\<close> over a state \<open>'n\<close> of everything beyond the channel: one call yields a
  reply, an error status, or the timeout elapses first. The interface \<open>remote_call\<close> states
  what a retried call promises, for each of the three kinds of call.
\<close>

section \<open>The transport\<close>

datatype rpc_outcome = Reply bytes | Failure string | Elapsed

text \<open>
  \<open>channel_connect\<close> takes the address and the connect timeout; a call takes the channel, the
  request timeout, the size limit of messages and the payload.
\<close>

record ('c, 'n) grpc =
  from_shared :: "string \<Rightarrow> string + unit"
  channel_connect :: "string \<Rightarrow> nat \<Rightarrow> 'n \<Rightarrow> 'n \<times> (string + 'c)"
  call_append_entries :: "'c \<Rightarrow> nat \<Rightarrow> nat \<Rightarrow> bytes \<Rightarrow> 'n \<Rightarrow> 'n \<times> rpc_outcome"
  call_request_vote :: "'c \<Rightarrow> nat \<Rightarrow> nat \<Rightarrow> bytes \<Rightarrow> 'n \<Rightarrow> 'n \<times> rpc_outcome"
  call_install_snapshot :: "'c \<Rightarrow> nat \<Rightarrow> nat \<Rightarrow> bytes \<Rightarrow> 'n \<Rightarrow> 'n \<times> rpc_outcome"

record 'm InstallSnapshotRequest =
  isr_vote :: Vote
  isr_meta :: "'m SnapshotMeta"
  isr_offset :: u64
  isr_data :: bytes
  isr_done :: bool

record InstallSnapshotResponse =
  isp_vote :: Vote

text \<open>The serialised forms of the requests and responses.\<close>

record ('aq, 'ar, 'vq, 'vr, 'm) rpc_codecs =
  append_req :: "'aq codec"
  append_resp :: "'ar codec"
  vote_req :: "'vq codec"
  vote_resp :: "'vr codec"
  install_req :: "'m InstallSnapshotRequest codec"
  install_resp :: "InstallSnapshotResponse codec"

section \<open>The client (client.rs)\<close>

text \<open>Durations in milliseconds.\<close>

record ClientConfig =
  connect_timeout :: nat
  request_timeout :: nat
  cc_max_retries :: nat
  max_message_size :: nat

definition ClientConfig_default :: ClientConfig where
  "ClientConfig_default = \<lparr>connect_timeout = 3000, request_timeout = 2000, cc_max_retries = 2,
     max_message_size = 64 * 1024 * 1024\<rparr>"

record 'c RaftGrpcClient =
  rg_target :: u64
  rg_channel :: 'c
  rg_config :: ClientConfig

definition RaftGrpcClient_connect ::
  "('c, 'n) grpc \<Rightarrow> u64 \<Rightarrow> string \<Rightarrow> ClientConfig \<Rightarrow> 'n \<Rightarrow> 'n \<times> (RaftError + 'c RaftGrpcClient)" where
  "RaftGrpcClient_connect G tgt addr cfg n =
     (let addr_with_scheme = (if starts_with addr ''http://'' \<or> starts_with addr ''https://''
        then addr else ''http://'' @ addr) in
      try_then (n, map_err (\<lambda>e. Network (''Invalid address '' @ addr @ '': '' @ e)) (from_shared G addr_with_scheme)) (\<lambda>n _.
      try_then (map_err_st (\<lambda>e. Network (''Failed to connect to '' @ addr @ '': '' @ e))
          (channel_connect G addr_with_scheme (connect_timeout cfg) n)) (\<lambda>n channel.
      (n, Inr \<lparr>rg_target = tgt, rg_channel = channel, rg_config = cfg\<rparr>))))"

text \<open>
  The loop around one call, the same in the three methods but for the name in the messages,
  from a count of failed attempts.
\<close>

function retry_call ::
  "('n \<Rightarrow> 'n \<times> rpc_outcome) \<Rightarrow> string \<Rightarrow> u64 \<Rightarrow> nat \<Rightarrow> nat \<Rightarrow> 'n \<Rightarrow> 'n \<times> (RaftError + bytes)" where
  "retry_call call name tgt maxr attempt n =
     (case call n of
        (n, Reply resp) \<Rightarrow> (n, Inr resp)
      | (n, Failure e) \<Rightarrow>
          if attempt \<ge> maxr
          then (n, Inl (Network (name @ '' RPC to node '' @ show_u64 tgt @ '' failed after '' @
             show_nat (attempt + 1) @ '' attempts: '' @ e)))
          else retry_call call name tgt maxr (attempt + 1) n
      | (n, Elapsed) \<Rightarrow>
          if attempt \<ge> maxr
          then (n, Inl (Network (name @ '' RPC to node '' @ show_u64 tgt @ '' timed out after '' @
             show_nat (attempt + 1) @ '' attempts'')))
          else retry_call call name tgt maxr (attempt + 1) n)"
  by pat_completeness auto
termination
  by (relation "measure (\<lambda>(call, name, tgt, maxr, attempt, n). maxr - attempt)") auto

declare retry_call.simps [simp del]

definition rpc ::
  "'q codec \<Rightarrow> 'r codec \<Rightarrow> string \<Rightarrow> (bytes \<Rightarrow> 'n \<Rightarrow> 'n \<times> rpc_outcome) \<Rightarrow> 'c RaftGrpcClient \<Rightarrow>
   'q \<Rightarrow> 'n \<Rightarrow> 'n \<times> (RaftError + 'r)" where
  "rpc cq cr name call cl req n =
     try_then (n, map_err (\<lambda>e. Serialization (''Failed to serialize request: '' @ e)) (to_stdvec cq req)) (\<lambda>n payload.
     try_then (retry_call (call payload) name (rg_target cl) (cc_max_retries (rg_config cl)) 0 n) (\<lambda>n response.
     (n, map_err (\<lambda>e. Serialization (''Failed to deserialize response: '' @ e)) (from_bytes cr response))))"

definition RaftGrpcClient_append_entries ::
  "('c, 'n) grpc \<Rightarrow> ('aq, 'ar, 'vq, 'vr, 'm) rpc_codecs \<Rightarrow> 'c RaftGrpcClient \<Rightarrow> 'aq \<Rightarrow> 'n \<Rightarrow> 'n \<times> (RaftError + 'ar)" where
  "RaftGrpcClient_append_entries G C cl req n =
     rpc (append_req C) (append_resp C) ''AppendEntries''
       (call_append_entries G (rg_channel cl) (request_timeout (rg_config cl)) (max_message_size (rg_config cl)))
       cl req n"

definition RaftGrpcClient_request_vote ::
  "('c, 'n) grpc \<Rightarrow> ('aq, 'ar, 'vq, 'vr, 'm) rpc_codecs \<Rightarrow> 'c RaftGrpcClient \<Rightarrow> 'vq \<Rightarrow> 'n \<Rightarrow> 'n \<times> (RaftError + 'vr)" where
  "RaftGrpcClient_request_vote G C cl req n =
     rpc (vote_req C) (vote_resp C) ''RequestVote''
       (call_request_vote G (rg_channel cl) (request_timeout (rg_config cl)) (max_message_size (rg_config cl)))
       cl req n"

definition RaftGrpcClient_install_snapshot ::
  "('c, 'n) grpc \<Rightarrow> ('aq, 'ar, 'vq, 'vr, 'm) rpc_codecs \<Rightarrow> 'c RaftGrpcClient \<Rightarrow> 'm InstallSnapshotRequest \<Rightarrow>
   'n \<Rightarrow> 'n \<times> (RaftError + InstallSnapshotResponse)" where
  "RaftGrpcClient_install_snapshot G C cl req n =
     rpc (install_req C) (install_resp C) ''InstallSnapshot''
       (call_install_snapshot G (rg_channel cl) (request_timeout (rg_config cl)) (max_message_size (rg_config cl)))
       cl req n"

section \<open>The connection pool\<close>

text \<open>
  The trait \<open>AddressResolver\<close> is a function. The hash map of clients is kept as an
  association list in key order; the order is not observable.
\<close>

definition StaticAddressResolver_resolve :: "(u64 \<Rightarrow> string option) \<Rightarrow> u64 \<Rightarrow> RaftError + string" where
  "StaticAddressResolver_resolve addresses node_id =
     ok_or (Network (''No address found for node '' @ show_u64 node_id)) (addresses node_id)"

record 'c ConnectionPool =
  clients :: "(u64, 'c RaftGrpcClient) btree_map"
  address_resolver :: "u64 \<Rightarrow> RaftError + string"
  pool_config :: ClientConfig

definition ConnectionPool_with_config :: "(u64 \<Rightarrow> RaftError + string) \<Rightarrow> ClientConfig \<Rightarrow> 'c ConnectionPool" where
  "ConnectionPool_with_config resolver cfg = \<lparr>clients = [], address_resolver = resolver, pool_config = cfg\<rparr>"

definition ConnectionPool_new :: "(u64 \<Rightarrow> RaftError + string) \<Rightarrow> 'c ConnectionPool" where
  "ConnectionPool_new resolver = ConnectionPool_with_config resolver ClientConfig_default"

definition get_client ::
  "('c, 'n) grpc \<Rightarrow> u64 \<Rightarrow> 'c ConnectionPool \<times> 'n \<Rightarrow> ('c ConnectionPool \<times> 'n) \<times> (RaftError + 'c RaftGrpcClient)" where
  "get_client G tgt s =
     (case s of (pool, n) \<Rightarrow>
      (case bt_get (clients pool) tgt of
         Some existing \<Rightarrow> ((pool, n), Inr existing)
       | None \<Rightarrow> (case address_resolver pool tgt of
           Inl e \<Rightarrow> ((pool, n), Inl e)
         | Inr addr \<Rightarrow> (case RaftGrpcClient_connect G tgt addr (pool_config pool) n of
             (n, Inl e) \<Rightarrow> ((pool, n), Inl e)
           | (n, Inr created) \<Rightarrow> ((pool\<lparr>clients := bt_insert tgt created (clients pool)\<rparr>, n), Inr created)))))"

definition client_count :: "'c ConnectionPool \<Rightarrow> nat" where
  "client_count pool = length (clients pool)"

definition remove_client :: "u64 \<Rightarrow> 'c ConnectionPool \<Rightarrow> 'c ConnectionPool" where
  "remove_client tgt pool = pool\<lparr>clients := bt_retain (\<lambda>k. k \<noteq> tgt) (clients pool)\<rparr>"

section \<open>The network of the consensus layer (mod.rs)\<close>

text \<open>\<open>RPCError\<close> and \<open>StreamingError\<close> as far as they are built here; a network error is its text.\<close>

datatype RPCError = NetworkError string

datatype StreamingError = Closed string | StreamNetwork string

definition convert_to_rpc_error :: "RaftError \<Rightarrow> RPCError" where
  "convert_to_rpc_error err = NetworkError (display_RaftError err)"

primrec streaming_from_rpc :: "RPCError \<Rightarrow> StreamingError" where
  "streaming_from_rpc (NetworkError e) = StreamNetwork e"

text \<open>
  The factory and the networks it hands out share one pool, which is kept in the state; a
  network itself is the node it talks to.
\<close>

record GrpcRaftNetwork =
  gn_target :: u64

definition GrpcRaftNetworkFactory_new :: "(u64 \<Rightarrow> RaftError + string) \<Rightarrow> 'c ConnectionPool" where
  "GrpcRaftNetworkFactory_new resolver = ConnectionPool_new resolver"

definition GrpcRaftNetworkFactory_with_config :: "(u64 \<Rightarrow> RaftError + string) \<Rightarrow> ClientConfig \<Rightarrow> 'c ConnectionPool" where
  "GrpcRaftNetworkFactory_with_config resolver cfg = ConnectionPool_with_config resolver cfg"

definition with_static_addresses :: "(u64 \<Rightarrow> string option) \<Rightarrow> 'c ConnectionPool" where
  "with_static_addresses addresses = GrpcRaftNetworkFactory_new (StaticAddressResolver_resolve addresses)"

definition cached_connection_count :: "'c ConnectionPool \<Rightarrow> nat" where
  "cached_connection_count pool = client_count pool"

definition new_client :: "u64 \<Rightarrow> 'b \<Rightarrow> GrpcRaftNetwork" where
  "new_client tgt node = \<lparr>gn_target = tgt\<rparr>"

text \<open>A call of the client found in the pool, on the state of the pool and the transport.\<close>

definition on_transport :: "('n \<Rightarrow> 'n \<times> 'r) \<Rightarrow> 'p \<times> 'n \<Rightarrow> ('p \<times> 'n) \<times> 'r" where
  "on_transport op s = (case op (snd s) of (n, r) \<Rightarrow> ((fst s, n), r))"

definition GrpcRaftNetwork_append_entries ::
  "('c, 'n) grpc \<Rightarrow> ('aq, 'ar, 'vq, 'vr, 'm) rpc_codecs \<Rightarrow> GrpcRaftNetwork \<Rightarrow> 'aq \<Rightarrow>
   'c ConnectionPool \<times> 'n \<Rightarrow> ('c ConnectionPool \<times> 'n) \<times> (RPCError + 'ar)" where
  "GrpcRaftNetwork_append_entries G C net req s =
     try_then (map_err_st convert_to_rpc_error (get_client G (gn_target net) s)) (\<lambda>s cl.
     map_err_st convert_to_rpc_error (on_transport (RaftGrpcClient_append_entries G C cl req) s))"

definition GrpcRaftNetwork_vote ::
  "('c, 'n) grpc \<Rightarrow> ('aq, 'ar, 'vq, 'vr, 'm) rpc_codecs \<Rightarrow> GrpcRaftNetwork \<Rightarrow> 'vq \<Rightarrow>
   'c ConnectionPool \<times> 'n \<Rightarrow> ('c ConnectionPool \<times> 'n) \<times> (RPCError + 'vr)" where
  "GrpcRaftNetwork_vote G C net req s =
     try_then (map_err_st convert_to_rpc_error (get_client G (gn_target net) s)) (\<lambda>s cl.
     map_err_st convert_to_rpc_error (on_transport (RaftGrpcClient_request_vote G C cl req) s))"

text \<open>
  The \<open>select!\<close> between the call and the cancellation: \<open>cancel\<close> tells whether replication is
  closed before the call is answered, and then the state the abandoned call leaves behind.
\<close>

definition select_install ::
  "('n \<Rightarrow> ('n \<times> string) option) \<Rightarrow> ('m InstallSnapshotRequest \<Rightarrow> 'n \<Rightarrow> 'n \<times> (RaftError + InstallSnapshotResponse)) \<Rightarrow>
   'm InstallSnapshotRequest \<Rightarrow> 'n \<Rightarrow> 'n \<times> (StreamingError + InstallSnapshotResponse)" where
  "select_install cancel install req n =
     (case cancel n of
        Some (n, closed) \<Rightarrow> (n, Inl (Closed closed))
      | None \<Rightarrow> map_err_st (\<lambda>e. streaming_from_rpc (convert_to_rpc_error e)) (install req n))"

text \<open>
  The loop over the chunks from an offset. Offsets are below the length of the vector and the
  chunk size is at least one; their sum cannot overflow, since a second chunk is only sent
  when the first was shorter than the vector.
\<close>

definition chunk_size :: "nat option \<Rightarrow> nat" where
  "chunk_size opt = max (case opt of None \<Rightarrow> 1024 * 1024 | Some k \<Rightarrow> k) 1"

function send_chunks ::
  "('n \<Rightarrow> ('n \<times> string) option) \<Rightarrow> ('m InstallSnapshotRequest \<Rightarrow> 'n \<Rightarrow> 'n \<times> (RaftError + InstallSnapshotResponse)) \<Rightarrow>
   Vote \<Rightarrow> 'm SnapshotMeta \<Rightarrow> nat option \<Rightarrow> bytes \<Rightarrow> nat \<Rightarrow> Vote \<Rightarrow> 'n \<Rightarrow> 'n \<times> (StreamingError + Vote)" where
  "send_chunks cancel install vote meta opt data offset last_vote n =
     (if offset < length data
      then let stop = min (offset + chunk_size opt) (length data);
               req = \<lparr>isr_vote = vote, isr_meta = meta, isr_offset = of_nat offset,
                      isr_data = take (stop - offset) (drop offset data), isr_done = (stop = length data)\<rparr> in
        (case select_install cancel install req n of
           (n, Inl e) \<Rightarrow> (n, Inl e)
         | (n, Inr resp) \<Rightarrow> send_chunks cancel install vote meta opt data stop (isp_vote resp) n)
      else (n, Inr last_vote))"
  by pat_completeness auto
termination
  by (relation "measure (\<lambda>(cancel, install, vote, meta, opt, data, offset, last_vote, n). length data - offset)")
    (auto simp: chunk_size_def min_def max_def split: option.splits)

declare send_chunks.simps [simp del]

definition GrpcRaftNetwork_full_snapshot ::
  "('c, 'n) grpc \<Rightarrow> ('aq, 'ar, 'vq, 'vr, 'm) rpc_codecs \<Rightarrow> ('n \<Rightarrow> ('n \<times> string) option) \<Rightarrow> GrpcRaftNetwork \<Rightarrow>
   Vote \<Rightarrow> 'm RaftSnapshot \<Rightarrow> nat option \<Rightarrow> 'c ConnectionPool \<times> 'n \<Rightarrow>
   ('c ConnectionPool \<times> 'n) \<times> (StreamingError + Vote)" where
  "GrpcRaftNetwork_full_snapshot G C cancel net vote snapshot opt s =
     try_then (map_err_st (\<lambda>e. streaming_from_rpc (convert_to_rpc_error e)) (get_client G (gn_target net) s)) (\<lambda>s cl.
     let data = snap_data snapshot in
     if data = []
     then try_then (on_transport (select_install cancel (RaftGrpcClient_install_snapshot G C cl)
            \<lparr>isr_vote = vote, isr_meta = snap_meta snapshot, isr_offset = 0, isr_data = [], isr_done = True\<rparr>) s)
          (\<lambda>s resp. (s, Inr (isp_vote resp)))
     else on_transport (send_chunks cancel (RaftGrpcClient_install_snapshot G C cl) vote (snap_meta snapshot) opt data 0 vote) s)"

section \<open>The server (server.rs)\<close>

datatype grpc_status = StatusInvalidArgument string | StatusInternal string

text \<open>The trait \<open>RaftServiceHandler\<close>: the node behind the server, with state \<open>'s\<close>; errors by their text.\<close>

record ('aq, 'ar, 'vq, 'vr, 'm, 's) RaftServiceHandler =
  handle_append_entries :: "'aq \<Rightarrow> 's \<Rightarrow> 's \<times> (string + 'ar)"
  handle_vote :: "'vq \<Rightarrow> 's \<Rightarrow> 's \<times> (string + 'vr)"
  handle_install_snapshot :: "'m InstallSnapshotRequest \<Rightarrow> 's \<Rightarrow> 's \<times> (string + InstallSnapshotResponse)"

definition serve ::
  "'q codec \<Rightarrow> 'r codec \<Rightarrow> ('q \<Rightarrow> 's \<Rightarrow> 's \<times> (string + 'r)) \<Rightarrow> bytes \<Rightarrow> 's \<Rightarrow> 's \<times> (grpc_status + bytes)" where
  "serve cq cr handler req_payload s =
     try_then (s, map_err (\<lambda>e. StatusInvalidArgument (''Deserialization failed: '' @ e)) (from_bytes cq req_payload)) (\<lambda>s req.
     try_then (map_err_st (\<lambda>e. StatusInternal (''Raft operation failed: '' @ e)) (handler req s)) (\<lambda>s resp.
     (s, map_err (\<lambda>e. StatusInternal (''Serialization failed: '' @ e)) (to_stdvec cr resp))))"

text \<open>The implementation of the trait for \<open>openraft::Raft\<close> forwards to the methods of the same name.\<close>

definition raft_service_handler ::
  "('aq \<Rightarrow> 's \<Rightarrow> 's \<times> (string + 'ar)) \<Rightarrow> ('vq \<Rightarrow> 's \<Rightarrow> 's \<times> (string + 'vr)) \<Rightarrow>
   ('m InstallSnapshotRequest \<Rightarrow> 's \<Rightarrow> 's \<times> (string + InstallSnapshotResponse)) \<Rightarrow> ('aq, 'ar, 'vq, 'vr, 'm, 's) RaftServiceHandler" where
  "raft_service_handler raft_append_entries raft_vote raft_install_snapshot =
     \<lparr>handle_append_entries = (\<lambda>req s. raft_append_entries req s), handle_vote = (\<lambda>req s. raft_vote req s),
      handle_install_snapshot = (\<lambda>req s. raft_install_snapshot req s)\<rparr>"

definition RaftGrpcServer_append_entries ::
  "('aq, 'ar, 'vq, 'vr, 'm) rpc_codecs \<Rightarrow> ('aq, 'ar, 'vq, 'vr, 'm, 's) RaftServiceHandler \<Rightarrow> bytes \<Rightarrow> 's \<Rightarrow> 's \<times> (grpc_status + bytes)" where
  "RaftGrpcServer_append_entries C H payload s = serve (append_req C) (append_resp C) (handle_append_entries H) payload s"

definition RaftGrpcServer_request_vote ::
  "('aq, 'ar, 'vq, 'vr, 'm) rpc_codecs \<Rightarrow> ('aq, 'ar, 'vq, 'vr, 'm, 's) RaftServiceHandler \<Rightarrow> bytes \<Rightarrow> 's \<Rightarrow> 's \<times> (grpc_status + bytes)" where
  "RaftGrpcServer_request_vote C H payload s = serve (vote_req C) (vote_resp C) (handle_vote H) payload s"

definition RaftGrpcServer_install_snapshot ::
  "('aq, 'ar, 'vq, 'vr, 'm) rpc_codecs \<Rightarrow> ('aq, 'ar, 'vq, 'vr, 'm, 's) RaftServiceHandler \<Rightarrow> bytes \<Rightarrow> 's \<Rightarrow> 's \<times> (grpc_status + bytes)" where
  "RaftGrpcServer_install_snapshot C H payload s = serve (install_req C) (install_resp C) (handle_install_snapshot H) payload s"

record ServerConfig =
  server_addr :: string
  server_max_message_size :: nat

definition ServerConfig_default :: ServerConfig where
  "ServerConfig_default = \<lparr>server_addr = ''127.0.0.1:50051'', server_max_message_size = 64 * 1024 * 1024\<rparr>"

text \<open>
  Starting the server: \<open>parse\<close> reads a socket address and \<open>serve_with\<close> is tonic's server with
  the given limit for messages, until the shutdown signal or a failure.
\<close>

definition start_server_with_shutdown ::
  "(string \<Rightarrow> string + 'a) \<Rightarrow> (nat \<Rightarrow> 'a \<Rightarrow> 's \<Rightarrow> 's \<times> (string + unit)) \<Rightarrow> ServerConfig \<Rightarrow> 's \<Rightarrow> 's \<times> (RaftError + unit)" where
  "start_server_with_shutdown parse serve_with cfg s =
     try_then (s, map_err (\<lambda>e. Network (''Invalid server address '' @ server_addr cfg @ '': '' @ e)) (parse (server_addr cfg))) (\<lambda>s addr.
     map_err_st (\<lambda>e. Network (''Server failed: '' @ e)) (serve_with (server_max_message_size cfg) addr s))"

text \<open>Without a signal: the server runs until it fails, \<open>serve_forever\<close> being tonic's server given \<open>pending()\<close>.\<close>

definition start_server ::
  "(string \<Rightarrow> string + 'a) \<Rightarrow> (nat \<Rightarrow> 'a \<Rightarrow> 's \<Rightarrow> 's \<times> (string + unit)) \<Rightarrow> ServerConfig \<Rightarrow> 's \<Rightarrow> 's \<times> (RaftError + unit)" where
  "start_server parse serve_forever cfg s = start_server_with_shutdown parse serve_forever cfg s"

section \<open>What a retried call promises\<close>

text \<open>
  The transport after a number of calls, and what the call after them yields: the sequence of
  attempts a client could make.
\<close>

definition after_calls :: "('n \<Rightarrow> 'n \<times> rpc_outcome) \<Rightarrow> nat \<Rightarrow> 'n \<Rightarrow> 'n" where
  "after_calls call k n = ((\<lambda>n. fst (call n)) ^^ k) n"

definition outcome_of :: "('n \<Rightarrow> 'n \<times> rpc_outcome) \<Rightarrow> nat \<Rightarrow> 'n \<Rightarrow> rpc_outcome" where
  "outcome_of call k n = snd (call (after_calls call k n))"

definition unanswered :: "rpc_outcome \<Rightarrow> bool" where
  "unanswered out = (case out of Reply _ \<Rightarrow> False | _ \<Rightarrow> True)"

definition give_up :: "string \<Rightarrow> u64 \<Rightarrow> nat \<Rightarrow> rpc_outcome \<Rightarrow> RaftError" where
  "give_up name tgt maxr out = Network (name @ '' RPC to node '' @ show_u64 tgt @
     (case out of Failure e \<Rightarrow> '' failed after '' @ show_nat (maxr + 1) @ '' attempts: '' @ e
      | _ \<Rightarrow> '' timed out after '' @ show_nat (maxr + 1) @ '' attempts''))"

lemma calls_simps [simp]:
  "after_calls call 0 n = n" "after_calls call (Suc k) n = after_calls call k (fst (call n))"
  "outcome_of call 0 n = snd (call n)" "outcome_of call (Suc k) n = outcome_of call k (fst (call n))"
  by (simp_all add: after_calls_def outcome_of_def funpow_Suc_right del: funpow.simps(2))

lemma unanswered_iff: "\<not> unanswered out \<longleftrightarrow> (\<exists>b. out = Reply b)"
  by (cases out) (auto simp: unanswered_def)

lemma retry_call_step:
  assumes "unanswered (snd (call n))" "attempt < maxr"
  shows "retry_call call name tgt maxr attempt n = retry_call call name tgt maxr (Suc attempt) (fst (call n))"
  using assms by (cases "call n"; cases "snd (call n)") (simp_all add: retry_call.simps [of _ _ _ _ attempt] unanswered_def)

lemma retry_call_reply:
  "\<lbrakk>\<forall>j < i. unanswered (outcome_of call j n); outcome_of call i n = Reply b; attempt + i \<le> maxr\<rbrakk> \<Longrightarrow>
   retry_call call name tgt maxr attempt n = (after_calls call (Suc i) n, Inr b)"
proof (induction i arbitrary: attempt n)
  case 0
  then show ?case by (cases "call n") (simp add: retry_call.simps)
next
  case (Suc i)
  then have "unanswered (snd (call n))" "\<forall>j < i. unanswered (outcome_of call j (fst (call n)))" by force+
  with Suc show ?case by (simp add: retry_call_step)
qed

lemma retry_call_exhausted:
  "\<lbrakk>\<forall>j \<le> d. unanswered (outcome_of call j n); attempt + d = maxr\<rbrakk> \<Longrightarrow>
   retry_call call name tgt maxr attempt n = (after_calls call (Suc d) n, Inl (give_up name tgt maxr (outcome_of call d n)))"
proof (induction d arbitrary: attempt n)
  case 0
  then show ?case
    by (cases "call n"; cases "snd (call n)") (simp_all add: retry_call.simps give_up_def unanswered_def)
next
  case (Suc d)
  then have "unanswered (snd (call n))" "\<forall>j \<le> d. unanswered (outcome_of call j (fst (call n)))" by force+
  with Suc show ?case by (simp add: retry_call_step)
qed

text \<open>
  The contract: the request that cannot be encoded is not sent; otherwise the calls up to the
  first reply are made, at most \<open>maxr + 1\<close> of them, and the reply is decoded, or the failure of
  the last call is reported.
\<close>

definition first_reply_decides ::
  "('q \<Rightarrow> 'n \<Rightarrow> 'n \<times> (RaftError + 'r)) \<Rightarrow> 'q codec \<Rightarrow> 'r codec \<Rightarrow> (bytes \<Rightarrow> 'n \<Rightarrow> 'n \<times> rpc_outcome) \<Rightarrow>
   (rpc_outcome \<Rightarrow> RaftError) \<Rightarrow> nat \<Rightarrow> bool" where
  "first_reply_decides request cq cr call err maxr \<longleftrightarrow> (\<forall>q n. case to_stdvec cq q of
       Inl e \<Rightarrow> request q n = (n, Inl (Serialization (''Failed to serialize request: '' @ e)))
     | Inr p \<Rightarrow> \<exists>i \<le> maxr. (\<forall>j < i. unanswered (outcome_of (call p) j n)) \<and>
         (unanswered (outcome_of (call p) i n) \<longrightarrow> i = maxr) \<and>
         request q n = (after_calls (call p) (Suc i) n, case outcome_of (call p) i n of
             Reply b \<Rightarrow> map_err (\<lambda>e. Serialization (''Failed to deserialize response: '' @ e)) (from_bytes cr b)
           | out \<Rightarrow> Inl (err out)))"

locale remote_call =
  fixes request :: "'q \<Rightarrow> 'n \<Rightarrow> 'n \<times> (RaftError + 'r)"
    and cq :: "'q codec" and cr :: "'r codec"
    and call :: "bytes \<Rightarrow> 'n \<Rightarrow> 'n \<times> rpc_outcome"
    and err :: "rpc_outcome \<Rightarrow> RaftError"
    and maxr :: nat
  assumes unencodable:
      "to_stdvec cq q = Inl e \<Longrightarrow> request q n = (n, Inl (Serialization (''Failed to serialize request: '' @ e)))"
    and replied: "\<lbrakk>to_stdvec cq q = Inr p; i \<le> maxr; \<forall>j < i. unanswered (outcome_of (call p) j n);
        outcome_of (call p) i n = Reply b\<rbrakk> \<Longrightarrow>
      request q n = (after_calls (call p) (Suc i) n,
        map_err (\<lambda>e. Serialization (''Failed to deserialize response: '' @ e)) (from_bytes cr b))"
    and exhausted: "\<lbrakk>to_stdvec cq q = Inr p; \<forall>j \<le> maxr. unanswered (outcome_of (call p) j n)\<rbrakk> \<Longrightarrow>
      request q n = (after_calls (call p) (Suc maxr) n, Inl (err (outcome_of (call p) maxr n)))"
begin

text \<open>The first reply decides; without one the last failure is reported.\<close>

lemma first_reply:
  assumes p: "to_stdvec cq q = Inr p"
  obtains i where "i \<le> maxr" "\<forall>j < i. unanswered (outcome_of (call p) j n)"
    "unanswered (outcome_of (call p) i n) \<Longrightarrow> i = maxr"
    "request q n = (after_calls (call p) (Suc i) n, case outcome_of (call p) i n of
        Reply b \<Rightarrow> map_err (\<lambda>e. Serialization (''Failed to deserialize response: '' @ e)) (from_bytes cr b)
      | out \<Rightarrow> Inl (err out))"
proof (cases "\<exists>i \<le> maxr. \<not> unanswered (outcome_of (call p) i n)")
  case True
  define i where "i = (LEAST i. \<not> unanswered (outcome_of (call p) i n))"
  from True obtain k where k: "k \<le> maxr" "\<not> unanswered (outcome_of (call p) k n)" by blast
  have i: "\<not> unanswered (outcome_of (call p) i n)" "i \<le> maxr" "\<forall>j < i. unanswered (outcome_of (call p) j n)"
    unfolding i_def using k(1) LeastI [of "\<lambda>i. \<not> unanswered (outcome_of (call p) i n)", OF k(2)]
      Least_le [of "\<lambda>i. \<not> unanswered (outcome_of (call p) i n)", OF k(2)] not_less_Least by auto
  then obtain b where b: "outcome_of (call p) i n = Reply b" by (auto simp: unanswered_iff)
  show thesis
    by (rule that [OF i(2,3)]) (use i(1) b replied [OF p i(2,3) b] in auto)
next
  case False
  then have all: "\<forall>j \<le> maxr. unanswered (outcome_of (call p) j n)" by blast
  then have "unanswered (outcome_of (call p) maxr n)" by blast
  then show thesis
    using exhausted [OF p all] all
    by (intro that [of maxr]) (auto simp: unanswered_def split: rpc_outcome.splits)
qed

lemma decides: "first_reply_decides request cq cr call err maxr"
  unfolding first_reply_decides_def
proof (intro allI)
  fix q n
  show "case to_stdvec cq q of
       Inl e \<Rightarrow> request q n = (n, Inl (Serialization (''Failed to serialize request: '' @ e)))
     | Inr p \<Rightarrow> \<exists>i \<le> maxr. (\<forall>j < i. unanswered (outcome_of (call p) j n)) \<and>
         (unanswered (outcome_of (call p) i n) \<longrightarrow> i = maxr) \<and>
         request q n = (after_calls (call p) (Suc i) n, case outcome_of (call p) i n of
             Reply b \<Rightarrow> map_err (\<lambda>e. Serialization (''Failed to deserialize response: '' @ e)) (from_bytes cr b)
           | out \<Rightarrow> Inl (err out))"
  proof (cases "to_stdvec cq q")
    case (Inr p)
    from Inr show ?thesis by (rule first_reply [of q p n]) (unfold Inr sum.case, blast)
  qed (simp add: unencodable)
qed

lemma served:
  assumes "codec_ok cq" "codec_ok cr" and p: "to_stdvec cq q = Inr p" and b: "to_stdvec cr r = Inr b"
    and deliver: "call p n = (case serve cq cr handler p n of (s, Inr b) \<Rightarrow> (s, Reply b) | (s, Inl st) \<Rightarrow> (s, Failure (shown st)))"
    and "handler q n = (n', Inr r)"
  shows "request q n = (n', Inr r)"
proof -
  have "from_bytes cq p = Inr q" "from_bytes cr b = Inr r" using assms(1-4) by (auto dest: codec_okD)
  then have "call p n = (n', Reply b)" "from_bytes cr b = Inr r" using assms(4-6) by (simp_all add: serve_def)
  then show ?thesis using replied [OF p, of 0 n b] by simp
qed

lemma never_answered:
  assumes p: "to_stdvec cq q = Inr p" and c: "\<And>s. fst (call p s) = g s \<and> unanswered (snd (call p s))"
  shows "fst (request q n) = (g ^^ Suc maxr) n \<and> isl (snd (request q n))"
proof -
  have "after_calls (call p) k = g ^^ k" for k
    unfolding after_calls_def using c by simp
  then show ?thesis using exhausted [OF p, of n] c by (simp only: outcome_of_def) simp
qed

lemma rejected:
  assumes "codec_ok cq" and p: "to_stdvec cq q = Inr p"
    and deliver: "\<And>s. call p s = (case serve cq cr handler p s of (s, Inr b) \<Rightarrow> (s, Reply b) | (s, Inl st) \<Rightarrow> (s, Failure (shown st)))"
    and rej: "\<And>s. isl (snd (handler q s))"
  shows "fst (request q n) = ((\<lambda>s. fst (handler q s)) ^^ Suc maxr) n \<and> isl (snd (request q n))"
proof (rule never_answered [OF p])
  have "from_bytes cq p = Inr q" using assms(1,2) by (auto dest: codec_okD)
  then show "fst (call p s) = fst (handler q s) \<and> unanswered (snd (call p s))" for s
    using deliver [of s] rej [of s]
    by (cases "handler q s"; cases "snd (handler q s)") (auto simp: serve_def unanswered_def)
qed

end

lemma rpc_remote_call:
  "remote_call (rpc cq cr name call cl) cq cr call
     (give_up name (rg_target cl) (cc_max_retries (rg_config cl))) (cc_max_retries (rg_config cl))"
proof unfold_locales
  fix q n p i b
  show "rpc cq cr name call cl q n = (n, Inl (Serialization (''Failed to serialize request: '' @ e)))"
    if "to_stdvec cq q = Inl e" for e using that by (simp add: rpc_def)
  assume p: "to_stdvec cq q = Inr p"
  show "rpc cq cr name call cl q n = (after_calls (call p) (Suc i) n,
        map_err (\<lambda>e. Serialization (''Failed to deserialize response: '' @ e)) (from_bytes cr b))"
    if "i \<le> cc_max_retries (rg_config cl)" "\<forall>j < i. unanswered (outcome_of (call p) j n)"
      "outcome_of (call p) i n = Reply b"
    using p retry_call_reply [OF that(2,3), of 0] that(1) by (simp add: rpc_def)
  show "rpc cq cr name call cl q n = (after_calls (call p) (Suc (cc_max_retries (rg_config cl))) n,
        Inl (give_up name (rg_target cl) (cc_max_retries (rg_config cl)) (outcome_of (call p) (cc_max_retries (rg_config cl)) n)))"
    if "\<forall>j \<le> cc_max_retries (rg_config cl). unanswered (outcome_of (call p) j n)"
    using p retry_call_exhausted [OF that, of 0] by (simp add: rpc_def)
qed

text \<open>The three methods of the client keep the contract.\<close>

abbreviation bound_call ::
  "('c \<Rightarrow> nat \<Rightarrow> nat \<Rightarrow> bytes \<Rightarrow> 'n \<Rightarrow> 'n \<times> rpc_outcome) \<Rightarrow> 'c RaftGrpcClient \<Rightarrow> bytes \<Rightarrow> 'n \<Rightarrow> 'n \<times> rpc_outcome" where
  "bound_call call cl \<equiv> call (rg_channel cl) (request_timeout (rg_config cl)) (max_message_size (rg_config cl))"

abbreviation client_error :: "string \<Rightarrow> 'c RaftGrpcClient \<Rightarrow> rpc_outcome \<Rightarrow> RaftError" where
  "client_error name cl \<equiv> give_up name (rg_target cl) (cc_max_retries (rg_config cl))"

lemma client_methods:
  "RaftGrpcClient_append_entries G C cl =
     rpc (append_req C) (append_resp C) ''AppendEntries'' (bound_call (call_append_entries G) cl) cl"
  "RaftGrpcClient_request_vote G C cl =
     rpc (vote_req C) (vote_resp C) ''RequestVote'' (bound_call (call_request_vote G) cl) cl"
  "RaftGrpcClient_install_snapshot G C cl =
     rpc (install_req C) (install_resp C) ''InstallSnapshot'' (bound_call (call_install_snapshot G) cl) cl"
  by (simp_all add: fun_eq_iff RaftGrpcClient_append_entries_def RaftGrpcClient_request_vote_def
      RaftGrpcClient_install_snapshot_def)

interpretation append_rpc: remote_call "RaftGrpcClient_append_entries G C cl" "append_req C" "append_resp C"
  "bound_call (call_append_entries G) cl" "client_error ''AppendEntries'' cl" "cc_max_retries (rg_config cl)"
  for G C cl
  unfolding client_methods by (rule rpc_remote_call)

interpretation vote_rpc: remote_call "RaftGrpcClient_request_vote G C cl" "vote_req C" "vote_resp C"
  "bound_call (call_request_vote G) cl" "client_error ''RequestVote'' cl" "cc_max_retries (rg_config cl)"
  for G C cl
  unfolding client_methods by (rule rpc_remote_call)

interpretation install_rpc: remote_call "RaftGrpcClient_install_snapshot G C cl" "install_req C" "install_resp C"
  "bound_call (call_install_snapshot G) cl" "client_error ''InstallSnapshot'' cl" "cc_max_retries (rg_config cl)"
  for G C cl
  unfolding client_methods by (rule rpc_remote_call)

text \<open>
  Claim C16: retries are bounded and the first reply counts. Each of the three remote calls ends
  after at most \<open>max_retries + 1\<close> attempts; the first attempt that is answered decides and its
  answer is decoded; if none is answered, the error names the node, the number of attempts and
  the failure of the last; and a request that cannot be encoded is never sent.
\<close>

theorem rpc_retry_outcome:
  "first_reply_decides (RaftGrpcClient_append_entries G C cl) (append_req C) (append_resp C)
     (bound_call (call_append_entries G) cl) (client_error ''AppendEntries'' cl) (cc_max_retries (rg_config cl)) \<and>
   first_reply_decides (RaftGrpcClient_request_vote G C cl) (vote_req C) (vote_resp C)
     (bound_call (call_request_vote G) cl) (client_error ''RequestVote'' cl) (cc_max_retries (rg_config cl)) \<and>
   first_reply_decides (RaftGrpcClient_install_snapshot G C cl) (install_req C) (install_resp C)
     (bound_call (call_install_snapshot G) cl) (client_error ''InstallSnapshot'' cl) (cc_max_retries (rg_config cl))"
  by (intro conjI append_rpc.decides vote_rpc.decides install_rpc.decides)

section \<open>Client and server\<close>

text \<open>A channel that reaches a server: each call runs the server's method and carries its answer back.\<close>

definition carried :: "(grpc_status \<Rightarrow> string) \<Rightarrow> 's \<times> (grpc_status + bytes) \<Rightarrow> 's \<times> rpc_outcome" where
  "carried shown r = (case r of (s, Inr b) \<Rightarrow> (s, Reply b) | (s, Inl st) \<Rightarrow> (s, Failure (shown st)))"

definition reaches ::
  "('c, 's) grpc \<Rightarrow> ('aq, 'ar, 'vq, 'vr, 'm) rpc_codecs \<Rightarrow> ('aq, 'ar, 'vq, 'vr, 'm, 's) RaftServiceHandler \<Rightarrow>
   'c RaftGrpcClient \<Rightarrow> (grpc_status \<Rightarrow> string) \<Rightarrow> bool" where
  "reaches G C H cl shown \<longleftrightarrow> (\<forall>p s.
     bound_call (call_append_entries G) cl p s = carried shown (RaftGrpcServer_append_entries C H p s) \<and>
     bound_call (call_request_vote G) cl p s = carried shown (RaftGrpcServer_request_vote C H p s) \<and>
     bound_call (call_install_snapshot G) cl p s = carried shown (RaftGrpcServer_install_snapshot C H p s))"

lemma reachesD:
  assumes "reaches G C H cl shown"
  shows "bound_call (call_append_entries G) cl p s =
      (case serve (append_req C) (append_resp C) (handle_append_entries H) p s of
         (s, Inr b) \<Rightarrow> (s, Reply b) | (s, Inl st) \<Rightarrow> (s, Failure (shown st)))"
    "bound_call (call_request_vote G) cl p s =
      (case serve (vote_req C) (vote_resp C) (handle_vote H) p s of
         (s, Inr b) \<Rightarrow> (s, Reply b) | (s, Inl st) \<Rightarrow> (s, Failure (shown st)))"
    "bound_call (call_install_snapshot G) cl p s =
      (case serve (install_req C) (install_resp C) (handle_install_snapshot H) p s of
         (s, Inr b) \<Rightarrow> (s, Reply b) | (s, Inl st) \<Rightarrow> (s, Failure (shown st)))"
  using assms by (simp_all add: reaches_def carried_def RaftGrpcServer_append_entries_def
      RaftGrpcServer_request_vote_def RaftGrpcServer_install_snapshot_def)

text \<open>
  A remote call is a call of the node. Over a channel that reaches a server, a request
  the node answers runs once on the node and the caller receives its answer unchanged; this
  holds for each of the three calls. A request the node keeps refusing is submitted to it
  again, as often as retries are allowed and once more, before the caller gets an error.
\<close>

lemma remote_call_delivers:
  assumes "reaches G C H cl shown"
    and "codec_ok (append_req C)" "codec_ok (append_resp C)" "codec_ok (vote_req C)" "codec_ok (vote_resp C)"
      "codec_ok (install_req C)" "codec_ok (install_resp C)"
  shows "(\<forall>q p s s' r b. to_stdvec (append_req C) q = Inr p \<longrightarrow> to_stdvec (append_resp C) r = Inr b \<longrightarrow>
        handle_append_entries H q s = (s', Inr r) \<longrightarrow> RaftGrpcClient_append_entries G C cl q s = (s', Inr r)) \<and>
    (\<forall>q p s s' r b. to_stdvec (vote_req C) q = Inr p \<longrightarrow> to_stdvec (vote_resp C) r = Inr b \<longrightarrow>
        handle_vote H q s = (s', Inr r) \<longrightarrow> RaftGrpcClient_request_vote G C cl q s = (s', Inr r)) \<and>
    (\<forall>q p s s' r b. to_stdvec (install_req C) q = Inr p \<longrightarrow> to_stdvec (install_resp C) r = Inr b \<longrightarrow>
        handle_install_snapshot H q s = (s', Inr r) \<longrightarrow> RaftGrpcClient_install_snapshot G C cl q s = (s', Inr r)) \<and>
    (\<forall>q p s. to_stdvec (append_req C) q = Inr p \<longrightarrow> (\<forall>s. isl (snd (handle_append_entries H q s))) \<longrightarrow>
        fst (RaftGrpcClient_append_entries G C cl q s) =
          ((\<lambda>s. fst (handle_append_entries H q s)) ^^ Suc (cc_max_retries (rg_config cl))) s \<and>
        isl (snd (RaftGrpcClient_append_entries G C cl q s)))"
proof (intro conjI)
  note to_server = reachesD [OF assms(1)]
  show "\<forall>q p s s' r b. to_stdvec (append_req C) q = Inr p \<longrightarrow> to_stdvec (append_resp C) r = Inr b \<longrightarrow>
        handle_append_entries H q s = (s', Inr r) \<longrightarrow> RaftGrpcClient_append_entries G C cl q s = (s', Inr r)"
    using append_rpc.served [OF assms(2,3) _ _ to_server(1)] by blast
  show "\<forall>q p s s' r b. to_stdvec (vote_req C) q = Inr p \<longrightarrow> to_stdvec (vote_resp C) r = Inr b \<longrightarrow>
        handle_vote H q s = (s', Inr r) \<longrightarrow> RaftGrpcClient_request_vote G C cl q s = (s', Inr r)"
    using vote_rpc.served [OF assms(4,5) _ _ to_server(2)] by blast
  show "\<forall>q p s s' r b. to_stdvec (install_req C) q = Inr p \<longrightarrow> to_stdvec (install_resp C) r = Inr b \<longrightarrow>
        handle_install_snapshot H q s = (s', Inr r) \<longrightarrow> RaftGrpcClient_install_snapshot G C cl q s = (s', Inr r)"
    using install_rpc.served [OF assms(6,7) _ _ to_server(3)] by blast
  show "\<forall>q p s. to_stdvec (append_req C) q = Inr p \<longrightarrow> (\<forall>s. isl (snd (handle_append_entries H q s))) \<longrightarrow>
        fst (RaftGrpcClient_append_entries G C cl q s) =
          ((\<lambda>s. fst (handle_append_entries H q s)) ^^ Suc (cc_max_retries (rg_config cl))) s \<and>
        isl (snd (RaftGrpcClient_append_entries G C cl q s))"
    using append_rpc.rejected [OF assms(2) _ to_server(1)] by blast
qed

text \<open>A loopback transport, and a node that counts the calls and answers even requests only.\<close>

definition loopback ::
  "('aq, 'ar, 'vq, 'vr, 'm) rpc_codecs \<Rightarrow> ('aq, 'ar, 'vq, 'vr, 'm, 's) RaftServiceHandler \<Rightarrow> (unit, 's) grpc" where
  "loopback C H = \<lparr>from_shared = (\<lambda>_. Inr ()), channel_connect = (\<lambda>_ _ s. (s, Inr ())),
     call_append_entries = (\<lambda>_ _ _ p s. carried (\<lambda>_. ''status'') (RaftGrpcServer_append_entries C H p s)),
     call_request_vote = (\<lambda>_ _ _ p s. carried (\<lambda>_. ''status'') (RaftGrpcServer_request_vote C H p s)),
     call_install_snapshot = (\<lambda>_ _ _ p s. carried (\<lambda>_. ''status'') (RaftGrpcServer_install_snapshot C H p s))\<rparr>"

definition nat_codecs :: "(nat, nat, nat, nat, unit) rpc_codecs" where
  "nat_codecs = \<lparr>append_req = table_codec [0..<8], append_resp = table_codec [0..<8],
     vote_req = table_codec [0..<8], vote_resp = table_codec [0..<8],
     install_req = table_codec [], install_resp = table_codec []\<rparr>"

definition even_node :: "(nat, nat, nat, nat, unit, nat) RaftServiceHandler" where
  "even_node = \<lparr>handle_append_entries = (\<lambda>q s. (Suc s, if even q then Inr (q + 1) else Inl ''odd'')),
     handle_vote = (\<lambda>q s. (Suc s, Inr q)), handle_install_snapshot = (\<lambda>q s. (s, Inl ''no''))\<rparr>"

definition local_client :: "unit RaftGrpcClient" where
  "local_client = \<lparr>rg_target = 2, rg_channel = (), rg_config = ClientConfig_default\<rparr>"

lemma remote_call_delivers_witness:
  "RaftGrpcClient_append_entries (loopback nat_codecs even_node) nat_codecs local_client 4 0 = (1, Inr 5) \<and>
   fst (RaftGrpcClient_append_entries (loopback nat_codecs even_node) nat_codecs local_client 3 0) = 3"
proof -
  let ?G = "loopback nat_codecs even_node"
  have "codec_ok (append_req nat_codecs)" "codec_ok (append_resp nat_codecs)" "codec_ok (vote_req nat_codecs)"
    "codec_ok (vote_resp nat_codecs)" "codec_ok (install_req nat_codecs)" "codec_ok (install_resp nat_codecs)"
    by (simp_all add: nat_codecs_def table_codec_ok)
  note d = remote_call_delivers [of ?G nat_codecs even_node local_client "\<lambda>_. ''status''", OF _ this]
  have r: "reaches ?G nat_codecs even_node local_client (\<lambda>_. ''status'')" by (simp add: reaches_def loopback_def)
  have i: "index_in 4 [0..<8] = Some 4" "index_in 3 [0..<8] = Some 3" "index_in 5 [0..<8] = Some 5" by code_simp+
  have "to_stdvec (append_req nat_codecs) 4 = Inr (be_encode 2 4)" "to_stdvec (append_req nat_codecs) 3 = Inr (be_encode 2 3)"
    "to_stdvec (append_resp nat_codecs) 5 = Inr (be_encode 2 5)"
    by (simp_all add: nat_codecs_def to_stdvec_table_codec i del: be_encode.simps)
  moreover have "handle_append_entries even_node 4 0 = (1, Inr 5)" "handle_append_entries even_node 3 s = (Suc s, Inl ''odd'')" for s
    by (simp_all add: even_node_def)
  moreover have "cc_max_retries (rg_config local_client) = 2" by (simp add: local_client_def ClientConfig_default_def)
  ultimately show ?thesis using d [OF r] by (simp add: numeral_2_eq_2)
qed

section \<open>One client per node\<close>

definition pool_ok :: "'c ConnectionPool \<Rightarrow> bool" where
  "pool_ok pool \<longleftrightarrow> bt_wf (clients pool) \<and>
     (\<forall>i cl. bt_get (clients pool) i = Some cl \<longrightarrow> rg_target cl = i \<and> rg_config cl = pool_config pool)"

lemma connect_target:
  "RaftGrpcClient_connect G tgt addr cfg n = (n', Inr cl) \<Longrightarrow> rg_target cl = tgt \<and> rg_config cl = cfg"
  by (auto simp: RaftGrpcClient_connect_def Let_def try_then_Inr)

lemma get_client_cases:
  assumes "get_client G tgt (pool, n) = ((pool', n'), r)"
  obtains (cached) cl where "bt_get (clients pool) tgt = Some cl" "pool' = pool" "n' = n" "r = Inr cl"
  | (failed) e where "bt_get (clients pool) tgt = None" "pool' = pool" "r = Inl e"
  | (created) cl where "bt_get (clients pool) tgt = None" "rg_target cl = tgt" "rg_config cl = pool_config pool"
      "pool' = pool\<lparr>clients := bt_insert tgt cl (clients pool)\<rparr>" "r = Inr cl"
proof (cases "bt_get (clients pool) tgt")
  case None
  show thesis
  proof (cases "address_resolver pool tgt")
    case (Inl e)
    then show thesis by (intro failed [of e]) (use assms None in \<open>simp_all add: get_client_def\<close>)
  next
    case (Inr addr)
    obtain m c where c: "RaftGrpcClient_connect G tgt addr (pool_config pool) n = (m, c)" by fastforce
    show thesis
    proof (cases c)
      case (Inr cl)
      then show thesis
        using assms None \<open>address_resolver pool tgt = Inr addr\<close> c connect_target [of G tgt addr "pool_config pool" n m cl]
        by (intro created [of cl]) (simp_all add: get_client_def)
    next
      case (Inl e)
      then show thesis by (intro failed [of e]) (use assms None Inr c in \<open>simp_all add: get_client_def\<close>)
    qed
  qed
next
  case (Some cl)
  then show thesis by (intro cached [of cl]) (use assms in \<open>simp_all add: get_client_def\<close>)
qed

lemma length_bt_insert: "length (bt_insert k v m) \<le> Suc (length m)"
  by (induction k v m rule: bt_insert.induct) auto

text \<open>
  The pool keeps one client per node. Asking the pool for a node yields a client of
  that node with the settings of the pool; it is kept, so that the next request for the node
  returns the same client without touching the network, until it is removed; a failed attempt
  changes nothing in the pool; and the clients of other nodes are untouched.
\<close>

lemma pool_returns_target_client:
  assumes "pool_ok pool" and "get_client G tgt (pool, n) = ((pool', n'), r)"
  shows "pool_ok pool' \<and> client_count pool' \<le> Suc (client_count pool) \<and>
    (\<forall>cl. r = Inr cl \<longrightarrow> rg_target cl = tgt \<and> rg_config cl = pool_config pool \<and>
       get_client G' tgt (pool', n'') = ((pool', n''), Inr cl)) \<and>
    (isl r \<longrightarrow> pool' = pool) \<and>
    (\<forall>i. i \<noteq> tgt \<longrightarrow> bt_get (clients pool') i = bt_get (clients pool) i) \<and>
    bt_get (clients (remove_client tgt pool')) tgt = None"
  using assms(2)
proof (cases rule: get_client_cases)
  case (created cl)
  have "bt_wf (clients pool)" using assms(1) by (simp add: pool_ok_def)
  then have "bt_get (clients pool') = (bt_get (clients pool))(tgt \<mapsto> cl)" "bt_wf (clients pool')"
    using created by (simp_all add: bt_get_insert bt_wf_insert)
  then show ?thesis
    using created assms(1) length_bt_insert
    by (simp add: pool_ok_def get_client_def client_count_def remove_client_def bt_get_retain)
qed (use assms(1) in \<open>auto simp: pool_ok_def get_client_def remove_client_def bt_get_retain\<close>)

lemma pool_returns_target_client_witness:
  "\<exists>pool' cl. get_client (loopback nat_codecs even_node) 2 (ConnectionPool_new (\<lambda>_. Inr ''b:1''), 0) = ((pool', 0), Inr cl) \<and>
     rg_target cl = 2 \<and> get_client (loopback nat_codecs even_node) 2 (pool', 5) = ((pool', 5), Inr cl)"
proof -
  let ?pool = "ConnectionPool_new (\<lambda>_. Inr ''b:1'') :: unit ConnectionPool"
  have ok: "pool_ok ?pool"
    by (simp add: pool_ok_def ConnectionPool_new_def ConnectionPool_with_config_def bt_get_def)
  obtain pool' cl where run: "get_client (loopback nat_codecs even_node) 2 (?pool, 0) = ((pool', 0), Inr cl)"
    by (simp add: get_client_def ConnectionPool_new_def ConnectionPool_with_config_def bt_get_def
        RaftGrpcClient_connect_def loopback_def Let_def)
  then show ?thesis
    using pool_returns_target_client [OF ok run, of "loopback nat_codecs even_node" 5] by auto
qed

section \<open>Sending a snapshot in chunks\<close>

text \<open>The requests of the loop, and sending a list of requests one after the other.\<close>

function chunk_requests ::
  "Vote \<Rightarrow> 'm SnapshotMeta \<Rightarrow> nat option \<Rightarrow> bytes \<Rightarrow> nat \<Rightarrow> 'm InstallSnapshotRequest list" where
  "chunk_requests vote meta opt data offset =
     (if offset < length data
      then let stop = min (offset + chunk_size opt) (length data) in
        \<lparr>isr_vote = vote, isr_meta = meta, isr_offset = of_nat offset,
         isr_data = take (stop - offset) (drop offset data), isr_done = (stop = length data)\<rparr>
        # chunk_requests vote meta opt data stop
      else [])"
  by pat_completeness auto
termination
  by (relation "measure (\<lambda>(vote, meta, opt, data, offset). length data - offset)")
    (auto simp: chunk_size_def min_def max_def split: option.splits)

declare chunk_requests.simps [simp del]

definition snapshot_requests :: "Vote \<Rightarrow> 'm RaftSnapshot \<Rightarrow> nat option \<Rightarrow> 'm InstallSnapshotRequest list" where
  "snapshot_requests vote snapshot opt =
     (if snap_data snapshot = []
      then [\<lparr>isr_vote = vote, isr_meta = snap_meta snapshot, isr_offset = 0, isr_data = [], isr_done = True\<rparr>]
      else chunk_requests vote (snap_meta snapshot) opt (snap_data snapshot) 0)"

fun send_all ::
  "('n \<Rightarrow> ('n \<times> string) option) \<Rightarrow> ('m InstallSnapshotRequest \<Rightarrow> 'n \<Rightarrow> 'n \<times> (RaftError + InstallSnapshotResponse)) \<Rightarrow>
   'm InstallSnapshotRequest list \<Rightarrow> Vote \<Rightarrow> 'n \<Rightarrow> 'n \<times> (StreamingError + Vote)" where
  "send_all cancel install [] last_vote n = (n, Inr last_vote)"
| "send_all cancel install (q # qs) last_vote n =
     (case select_install cancel install q n of
        (n, Inl e) \<Rightarrow> (n, Inl e)
      | (n, Inr resp) \<Rightarrow> send_all cancel install qs (isp_vote resp) n)"

text \<open>
  What a receiver makes of the requests: each must continue where the data so far ends, and
  the last one, and no other, says that it is the last.
\<close>

fun reassemble :: "bytes \<Rightarrow> 'm InstallSnapshotRequest list \<Rightarrow> bytes option" where
  "reassemble got [] = None"
| "reassemble got (q # qs) =
     (if unat (isr_offset q) \<noteq> length got then None
      else if isr_done q then (if qs = [] then Some (got @ isr_data q) else None)
      else reassemble (got @ isr_data q) qs)"

lemma send_chunks_all:
  "send_chunks cancel install vote meta opt data offset last_vote n =
     send_all cancel install (chunk_requests vote meta opt data offset) last_vote n"
proof (induction vote meta opt data offset arbitrary: last_vote n rule: chunk_requests.induct)
  case (1 vote meta opt data offset)
  show ?case
    by (subst send_chunks.simps, subst chunk_requests.simps) (auto simp: Let_def 1 split: prod.splits sum.splits)
qed

lemma chunk_size_pos: "0 < chunk_size opt"
  by (simp add: chunk_size_def)

lemma reassemble_chunks:
  assumes "length data < 2 ^ 64" "offset < length data"
  shows "reassemble (take offset data) (chunk_requests vote meta opt data offset) = Some data"
  using assms
proof (induction vote meta opt data offset rule: chunk_requests.induct)
  case (1 vote meta opt data offset)
  let ?stop = "min (offset + chunk_size opt) (length data)"
  have stop: "take offset data @ take (?stop - offset) (drop offset data) = take ?stop data"
    using 1(3) by (simp add: take_add [symmetric])
  have off: "unat (of_nat offset :: u64) = offset" using 1(2,3) by (simp add: unsigned_of_nat take_bit_nat_eq_self)
  show ?case
  proof (cases "?stop = length data")
    case True
    then have "chunk_requests vote meta opt data ?stop = []" by (subst chunk_requests.simps) simp
    then show ?thesis using 1(3) off stop True by (subst chunk_requests.simps) (simp add: Let_def)
  next
    case False
    then have "?stop < length data" by simp
    then have "reassemble (take ?stop data) (chunk_requests vote meta opt data ?stop) = Some data"
      using 1 by (simp add: Let_def)
    moreover have "offset + chunk_size opt \<noteq> length data" using False by auto
    ultimately show ?thesis using 1(3) off stop False by (subst chunk_requests.simps) (simp add: Let_def)
  qed
qed

lemma chunk_requests_all:
  "q \<in> set (chunk_requests vote meta opt data offset) \<Longrightarrow>
     isr_vote q = vote \<and> isr_meta q = meta \<and> 0 < length (isr_data q) \<and> length (isr_data q) \<le> chunk_size opt"
proof (induction vote meta opt data offset rule: chunk_requests.induct)
  case (1 vote meta opt data offset)
  then show ?case
    using chunk_size_pos [of opt]
    by (subst (asm) (2) chunk_requests.simps) (auto simp: Let_def min_def split: if_splits)
qed

text \<open>
  A streamed snapshot arrives whole. Sending a snapshot is sending a list of requests
  one after the other, stopping at the first failure or when replication is closed; the list
  reassembles to exactly the data of the snapshot: each request continues where the one before
  ended and only the last is marked as done, also when the snapshot is empty; and every request
  carries the vote and the snapshot's metadata and at most one chunk of data.
\<close>

lemma full_snapshot_requests:
  assumes "length (snap_data snapshot) < 2 ^ 64" and "get_client G (gn_target net) s = (s1, Inr cl)"
  shows "GrpcRaftNetwork_full_snapshot G C cancel net vote snapshot opt s =
      on_transport (send_all cancel (RaftGrpcClient_install_snapshot G C cl) (snapshot_requests vote snapshot opt) vote) s1 \<and>
    reassemble [] (snapshot_requests vote snapshot opt) = Some (snap_data snapshot) \<and>
    (\<forall>q \<in> set (snapshot_requests vote snapshot opt).
       isr_vote q = vote \<and> isr_meta q = snap_meta snapshot \<and> length (isr_data q) \<le> chunk_size opt)"
proof (cases "snap_data snapshot = []")
  case True
  then show ?thesis
    using assms(2) by (auto simp: GrpcRaftNetwork_full_snapshot_def snapshot_requests_def Let_def on_transport_def
        try_then_def split: prod.splits sum.splits)
next
  case False
  then have "reassemble (take 0 (snap_data snapshot))
      (chunk_requests vote (snap_meta snapshot) opt (snap_data snapshot) 0) = Some (snap_data snapshot)"
    using assms(1) by (intro reassemble_chunks) auto
  with False show ?thesis
    using assms(2) chunk_requests_all [of _ vote "snap_meta snapshot" opt "snap_data snapshot" 0]
    by (simp add: GrpcRaftNetwork_full_snapshot_def snapshot_requests_def send_chunks_all [abs_def])
qed

end
