(* ===== verification/Raft_Storage.thy ===== *)
theory Raft_Storage
  imports Storage
begin

text \<open>
  \<open>src/storage_raft_impl.rs\<close>: the storage as OpenRaft sees it. OpenRaft's traits ask for a
  log that can be read by ranges, appended to, truncated and purged, a durable vote, a state
  machine that applies committed entries, and snapshots. Errors at this interface are
  \<open>io::Error\<close>s, their display strings.
\<close>

section \<open>Reading the log\<close>

datatype bound = Included u64 | Excluded u64 | Unbounded

definition range_start :: "bound \<times> bound \<Rightarrow> u64" where
  "range_start r = (case fst r of Included v \<Rightarrow> v | Excluded v \<Rightarrow> saturating_add v 1 | Unbounded \<Rightarrow> 0)"

definition range_end_inclusive :: "bound \<times> bound \<Rightarrow> u64" where
  "range_end_inclusive r = (case snd r of Included v \<Rightarrow> v | Excluded v \<Rightarrow> saturating_sub v 1 | Unbounded \<Rightarrow> - 1)"

definition try_get_log_entries ::
  "bound \<times> bound \<Rightarrow> ('t, 'f, 'm) SurrealStorage \<Rightarrow> string + 'm Entry list" where
  "try_get_log_entries r S =
     (let start = range_start r; end_incl = range_end_inclusive r in
      if end_incl < start then Inr []
      else Inr (map snd (bt_range start end_incl (raft_entries S))))"

section \<open>The vote\<close>

abbreviation key_vote_v2 :: bytes where "key_vote_v2 \<equiv> as_bytes ''raft_vote_v2''"

definition read_vote ::
  "('t, 'x, 'f, 'm) storage_env \<Rightarrow> ('t, 'f, 'm) SurrealStorage \<Rightarrow> string + Vote option" where
  "read_vote E S =
     and_then (tree_begin (so_kv E) (tree (metadata S))) (\<lambda>txn.
     and_then (txn_get (so_kv E) txn key_vote_v2) (\<lambda>v.
     case v of
       Some bytes \<Rightarrow> and_then (from_bytes (so_vote E) bytes) (\<lambda>vote. Inr (Some vote))
     | None \<Rightarrow>
         (let v = voting_state (metadata S) in
          Inr (map_option (\<lambda>id. \<lparr>vote_term = current_term v, vote_voted_for = Some id, vote_committed = False\<rparr>)
            (voted_for v)))))"

definition save_vote ::
  "('t, 'x, 'f, 'm) storage_env \<Rightarrow> Vote \<Rightarrow> ('t, 'f, 'm) SurrealStorage \<Rightarrow>
   ('t, 'f, 'm) SurrealStorage \<times> (string + unit)" where
  "save_vote E vote S =
     try_then (map_err_st display_RaftError (on_metadata (save_voting_state (so_kv E) (so_meta E)
         \<lparr>current_term = vote_term vote, voted_for = vote_voted_for vote\<rparr>) S)) (\<lambda>S _.
     case and_then (to_stdvec (so_vote E) vote) (\<lambda>data.
          and_then (tree_begin (so_kv E) (tree (metadata S))) (\<lambda>txn.
          txn_set (so_kv E) txn key_vote_v2 data)) of
       Inl e \<Rightarrow> (S, Inl e)
     | Inr txn \<Rightarrow> on_metadata (on_tree (\<lambda>t. txn_commit (so_kv E) t txn)) S)"

section \<open>Snapshots\<close>

definition build_snapshot ::
  "('t, 'x, 'f, 'm) storage_env \<Rightarrow> ('t, 'f, 'm) SurrealStorage \<Rightarrow>
   ('t, 'f, 'm) SurrealStorage \<times> (string + 'm RaftSnapshot)" where
  "build_snapshot E S =
     try_then (map_err_st display_RaftError
         (build_snapshot_auto E (last_applied_term (applied_state (metadata S))) S)) (\<lambda>S snap.
     let snap = snap\<lparr>snap_meta := (snap_meta snap)\<lparr>meta_last_membership := last_membership S\<rparr>\<rparr>
     in (S\<lparr>current_snapshot := Some snap\<rparr>, Inr snap))"

text \<open>The buffer that a snapshot is received into starts empty.\<close>

definition begin_receiving_snapshot ::
  "('t, 'f, 'm) SurrealStorage \<Rightarrow> ('t, 'f, 'm) SurrealStorage \<times> (string + bytes)" where
  "begin_receiving_snapshot S = (S, Inr [])"

definition install_snapshot ::
  "('t, 'x, 'f, 'm) storage_env \<Rightarrow> 'm SnapshotMeta \<Rightarrow> bytes \<Rightarrow> ('t, 'f, 'm) SurrealStorage \<Rightarrow>
   ('t, 'f, 'm) SurrealStorage \<times> (string + unit)" where
  "install_snapshot E meta data S =
     (let incoming = \<lparr>snap_meta = meta, snap_data = data\<rparr> in
      try_then (map_err_st display_RaftError (install_snapshot_auto E incoming S)) (\<lambda>S _.
      try_then (case meta_last_log_id meta of
            None \<Rightarrow> (S, Inr ())
          | Some lst \<Rightarrow> map_err_st display_RaftError (on_metadata (save_applied_state (so_kv E) (so_meta E)
              \<lparr>last_applied_index = li_index lst, last_applied_term = li_term lst\<rparr>) S)) (\<lambda>S _.
      (S\<lparr>last_membership := meta_last_membership meta, current_snapshot := Some incoming\<rparr>, Inr ()))))"

definition get_current_snapshot :: "('t, 'f, 'm) SurrealStorage \<Rightarrow> string + 'm RaftSnapshot option" where
  "get_current_snapshot S = Inr (current_snapshot S)"

section \<open>The state machine\<close>

definition Raft_applied_state ::
  "('t, 'f, 'm) SurrealStorage \<Rightarrow> string + (LogId option \<times> 'm StoredMembership)" where
  "Raft_applied_state S =
     (let st = applied_state (metadata S);
          last_id = (if last_applied_index st = 0 then None
                  else Some (new_term_index (last_applied_term st) (last_applied_index st)))
      in Inr (last_id, last_membership S))"

text \<open>The effect of one entry's payload, with the response.\<close>

definition apply_payload ::
  "('t, 'x, 'f, 'm) storage_env \<Rightarrow> 'm Entry \<Rightarrow> ('t, 'f, 'm) SurrealStorage \<Rightarrow>
   ('t, 'f, 'm) SurrealStorage \<times> (string + KVResponse)" where
  "apply_payload E entry S =
     (let log_id = entry_log_id entry in
      case entry_payload entry of
        Blank \<Rightarrow> (S, Inr Ok)
      | Membership m \<Rightarrow> (S\<lparr>last_membership := \<lparr>sm_log_id = Some log_id, sm_membership = m\<rparr>\<rparr>, Inr Ok)
      | Normal req \<Rightarrow>
          try_then (map_err_st display_RaftError (apply_request req S)) (\<lambda>S resp.
          try_then (map_err_st display_RaftError
              (append_log_entry E (li_term log_id) (li_index log_id) req S)) (\<lambda>S _.
          (S, Inr resp))))"

text \<open>
  The items of the stream are an entry and whether a client waits for the response, or an
  error; the responses sent are collected.
\<close>

fun apply_stream ::
  "('t, 'x, 'f, 'm) storage_env \<Rightarrow> (string + 'm Entry \<times> bool) list \<Rightarrow>
   ('t, 'f, 'm) SurrealStorage \<Rightarrow> KVResponse list \<Rightarrow>
   (('t, 'f, 'm) SurrealStorage \<times> KVResponse list) \<times> (string + unit)" where
  "apply_stream E [] S sent = ((S, sent), Inr ())"
| "apply_stream E (Inl e # items) S sent = ((S, sent), Inl e)"
| "apply_stream E (Inr (entry, responder) # items) S sent =
     (let log_id = entry_log_id entry in
      case apply_payload E entry S of
        (S, Inl e) \<Rightarrow> ((S, sent), Inl e)
      | (S, Inr response) \<Rightarrow>
          (case map_err_st display_RaftError (on_metadata (save_applied_state (so_kv E) (so_meta E)
               \<lparr>last_applied_index = li_index log_id, last_applied_term = li_term log_id\<rparr>) S) of
             (S, Inl e) \<Rightarrow> ((S, sent), Inl e)
           | (S, Inr _) \<Rightarrow> apply_stream E items S (if responder then sent @ [response] else sent)))"

section \<open>The log\<close>

definition get_log_state :: "('t, 'f, 'm) SurrealStorage \<Rightarrow> string + LogState" where
  "get_log_state S =
     Inr \<lparr>ls_last_purged_log_id = last_purged_log_id S,
          ls_last_log_id = (case bt_last (raft_entries S) of
              Some (_, e) \<Rightarrow> Some (entry_log_id e) | None \<Rightarrow> last_purged_log_id S)\<rparr>"

fun Raft_append ::
  "('t, 'x, 'f, 'm) storage_env \<Rightarrow> 'm Entry list \<Rightarrow> ('t, 'f, 'm) SurrealStorage \<Rightarrow>
   ('t, 'f, 'm) SurrealStorage \<times> (string + unit)" where
  "Raft_append E [] S = (S, Inr ())"
| "Raft_append E (entry # entries) S =
     (let trm = li_term (entry_log_id entry); index = li_index (entry_log_id entry) in
      case (case entry_payload entry of
              Normal req \<Rightarrow> map_err_st display_RaftError (append_log_entry E trm index req S)
            | _ \<Rightarrow> (S, Inr ())) of
        (S, Inl e) \<Rightarrow> (S, Inl e)
      | (S, Inr _) \<Rightarrow> Raft_append E entries (S\<lparr>raft_entries := bt_insert index entry (raft_entries S)\<rparr>))"

text \<open>The whole of \<open>append\<close>: when the loop is through, the callback is told that the entries are flushed.\<close>

definition append_flushed ::
  "('t, 'x, 'f, 'm) storage_env \<Rightarrow> 'm Entry list \<Rightarrow> ('t, 'f, 'm) SurrealStorage \<Rightarrow>
   (('t, 'f, 'm) SurrealStorage \<times> (string + unit) list) \<times> (string + unit)" where
  "append_flushed E entries S =
     (case Raft_append E entries S of
        (S, Inl e) \<Rightarrow> ((S, []), Inl e)
      | (S, Inr _) \<Rightarrow> ((S, [Inr ()]), Inr ()))"

definition truncate_after ::
  "LogId option \<Rightarrow> ('t, 'f, 'm) SurrealStorage \<Rightarrow> ('t, 'f, 'm) SurrealStorage \<times> (string + unit)" where
  "truncate_after last_log_id S =
     (case last_log_id of
        Some lst \<Rightarrow> (S\<lparr>raft_entries := bt_retain (\<lambda>idx. idx \<le> li_index lst) (raft_entries S)\<rparr>, Inr ())
      | None \<Rightarrow> (S\<lparr>raft_entries := []\<rparr>, Inr ()))"

definition purge ::
  "LogId \<Rightarrow> ('t, 'f, 'm) SurrealStorage \<Rightarrow> ('t, 'f, 'm) SurrealStorage \<times> (string + unit)" where
  "purge log_id S =
     (S\<lparr>raft_entries := bt_retain (\<lambda>idx. idx > li_index log_id) (raft_entries S),
        last_purged_log_id := Some log_id\<rparr>, Inr ())"

section \<open>The contract of the log\<close>

text \<open>
  What OpenRaft expects of a log store: \<open>get\<close> is its content by index, \<open>read\<close> returns
  a range in order of the index, appending overwrites, truncating drops a suffix and purging
  a prefix.
\<close>

locale raft_log =
  fixes get :: "'s \<Rightarrow> u64 \<Rightarrow> 'e option"
    and idx :: "'e \<Rightarrow> u64"
    and read :: "u64 \<Rightarrow> u64 \<Rightarrow> 's \<Rightarrow> 'e list"
    and append :: "'e list \<Rightarrow> 's \<Rightarrow> 's \<times> (string + unit)"
    and truncate :: "LogId option \<Rightarrow> 's \<Rightarrow> 's \<times> (string + unit)"
    and purge_to :: "LogId \<Rightarrow> 's \<Rightarrow> 's \<times> (string + unit)"
    and ok :: "'s \<Rightarrow> bool"
  assumes append_ok: "ok s \<Longrightarrow> ok (fst (append es s))"
    and truncate_ok: "ok s \<Longrightarrow> ok (fst (truncate l s))"
    and purge_ok: "ok s \<Longrightarrow> ok (fst (purge_to p s))"
    and get_idx: "ok s \<Longrightarrow> get s i = Some e \<Longrightarrow> idx e = i"
    and get_append: "ok s \<Longrightarrow> append es s = (s', Inr u) \<Longrightarrow> get s' = get s ++ map_of (rev (map (\<lambda>e. (idx e, e)) es))"
    and get_truncate: "ok s \<Longrightarrow> get (fst (truncate l s)) i = (case l of None \<Rightarrow> None
          | Some lid \<Rightarrow> if i \<le> li_index lid then get s i else None)"
    and get_purge: "ok s \<Longrightarrow> get (fst (purge_to p s)) i = (if li_index p < i then get s i else None)"
    and read_set: "ok s \<Longrightarrow> set (read lo hi s) = {e. \<exists>i. lo \<le> i \<and> i \<le> hi \<and> get s i = Some e}"
    and read_sorted: "ok s \<Longrightarrow> sorted_wrt (<) (map idx (read lo hi s))"
begin

lemma same_entries:
  assumes "sorted_wrt (<) (map idx xs)" "sorted_wrt (<) (map idx ys)" "set xs = set ys"
  shows "xs = ys"
proof -
  have "map (\<lambda>e. (idx e, e)) xs = map (\<lambda>e. (idx e, e)) ys"
    using assms by (intro sorted_keys_unique) (simp_all add: o_def)
  then have "map snd (map (\<lambda>e. (idx e, e)) xs) = map snd (map (\<lambda>e. (idx e, e)) ys)" by simp
  then show ?thesis by (simp add: o_def)
qed

lemma map_of_entries:
  assumes "sorted_wrt (<) (map idx es)"
  shows "map_of (rev (map (\<lambda>e. (idx e, e)) es)) i = Some e \<longleftrightarrow> e \<in> set es \<and> idx e = i"
proof -
  have "distinct (map fst (map (\<lambda>e. (idx e, e)) es))" using assms by (simp add: o_def strict_sorted_iff)
  then have "distinct (map fst (rev (map (\<lambda>e. (idx e, e)) es)))" by (simp add: rev_map [symmetric])
  then show ?thesis by (auto simp: map_of_eq_Some_iff)
qed

text \<open>Replacing a conflicting suffix: what follows the kept prefix is exactly what was appended.\<close>

lemma replace_suffix:
  assumes "ok s" and es: "sorted_wrt (<) (map idx es)" "\<And>e. e \<in> set es \<Longrightarrow> li_index p < idx e"
    and run: "append es (fst (truncate (Some p) s)) = (s', Inr u)" and p: "li_index p \<noteq> - 1"
  shows "read (li_index p + 1) (- 1) s' = es" "i \<le> li_index p \<Longrightarrow> get s' i = get s i"
proof -
  let ?t = "fst (truncate (Some p) s)"
  have t: "ok ?t" using assms(1) by (rule truncate_ok)
  have s': "ok s'" using append_ok [OF t, of es] run by simp
  have g: "get s' i = (case map_of (rev (map (\<lambda>e. (idx e, e)) es)) i of
      Some e \<Rightarrow> Some e | None \<Rightarrow> if i \<le> li_index p then get s i else None)" for i
    by (simp add: get_append [OF t run] get_truncate [OF assms(1)] map_add_def split: option.splits)
  have low: "map_of (rev (map (\<lambda>e. (idx e, e)) es)) i = None" if "i \<le> li_index p" for i
  proof (rule ccontr)
    assume "map_of (rev (map (\<lambda>e. (idx e, e)) es)) i \<noteq> None"
    then obtain e where "e \<in> set es" "idx e = i" using map_of_entries [OF es(1)] by auto
    with that es(2) [of e] show False by simp
  qed
  show "i \<le> li_index p \<Longrightarrow> get s' i = get s i" by (simp add: g low)
  have "1 + li_index p \<noteq> 0" using p by (metis add_eq_0_iff)
  then have "li_index p < 1 + li_index p" by (simp add: word_less_nat_alt unatSuc)
  then have next_index: "li_index p + 1 \<le> i \<longleftrightarrow> li_index p < i" for i
    using inc_le [of "li_index p" i] by (auto simp: add.commute)
  have high: "get s' i = Some e \<and> li_index p + 1 \<le> i \<longleftrightarrow> e \<in> set es \<and> idx e = i" for i e
    using es map_of_entries [OF es(1), of i e] low [of i]
    by (cases "map_of (rev (map (\<lambda>e. (idx e, e)) es)) i") (auto simp: g next_index)
  show "read (li_index p + 1) (- 1) s' = es"
    using s' es high by (intro same_entries) (auto simp: read_set read_sorted)
qed

end

section \<open>The storage satisfies it\<close>

lemma Raft_append_Inr:
  assumes "bt_wf (raft_entries S)" and "Raft_append E es S = (S', Inr u)"
  shows "bt_get (raft_entries S') =
     bt_get (raft_entries S) ++ map_of (rev (map (\<lambda>e. (li_index (entry_log_id e), e)) es))"
  using assms
proof (induction es arbitrary: S)
  case (Cons e es)
  let ?i = "li_index (entry_log_id e)"
  obtain S1 q where 1: "(case entry_payload e of
        Normal req \<Rightarrow> map_err_st display_RaftError (append_log_entry E (li_term (entry_log_id e)) ?i req S)
      | _ \<Rightarrow> (S, Inr ())) = (S1, q)" by fastforce
  with Cons.prems(2) obtain v where q: "q = Inr v"
    and rest: "Raft_append E es (S1\<lparr>raft_entries := bt_insert ?i e (raft_entries S1)\<rparr>) = (S', Inr u)"
    by (cases q) (auto simp: Let_def)
  have same: "raft_entries S1 = raft_entries S"
    using 1 q append_log_entry_frame(2) [of E] by (auto split: EntryPayload.splits)
  have "bt_get (raft_entries S') = bt_get (bt_insert ?i e (raft_entries S)) ++
      map_of (rev (map (\<lambda>e. (li_index (entry_log_id e), e)) es))"
    using Cons.IH [OF _ rest] Cons.prems(1) same by (simp add: bt_wf_insert)
  then show ?case using Cons.prems(1) by (auto simp: bt_get_insert map_add_def fun_eq_iff split: option.splits)
qed simp

lemma Raft_append_ok:
  assumes env: "env_ok (so_kv E) view pend (so_meta E)"
  shows "storage_ok view E S \<Longrightarrow> storage_ok view E (fst (Raft_append E es S))"
proof (induction es arbitrary: S)
  case (Cons e es)
  let ?i = "li_index (entry_log_id e)"
  obtain S1 q where 1: "(case entry_payload e of
        Normal req \<Rightarrow> map_err_st display_RaftError (append_log_entry E (li_term (entry_log_id e)) ?i req S)
      | _ \<Rightarrow> (S, Inr ())) = (S1, q)" by fastforce
  have ok1: "storage_ok view E S1"
    using 1 Cons.prems append_log_entry_ok [OF env Cons.prems]
    by (auto split: EntryPayload.splits) (metis fst_conv fst_map_err_st)
  then have "storage_ok view E (S1\<lparr>raft_entries := bt_insert ?i e (raft_entries S1)\<rparr>)"
    by (auto simp: storage_ok_def bt_wf_insert set_bt_insert)
  then show ?case using 1 ok1 Cons.IH by (cases q) (simp_all add: Let_def)
qed simp

definition read_log :: "u64 \<Rightarrow> u64 \<Rightarrow> ('t, 'f, 'm) SurrealStorage \<Rightarrow> 'm Entry list" where
  "read_log lo hi S = map snd (bt_range lo hi (raft_entries S))"

interpretation surreal_log: raft_log
  "\<lambda>S. bt_get (raft_entries S)" "\<lambda>e. li_index (entry_log_id e)" read_log "Raft_append E" truncate_after purge
  "\<lambda>S. env_ok (so_kv E) view pend (so_meta E) \<and> storage_ok view E S"
  for E view pend
proof (unfold_locales, goal_cases)
  case (1 s es)
  then show ?case using Raft_append_ok by blast
next
  case (2 s l)
  then show ?case
    by (auto simp: truncate_after_def storage_ok_def bt_retain_def bt_wf_filter split: option.splits)
next
  case (3 s p)
  then show ?case by (auto simp: purge_def storage_ok_def bt_retain_def bt_wf_filter)
next
  case (4 s i e)
  then show ?case by (auto simp: storage_ok_def bt_get_iff)
next
  case (5 s es s' u)
  then show ?case by (intro Raft_append_Inr) (auto simp: storage_ok_def)
next
  case (6 s l i)
  have "bt_get [] i = None" by (simp add: bt_get_def)
  then show ?case by (auto simp: truncate_after_def bt_get_retain split: option.splits)
next
  case (7 s p i)
  then show ?case by (simp add: purge_def bt_get_retain)
next
  case (8 s lo hi)
  then have "bt_wf (raft_entries s)" by (simp add: storage_ok_def)
  then show ?case by (force simp: read_log_def bt_range_def bt_get_iff)
next
  case (9 s lo hi)
  then have wf: "bt_wf (bt_range lo hi (raft_entries s))" and
    k: "\<forall>(i, e) \<in> set (bt_range lo hi (raft_entries s)). li_index (entry_log_id e) = i"
    by (auto simp: storage_ok_def bt_range_def bt_wf_filter)
  then have "map (\<lambda>e. li_index (entry_log_id e)) (read_log lo hi s) = map fst (bt_range lo hi (raft_entries s))"
    by (auto simp: read_log_def)
  with wf show ?case by (simp add: bt_wf_def)
qed

section \<open>Properties of the log\<close>

text \<open>
  Claim C5: conflict resolution on the log. When a follower truncates after an agreed log id
  and appends the leader's entries, all with larger and increasing indices, then reading from
  the next index on returns exactly the appended entries in order, and every entry up to the
  agreed index is what it was before.
\<close>

theorem log_conflict_resolution:
  assumes "env_ok (so_kv E) view pend (so_meta E)" "storage_ok view E S"
    and "sorted_wrt (<) (map (\<lambda>e. li_index (entry_log_id e)) es)"
    and "\<And>e. e \<in> set es \<Longrightarrow> li_index p < li_index (entry_log_id e)" and "li_index p \<noteq> - 1"
    and "Raft_append E es (fst (truncate_after (Some p) S)) = (S', Inr u)"
  shows "try_get_log_entries (Excluded (li_index p), Unbounded) S' = Inr es \<and>
    (\<forall>i \<le> li_index p. bt_get (raft_entries S') i = bt_get (raft_entries S) i)"
proof -
  have ok: "env_ok (so_kv E) view pend (so_meta E) \<and> storage_ok view E S" using assms(1,2) by simp
  have rep: "read_log (li_index p + 1) (- 1) S' = es"
    "\<And>i. i \<le> li_index p \<Longrightarrow> bt_get (raft_entries S') i = bt_get (raft_entries S) i"
    using surreal_log.replace_suffix [OF ok assms(3,4,6,5)] by auto
  have "unat (li_index p) + 1 < 2 ^ 64"
  proof -
    have "unat (li_index p) \<noteq> 2 ^ 64 - 1"
      using assms(5) by (simp add: word_unat_eq_iff unsigned_minus_1_eq_mask mask_eq_exp_minus_1)
    then show ?thesis using unsigned_less [of "li_index p", where ?'a = nat] by simp
  qed
  then have "saturating_add (li_index p) 1 = li_index p + 1" by (simp add: saturating_add_def)
  moreover have "\<not> (- 1 :: u64) < li_index p + 1" by simp
  ultimately show ?thesis
    using rep by (simp add: try_get_log_entries_def range_start_def range_end_inclusive_def read_log_def)
qed

definition small_entry :: "u64 \<Rightarrow> u64 \<Rightarrow> unit Entry" where
  "small_entry t i = \<lparr>entry_log_id = new_term_index t i, entry_payload = Blank\<rparr>"

definition strict_env :: "(mem_tree, mem_txn, mem_files, unit) storage_env" where
  "strict_env = loose_env\<lparr>so_meta := sample_codecs\<rparr>"

lemma strict_env_ok: "env_ok (so_kv strict_env) (\<lambda>t. t) snd (so_meta strict_env)"
  using sample_env_ok by (simp add: strict_env_def loose_env_def)

definition log_node :: "(mem_tree, mem_files, unit) SurrealStorage" where
  "log_node = (sample_node 0 [])\<lparr>metadata := MetadataManager_new (\<lambda>_. None),
     raft_entries := [(1, small_entry 1 1), (2, small_entry 1 2), (3, small_entry 1 3)]\<rparr>"

lemma log_node_ok: "storage_ok (\<lambda>t. t) strict_env log_node"
  by (auto simp: storage_ok_def log_node_def sample_node_def bt_wf_def small_entry_def new_term_index_def
      synced_def durable_defs durable_slot_def MetadataManager_new_def)

theorem log_conflict_resolution_witness:
  "\<exists>S'. Raft_append strict_env [small_entry 2 2, small_entry 2 3] (fst (truncate_after (Some (new_term_index 1 1)) log_node))
      = (S', Inr ()) \<and>
    try_get_log_entries (Excluded 1, Unbounded) S' = Inr [small_entry 2 2, small_entry 2 3]"
proof -
  obtain S' where run: "Raft_append strict_env [small_entry 2 2, small_entry 2 3]
      (fst (truncate_after (Some (new_term_index 1 1)) log_node)) = (S', Inr ())"
    by (simp add: small_entry_def Let_def)
  have "try_get_log_entries (Excluded (li_index (new_term_index 1 1)), Unbounded) S' = Inr [small_entry 2 2, small_entry 2 3] \<and>
    (\<forall>i \<le> li_index (new_term_index 1 1). bt_get (raft_entries S') i = bt_get (raft_entries log_node) i)"
    by (rule log_conflict_resolution [OF strict_env_ok log_node_ok _ _ _ run])
      (auto simp: small_entry_def new_term_index_def)
  with run show ?thesis by (simp add: new_term_index_def)
qed

definition in_range :: "bound \<times> bound \<Rightarrow> u64 \<Rightarrow> bool" where
  "in_range r i \<longleftrightarrow>
     (case fst r of Included v \<Rightarrow> v \<le> i | Excluded v \<Rightarrow> v < i | Unbounded \<Rightarrow> True) \<and>
     (case snd r of Included v \<Rightarrow> i \<le> v | Excluded v \<Rightarrow> i < v | Unbounded \<Rightarrow> True)"

lemma saturating_succ_le: "a \<noteq> - 1 \<Longrightarrow> saturating_add a 1 \<le> i \<longleftrightarrow> a < (i :: u64)"
proof -
  assume "a \<noteq> - 1"
  then have "unat a \<noteq> 2 ^ 64 - 1"
    by (simp add: word_unat_eq_iff unsigned_minus_1_eq_mask mask_eq_exp_minus_1)
  then have "unat a + 1 < 2 ^ 64" using unsigned_less [of a, where ?'a = nat] by simp
  then show ?thesis by (simp add: word_le_nat_alt word_less_nat_alt unat_saturating_add Suc_le_eq)
qed

lemma saturating_pred_le: "b \<noteq> 0 \<Longrightarrow> i \<le> saturating_sub b 1 \<longleftrightarrow> (i :: u64) < b"
proof -
  assume "b \<noteq> 0"
  then have "0 < unat b" by (simp add: unat_gt_0)
  then show ?thesis by (auto simp: word_le_nat_alt word_less_nat_alt unat_saturating_sub)
qed

lemma range_bounds:
  assumes "fst r \<noteq> Excluded (- 1)" "snd r \<noteq> Excluded 0"
  shows "range_start r \<le> i \<and> i \<le> range_end_inclusive r \<longleftrightarrow> in_range r i"
  using assms saturating_succ_le [of _ i] saturating_pred_le [of _ i]
  by (cases r) (auto simp: range_start_def range_end_inclusive_def in_range_def split: bound.splits)

text \<open>
  Reading a range of the log. For every combination of bounds the result is the
  entries whose index lies in the range, in increasing order of the index, with one exception:
  an exclusive upper bound of zero is taken as an inclusive one, so the empty range \<open>..0\<close>
  returns the entry at index zero if there is one, and an exclusive lower bound of the largest
  index is taken as an inclusive one.
\<close>

lemma log_range_read:
  assumes "storage_ok view E S"
  shows "(fst r \<noteq> Excluded (- 1) \<longrightarrow> snd r \<noteq> Excluded 0 \<longrightarrow>
      (\<exists>es. try_get_log_entries r S = Inr es \<and> sorted_wrt (<) (map (\<lambda>e. li_index (entry_log_id e)) es) \<and>
         set es = {e. \<exists>i. in_range r i \<and> bt_get (raft_entries S) i = Some e})) \<and>
    (bt_get (raft_entries S) 0 = Some e \<longrightarrow> try_get_log_entries (Included 0, Excluded 0) S = Inr [e])"
proof -
  have wf: "bt_wf (raft_entries S)" and ix: "\<forall>(i, e) \<in> set (raft_entries S). li_index (entry_log_id e) = i"
    using assms by (auto simp: storage_ok_def)
  have srt: "sorted_wrt (<) (map (\<lambda>e. li_index (entry_log_id e)) (read_log lo hi S))" for lo hi
  proof -
    have "bt_wf (bt_range lo hi (raft_entries S))" using wf by (simp add: bt_range_def bt_wf_filter)
    moreover have "map (\<lambda>e. li_index (entry_log_id e)) (read_log lo hi S) = map fst (bt_range lo hi (raft_entries S))"
      using ix by (auto simp: read_log_def bt_range_def)
    ultimately show ?thesis by (simp add: bt_wf_def)
  qed
  have st: "set (read_log lo hi S) = {e. \<exists>i. (lo \<le> i \<and> i \<le> hi) \<and> bt_get (raft_entries S) i = Some e}" for lo hi
    using wf by (force simp: read_log_def bt_range_def bt_get_iff)
  have 1: "\<exists>es. try_get_log_entries r S = Inr es \<and> sorted_wrt (<) (map (\<lambda>e. li_index (entry_log_id e)) es) \<and>
         set es = {e. \<exists>i. in_range r i \<and> bt_get (raft_entries S) i = Some e}"
    if b: "fst r \<noteq> Excluded (- 1)" "snd r \<noteq> Excluded 0"
  proof (cases "range_end_inclusive r < range_start r")
    case True
    then have "\<not> in_range r i" for i using range_bounds [OF b, of i] by auto
    with True show ?thesis by (auto simp: try_get_log_entries_def)
  next
    case False
    then have "try_get_log_entries r S = Inr (read_log (range_start r) (range_end_inclusive r) S)"
      by (simp add: try_get_log_entries_def read_log_def)
    moreover have "set (read_log (range_start r) (range_end_inclusive r) S) =
        {e. \<exists>i. in_range r i \<and> bt_get (raft_entries S) i = Some e}"
      by (simp only: st range_bounds [OF b])
    ultimately show ?thesis using srt by blast
  qed
  have 2: "try_get_log_entries (Included 0, Excluded 0) S = Inr [e]" if "bt_get (raft_entries S) 0 = Some e"
  proof -
    have "set (read_log 0 0 S) = {e}" using st [of 0 0] that by auto
    moreover have "distinct (read_log 0 0 S)" using srt [of 0 0] by (metis distinct_map strict_sorted_iff)
    ultimately have "read_log 0 0 S = [e]"
      by (cases "read_log 0 0 S"; cases "tl (read_log 0 0 S)") auto
    then show ?thesis
      by (simp add: try_get_log_entries_def range_start_def range_end_inclusive_def read_log_def saturating_sub_def)
  qed
  show ?thesis using 1 2 by blast
qed

lemma log_range_read_witness:
  "\<exists>es. try_get_log_entries (Included 2, Excluded 4) log_node = Inr es \<and>
     set es = {e. \<exists>i. in_range (Included 2, Excluded 4) i \<and> bt_get (raft_entries log_node) i = Some e}"
  using log_range_read [OF log_node_ok, where r = "(Included 2, Excluded 4)" and e = "small_entry 0 0"] by auto

text \<open>
  Purging. After a purge nothing up to the purged index is left, everything after it
  is as before, the log state reports the purged id, and the last log id it reports is the id
  of the last remaining entry, or the purged id when none remains.
\<close>

lemma log_purge:
  assumes "storage_ok view E S" and "purge p S = (S', r)"
  shows "r = Inr () \<and>
    (\<forall>i. bt_get (raft_entries S') i = (if i \<le> li_index p then None else bt_get (raft_entries S) i)) \<and>
    (\<exists>ls. get_log_state S' = Inr ls \<and> ls_last_purged_log_id ls = Some p \<and>
       (if \<exists>i > li_index p. bt_get (raft_entries S) i \<noteq> None
        then \<exists>i e. ls_last_log_id ls = Some (entry_log_id e) \<and> bt_get (raft_entries S) i = Some e \<and> li_index p < i \<and>
               (\<forall>j. bt_get (raft_entries S) j \<noteq> None \<longrightarrow> j \<le> i)
        else ls_last_log_id ls = Some p))"
proof -
  let ?m = "bt_retain (\<lambda>i. i > li_index p) (raft_entries S)"
  have wf: "bt_wf ?m" using assms(1) by (simp add: storage_ok_def bt_retain_def bt_wf_filter)
  have S': "S' = S\<lparr>raft_entries := ?m, last_purged_log_id := Some p\<rparr>" "r = Inr ()"
    using assms(2) by (auto simp: purge_def)
  have get: "bt_get ?m i = (if i \<le> li_index p then None else bt_get (raft_entries S) i)" for i
    by (auto simp: bt_get_retain)
  show ?thesis
  proof (cases "bt_last ?m")
    case None
    then have "bt_get ?m i = None" for i using bt.last_kv_None [OF wf] by simp
    then have "\<not> (\<exists>i > li_index p. bt_get (raft_entries S) i \<noteq> None)" using get by (metis leD)
    with None get show ?thesis by (auto simp: S' get_log_state_def)
  next
    case (Some ie)
    obtain i e where "ie = (i, e)" by (cases ie)
    with Some bt_last_Some [OF wf, of i e] have ie: "bt_get ?m i = Some e" "\<forall>j. bt_get ?m j \<noteq> None \<longrightarrow> j \<le> i"
      and last: "bt_last ?m = Some (i, e)" by auto
    then have i: "li_index p < i" "bt_get (raft_entries S) i = Some e" by (auto simp: get split: if_splits)
    moreover have "j \<le> i" if "bt_get (raft_entries S) j \<noteq> None" for j
      using ie(2) i(1) that get [of j] by (cases "j \<le> li_index p") auto
    ultimately show ?thesis using get last by (auto simp: S' get_log_state_def)
  qed
qed

lemma log_purge_witness:
  "\<exists>S'. purge (new_term_index 1 3) log_node = (S', Inr ()) \<and>
     get_log_state S' = Inr \<lparr>ls_last_purged_log_id = Some (new_term_index 1 3), ls_last_log_id = Some (new_term_index 1 3)\<rparr>"
proof -
  obtain S' where run: "purge (new_term_index 1 3) log_node = (S', Inr ())" by (simp add: purge_def)
  have none: "bt_get (raft_entries log_node) i = None" if "3 < i" for i
    using that by (auto simp: log_node_def bt_get_def)
  obtain ls where "get_log_state S' = Inr ls" "ls_last_purged_log_id ls = Some (new_term_index 1 3)"
    "ls_last_log_id ls = Some (new_term_index 1 3)"
    using log_purge [OF log_node_ok run] none by (auto simp: new_term_index_def split: if_splits)
  with run show ?thesis by auto
qed

section \<open>The vote\<close>

lemma save_vote_cases:
  assumes kv: "surrealkv_ok (so_kv E) view pend" and run: "save_vote E v S = (S', Inr u)"
  obtains m bs t where "save_voting_state (so_kv E) (so_meta E) \<lparr>current_term = vote_term v, voted_for = vote_voted_for v\<rparr> (metadata S) = (m, Inr ())"
    "to_stdvec (so_vote E) v = Inr bs" "view t = (view (tree m))(key_vote_v2 \<mapsto> bs)"
    "S' = S\<lparr>metadata := m\<lparr>tree := t\<rparr>\<rparr>"
proof -
  obtain S1 where 1: "on_metadata (save_voting_state (so_kv E) (so_meta E)
      \<lparr>current_term = vote_term v, voted_for = vote_voted_for v\<rparr>) S = (S1, Inr ())"
    using run by (auto simp: save_vote_def try_then_Inr)
  then obtain m where m: "save_voting_state (so_kv E) (so_meta E)
      \<lparr>current_term = vote_term v, voted_for = vote_voted_for v\<rparr> (metadata S) = (m, Inr ())"
    and S1: "S1 = S\<lparr>metadata := m\<rparr>"
    by (auto simp: on_metadata_iff)
  let ?txn = "and_then (to_stdvec (so_vote E) v) (\<lambda>data.
          and_then (tree_begin (so_kv E) (tree m)) (\<lambda>txn. txn_set (so_kv E) txn key_vote_v2 data))"
  obtain x' where "?txn = Inr x'"
    and co: "on_metadata (on_tree (\<lambda>t. txn_commit (so_kv E) t x')) (S\<lparr>metadata := m\<rparr>) = (S', Inr u)"
    using run 1 S1 by (cases ?txn) (simp_all add: save_vote_def)
  then obtain bs x where enc: "to_stdvec (so_vote E) v = Inr bs" and x: "tree_begin (so_kv E) (tree m) = Inr x"
    and x': "txn_set (so_kv E) x key_vote_v2 bs = Inr x'"
    by (auto simp: and_then_Inr)
  obtain t q where t: "txn_commit (so_kv E) (tree m) x' = (t, q)" by fastforce
  with co have q: "q = Inr u" and S': "S' = S\<lparr>metadata := m\<lparr>tree := t\<rparr>\<rparr>"
    by (auto simp: on_metadata_iff on_tree_eq)
  have vt: "view t = (view (tree m))(key_vote_v2 \<mapsto> bs)"
    using surrealkv_commit(1) [OF kv t [unfolded q]] surrealkv_set [OF kv x'] surrealkv_begin(1) [OF kv x]
    by (simp add: fun_eq_iff)
  show thesis by (rule that [OF m enc vt S'])
qed

definition sample_ballot :: Vote where
  "sample_ballot = \<lparr>vote_term = 5, vote_voted_for = Some 42, vote_committed = True\<rparr>"

definition vote_env :: "(mem_tree, mem_txn, mem_files, unit) storage_env" where
  "vote_env = strict_env\<lparr>so_vote := table_codec [sample_ballot]\<rparr>"

text \<open>A vote saved on a fresh node, and the node opened again.\<close>

lemma sample_vote_run:
  assumes m: "metadata S = MetadataManager_new (\<lambda>_. None)"
  shows "\<exists>S' R b. save_vote vote_env sample_ballot S = (S', Inr ()) \<and>
     SurrealStorage_new vote_env (tree (metadata S')) (mem_world [] (\<lambda>_. 5)) = Inr R \<and> read_vote vote_env R = Inr b"
proof -
  have kv: "so_kv vote_env = mem_kv" "so_meta vote_env = sample_codecs" "so_vote vote_env = table_codec [sample_ballot]"
    by (simp_all add: vote_env_def strict_env_def loose_env_def)
  obtain S' where run: "save_vote vote_env sample_ballot S = (S', Inr ())"
    by (simp add: save_vote_def kv on_metadata_def save_voting_state_def save_slot_def sample_codecs_def
        to_stdvec_table_codec sample_ballot_def sample_vote_def txn_put_def on_tree_eq)
  have tr: "tree (metadata S') = (\<lambda>_. None)(key_vote \<mapsto> be_encode 2 0, key_vote_v2 \<mapsto> be_encode 2 0)"
    using run by (auto simp: save_vote_def kv on_metadata_def save_voting_state_def save_slot_def sample_codecs_def
        to_stdvec_table_codec sample_ballot_def sample_vote_def txn_put_def on_tree_eq m
        MetadataManager_new_def fun_eq_iff simp del: be_encode.simps)
  have "from_bytes (voting_codec sample_codecs) (be_encode 2 0) = Inr sample_vote"
    by (simp add: sample_codecs_def table_codec_def be_decode_encode del: be_encode.simps)
  then obtain R where new: "SurrealStorage_new vote_env (tree (metadata S')) (mem_world [] (\<lambda>_. 5)) = Inr R"
    and Rt: "tree (metadata R) = tree (metadata S')"
    by (simp add: SurrealStorage_new_def kv load_def load_slot_def tr MetadataManager_new_def del: be_encode.simps)
  have "\<exists>r. read_vote vote_env R = Inr r"
    by (simp add: read_vote_def kv Rt tr table_codec_def be_decode_encode del: be_encode.simps)
  with run new show ?thesis by blast
qed

section \<open>Applying committed entries\<close>

definition requests_in :: "'m Entry list \<Rightarrow> KVRequest list" where
  "requests_in es = concat (map (\<lambda>e. case entry_payload e of Normal r \<Rightarrow> [r] | _ \<Rightarrow> []) es)"

fun membership_after :: "'m Entry list \<Rightarrow> 'm StoredMembership \<Rightarrow> 'm StoredMembership" where
  "membership_after [] m = m"
| "membership_after (e # es) m = membership_after es (case entry_payload e of
     Membership c \<Rightarrow> \<lparr>sm_log_id = Some (entry_log_id e), sm_membership = c\<rparr> | _ \<Rightarrow> m)"

lemma apply_payload_Inr:
  assumes "apply_payload E e S = (S', Inr r)"
  shows "r = Ok" "state_machine S' = fold kv_effect (requests_in [e]) (state_machine S)"
    "raft_entries S' = raft_entries S" "last_membership S' = membership_after [e] (last_membership S)"
  using assms
  by (auto simp: apply_payload_def Let_def apply_request_eq requests_in_def try_then_Inr
      append_log_entry_def on_metadata_iff dest: append_log_entry_frame split: EntryPayload.splits sum.splits)

lemma save_applied_frame:
  assumes "on_metadata (save_applied_state kv mc a) S = (S', Inr u)"
  shows "applied_state (metadata S') = a" "state_machine S' = state_machine S" "raft_entries S' = raft_entries S"
    "last_membership S' = last_membership S" "snapshot_state (metadata S') = snapshot_state (metadata S)"
  using assms
  by (auto simp: on_metadata_iff save_applied_state_def save_slot_def try_then_Inr on_tree_eq split: sum.splits)

lemma apply_stream_Inr:
  assumes "apply_stream E items S sent = ((S', sent'), Inr u)"
  shows "\<exists>es. items = map Inr es \<and>
    state_machine S' = fold kv_effect (requests_in (map fst es)) (state_machine S) \<and>
    sent' = sent @ replicate (length (filter snd es)) Ok \<and>
    last_membership S' = membership_after (map fst es) (last_membership S) \<and>
    raft_entries S' = raft_entries S \<and>
    applied_state (metadata S') = (if es = [] then applied_state (metadata S)
      else \<lparr>last_applied_index = li_index (entry_log_id (fst (last es))),
            last_applied_term = li_term (entry_log_id (fst (last es)))\<rparr>)"
  using assms
proof (induction E items S sent rule: apply_stream.induct)
  case (3 E e responder items S sent)
  let ?a = "\<lparr>last_applied_index = li_index (entry_log_id e), last_applied_term = li_term (entry_log_id e)\<rparr>"
  obtain S1 q where 1: "apply_payload E e S = (S1, q)" by fastforce
  obtain S2 x where 2: "on_metadata (save_applied_state (so_kv E) (so_meta E) ?a) S1 = (S2, x)" by fastforce
  from 3(2) 1 2 obtain resp v where q: "q = Inr resp" and x: "x = Inr v"
    and rest: "apply_stream E items S2 (if responder then sent @ [resp] else sent) = ((S', sent'), Inr u)"
    by (cases q; cases x) (auto simp: Let_def)
  note p = apply_payload_Inr [OF 1 [unfolded q]] and a = save_applied_frame [OF 2 [unfolded x]]
  obtain es where es: "items = map Inr es"
    "state_machine S' = fold kv_effect (requests_in (map fst es)) (state_machine S2)"
    "sent' = (if responder then sent @ [resp] else sent) @ replicate (length (filter snd es)) Ok"
    "last_membership S' = membership_after (map fst es) (last_membership S2)" "raft_entries S' = raft_entries S2"
    "applied_state (metadata S') = (if es = [] then applied_state (metadata S2)
      else \<lparr>last_applied_index = li_index (entry_log_id (fst (last es))),
            last_applied_term = li_term (entry_log_id (fst (last es)))\<rparr>)"
    using 3(1) [OF refl 1 [unfolded q, symmetric] refl _ _] rest 2 x by force
  show ?case
    by (rule exI [of _ "(e, responder) # es"]) (use es p a in \<open>auto simp: requests_in_def\<close>)
qed (auto simp: requests_in_def)

text \<open>
  Claim C6: applying committed entries. When the stream of entries was applied without an
  error, the state machine is the old one with the requests of the normal entries applied in
  stream order, every waiting client was answered with success exactly once, the membership is
  that of the last membership entry, the applied position is the log id of the last entry, and
  the consensus log is untouched.
\<close>

theorem apply_committed_entries:
  assumes "apply_stream E items S sent = ((S', sent'), Inr u)"
  shows "\<exists>es. items = map Inr es \<and>
    state_machine S' = fold kv_effect (requests_in (map fst es)) (state_machine S) \<and>
    sent' = sent @ replicate (length (filter snd es)) Ok \<and>
    last_membership S' = membership_after (map fst es) (last_membership S) \<and>
    raft_entries S' = raft_entries S \<and>
    applied_state (metadata S') = (if es = [] then applied_state (metadata S)
      else \<lparr>last_applied_index = li_index (entry_log_id (fst (last es))),
            last_applied_term = li_term (entry_log_id (fst (last es)))\<rparr>)"
  by (rule apply_stream_Inr [OF assms])

definition set_entry :: "u64 \<Rightarrow> u64 \<Rightarrow> string \<Rightarrow> bytes \<Rightarrow> unit Entry" where
  "set_entry t i key value = \<lparr>entry_log_id = new_term_index t i, entry_payload = Normal (Set key value)\<rparr>"

lemma loose_append:
  "append_log_entry loose_env trm index req S =
     (S\<lparr>raft_logs := bt_insert index (LogEntry_new trm index []) (raft_logs S),
        metadata := (metadata S)\<lparr>tree := (tree (metadata S))(key_applied := Some []),
          applied_state := \<lparr>last_applied_index = index, last_applied_term = trm\<rparr>\<rparr>\<rparr>, Inr ())"
  by (simp add: append_log_entry_def loose_env_def on_metadata_def mem_save_applied loose_codec_def)

lemma loose_save_applied:
  "on_metadata (save_applied_state (so_kv loose_env) (so_meta loose_env) a) S =
     (S\<lparr>metadata := (metadata S)\<lparr>tree := (tree (metadata S))(key_applied := Some []), applied_state := a\<rparr>\<rparr>, Inr ())"
  by (simp add: loose_env_def on_metadata_def mem_save_applied loose_codec_def)

theorem apply_committed_entries_witness:
  "\<exists>S'. apply_stream loose_env [Inr (set_entry 1 4 ''a'' [7], True), Inr (small_entry 1 5, False)] sample_follower [] = ((S', [Ok]), Inr ()) \<and>
     state_machine S' ''a'' = Some [7] \<and> applied_state (metadata S') = \<lparr>last_applied_index = 5, last_applied_term = 1\<rparr>"
proof -
  obtain S' sent where run: "apply_stream loose_env [Inr (set_entry 1 4 ''a'' [7], True), Inr (small_entry 1 5, False)]
      sample_follower [] = ((S', sent), Inr ())"
    by (simp add: apply_payload_def set_entry_def small_entry_def apply_request_def loose_append loose_save_applied Let_def)
  then show ?thesis
    using apply_committed_entries [OF run]
    by (auto simp: Cons_eq_map_conv requests_in_def set_entry_def small_entry_def new_term_index_def)
qed

section \<open>Where the stored position and the data part\<close>



text \<open>
  Claim C37: a full snapshot does not reach the state machine. Installing one moves the applied
  position to the snapshot's log id and takes over its membership, but leaves the key-value
  data as it was: the restored files are not read.
\<close>

theorem full_install_leaves_state_machine:
  assumes "decode_snapshot_payload (so_snap E) data = Inr (Some (DecodedFull m))"
    and "install_snapshot E meta data S = (S', Inr u)"
    and "meta_last_log_id meta = Some l" and "li_index l \<noteq> 0"
  shows "state_machine S' = state_machine S \<and>
    Raft_applied_state S' = Inr (Some (new_term_index (li_term l) (li_index l)), meta_last_membership meta)"
proof -
  from assms obtain S1 S2 v w where 1: "install_snapshot_auto E \<lparr>snap_meta = meta, snap_data = data\<rparr> S = (S1, Inr v)"
    and 2: "on_metadata (save_applied_state (so_kv E) (so_meta E)
        \<lparr>last_applied_index = li_index l, last_applied_term = li_term l\<rparr>) S1 = (S2, Inr w)"
    and S': "S' = S2\<lparr>last_membership := meta_last_membership meta, current_snapshot := Some \<lparr>snap_meta = meta, snap_data = data\<rparr>\<rparr>"
    by (auto simp: install_snapshot_def Let_def try_then_Inr)
  have "state_machine S1 = state_machine S"
    using 1 assms(1) by (auto simp: install_snapshot_auto_def on_st_world_iff)
  then show ?thesis
    using save_applied_frame [OF 2] assms(4) by (simp add: S' Raft_applied_state_def)
qed

definition full_env :: "(mem_tree, mem_txn, mem_files, unit) storage_env" where
  "full_env = loose_env\<lparr>so_snap := sample_env [sample_full_envelope]\<rparr>"

definition full_meta :: "unit SnapshotMeta" where
  "full_meta = \<lparr>meta_last_log_id = Some (new_term_index 1 9), meta_snapshot_id = ''full-9-5'',
     meta_last_membership = \<lparr>sm_log_id = None, sm_membership = ()\<rparr>\<rparr>"

lemma full_install_run:
  "decode_snapshot_payload (so_snap full_env) (be_encode 2 0) = Inr (Some (DecodedFull (env_metadata sample_full_envelope)))"
  "\<exists>S'. install_snapshot full_env full_meta (be_encode 2 0) sample_follower = (S', Inr ())"
proof -
  have fb: "from_bytes (table_codec [sample_full_envelope]) (be_encode 2 0) = Inr sample_full_envelope"
    by (simp add: table_codec_def be_decode_encode del: be_encode.simps)
  have env: "so_snap full_env = sample_env [sample_full_envelope]" "so_meta full_env = so_meta loose_env"
    by (simp_all add: full_env_def)
  show dec: "decode_snapshot_payload (so_snap full_env) (be_encode 2 0) = Inr (Some (DecodedFull (env_metadata sample_full_envelope)))"
    by (simp add: env decode_snapshot_payload_def fb sample_full_payload del: be_encode.simps)
  obtain w' where inst: "RaftSnapshotBuilder_install_snapshot (sample_env [sample_full_envelope])
      \<lparr>snap_meta = full_meta, snap_data = be_encode 2 0\<rparr> (mem_world [] (\<lambda>_. 5)) = (w', Inr ())"
    using sample_install_full [of "\<lparr>snap_meta = full_meta, snap_data = be_encode 2 0\<rparr>" "\<lambda>_. 5"] by auto
  have kv: "so_kv full_env = so_kv loose_env" by (simp add: full_env_def loose_env_def)
  show "\<exists>S'. install_snapshot full_env full_meta (be_encode 2 0) sample_follower = (S', Inr ())"
    using dec inst unfolding install_snapshot_def Let_def install_snapshot_auto_def kv env(2)
    by (simp add: env full_meta_def on_st_world_def sample_node_def loose_save_applied del: be_encode.simps)
qed

theorem full_install_leaves_state_machine_witness:
  "\<exists>S'. install_snapshot full_env full_meta (be_encode 2 0) sample_follower = (S', Inr ()) \<and>
     state_machine S' = (\<lambda>_. None) \<and>
     Raft_applied_state S' = Inr (Some (new_term_index 1 9), meta_last_membership full_meta)"
proof -
  obtain S' where run: "install_snapshot full_env full_meta (be_encode 2 0) sample_follower = (S', Inr ())"
    using full_install_run(2) by blast
  show ?thesis
    using run full_install_leaves_state_machine [OF full_install_run(1) run, of "new_term_index 1 9"]
    by (auto simp: full_meta_def new_term_index_def sample_node_def)
qed

end
