(* ===== verification/Node_State.thy ===== *)
theory Node_State
  imports Raft_Storage
begin

text \<open>
  The storage of a node over its lifetime: an inductive step relation with one rule for each
  operation that OpenRaft, the merge scheduler, the start-up code or an HTTP handler can invoke, successful or
  not, and the states reachable from opening any tree. A restart is opening the tree again.
\<close>

section \<open>Steps\<close>

inductive storage_step ::
  "('t, 'x, 'f, 'm) storage_env \<Rightarrow> ('t, 'f, 'm) SurrealStorage \<Rightarrow> ('t, 'f, 'm) SurrealStorage \<Rightarrow> bool" for E where
  apply_step: "storage_step E S (fst (fst (apply_stream E items S [])))"
| append_step: "storage_step E S (fst (Raft_append E es S))"
| truncate_step: "storage_step E S (fst (truncate_after l S))"
| purge_step: "storage_step E S (fst (purge p S))"
| vote_step: "storage_step E S (fst (save_vote E v S))"
| build_step: "storage_step E S (fst (build_snapshot E S))"
| install_step: "storage_step E S (fst (install_snapshot E meta data S))"
| recover_step: "storage_step E S (fst (recover_merge_state E S))"
| local_write_step: "storage_step E S (fst (apply_request req S))"
| merge_step: "merge_executor S = Some x \<Longrightarrow> tr \<in> set (spawned S) \<Longrightarrow>
    storage_step E S (fst (run_task E x tr S)\<lparr>spawned := remove1 tr (spawned S)\<rparr>)"

inductive_cases storage_stepE: "storage_step E S S'"

inductive storage_reach ::
  "('t, 'x, 'f, 'm) storage_env \<Rightarrow> ('t, 'f, 'm) SurrealStorage \<Rightarrow> bool" for E where
  opened: "SurrealStorage_new E t w = Inr S \<Longrightarrow> storage_reach E S"
| configured: "SurrealStorage_new E t w = Inr S \<Longrightarrow> storage_reach E (with_merge_policy E policy S)"
| stepped: "storage_reach E S \<Longrightarrow> storage_step E S S' \<Longrightarrow> storage_reach E S'"

section \<open>The remaining operations keep the invariant\<close>

lemma apply_payload_ok:
  assumes env: "env_ok (so_kv E) view pend (so_meta E)" and ok: "storage_ok view E S"
  shows "storage_ok view E (fst (apply_payload E e S))"
proof (cases "entry_payload e")
  case (Normal req)
  have "storage_ok view E (fst (try_then (map_err_st display_RaftError (apply_request req S)) (\<lambda>S resp.
          try_then (map_err_st display_RaftError (append_log_entry E t i req S)) (\<lambda>S _.
          (S, Inr resp)))))" for t i
    by (rule try_then_inv, simp add: apply_request_ok ok, rule try_then_inv, simp add: append_log_entry_ok [OF env]) simp
  then show ?thesis by (simp add: apply_payload_def Normal Let_def)
qed (use ok in \<open>simp_all add: apply_payload_def Let_def\<close>)

lemma apply_stream_ok:
  assumes env: "env_ok (so_kv E) view pend (so_meta E)"
  shows "storage_ok view E S \<Longrightarrow> storage_ok view E (fst (fst (apply_stream E items S sent)))"
proof (induction items arbitrary: S sent)
  case (Cons item items)
  show ?case
  proof (cases item)
    case (Inl e)
    with Cons.prems show ?thesis by simp
  next
    case (Inr er)
    obtain e responder where er: "er = (e, responder)" by (cases er)
    let ?a = "\<lparr>last_applied_index = li_index (entry_log_id e), last_applied_term = li_term (entry_log_id e)\<rparr>"
    obtain S1 q where 1: "apply_payload E e S = (S1, q)" by fastforce
    obtain S2 x where 2: "on_metadata (save_applied_state (so_kv E) (so_meta E) ?a) S1 = (S2, x)" by fastforce
    have ok1: "storage_ok view E S1" using apply_payload_ok [OF env Cons.prems, of e] 1 by simp
    have ok2: "storage_ok view E S2" using save_keeps_storage_ok(2) [OF env ok1, of ?a] 2 by simp
    show ?thesis using 1 2 ok1 Cons.IH [OF ok2] ok2 Inr er by (cases q; cases x) (simp_all add: Let_def)
  qed
qed simp

lemma set_other_key:
  assumes kv: "surrealkv_ok kv view pend" and x: "tree_begin kv t = Inr x" and x': "txn_set kv x key bs = Inr x'"
    and co: "txn_commit kv t x' = (t', q)" and k: "k \<noteq> key"
  shows "view t' k = view t k"
proof (cases q)
  case (Inr u)
  have "pend x' k = None" using surrealkv_set [OF kv x'] surrealkv_begin(1) [OF kv x] k by simp
  then show ?thesis using surrealkv_commit(1) [OF kv co [unfolded Inr]] by simp
next
  case (Inl e)
  then show ?thesis using surrealkv_commit(2) [OF kv co [unfolded Inl]] by simp
qed

lemma save_vote_ok:
  assumes env: "env_ok (so_kv E) view pend (so_meta E)" and ok: "storage_ok view E S"
  shows "storage_ok view E (fst (save_vote E v S))"
proof -
  have tail: "storage_ok view E (fst (case and_then (to_stdvec (so_vote E) v) (\<lambda>data.
          and_then (tree_begin (so_kv E) (tree (metadata S))) (\<lambda>txn. txn_set (so_kv E) txn key_vote_v2 data)) of
       Inl e \<Rightarrow> (S, Inl e)
     | Inr txn \<Rightarrow> on_metadata (on_tree (\<lambda>t. txn_commit (so_kv E) t txn)) S))" (is "storage_ok view E (fst (case ?txn of Inl e \<Rightarrow> _ e | Inr x \<Rightarrow> _ x))")
    if S: "storage_ok view E S" for S :: "('a, 'c, 'd) SurrealStorage"
  proof (cases ?txn)
    case (Inr x')
    then obtain bs x where x: "tree_begin (so_kv E) (tree (metadata S)) = Inr x" and x': "txn_set (so_kv E) x key_vote_v2 bs = Inr x'"
      by (auto simp: and_then_Inr)
    obtain t q where co: "txn_commit (so_kv E) (tree (metadata S)) x' = (t, q)" by fastforce
    have "synced view (so_meta E) ((metadata S)\<lparr>tree := t\<rparr>)"
      using set_other_key [OF env_ok_kv [OF env] x x' co] storage_ok_synced [OF S]
      by (intro synced_tree_cong) auto
    then show ?thesis using Inr S co by (simp add: on_metadata_def on_tree_eq storage_ok_metadata)
  qed (use S in simp)
  show ?thesis
    unfolding save_vote_def
    by (rule try_then_inv, simp add: save_keeps_storage_ok(1) [OF env ok], rule tail)
qed

lemma build_snapshot_ok:
  assumes env: "env_ok (so_kv E) view pend (so_meta E)" and ok: "storage_ok view E S"
  shows "storage_ok view E (fst (build_snapshot E S))"
  unfolding build_snapshot_def Let_def
  by (rule try_then_inv, simp add: build_snapshot_auto_ok [OF env ok]) simp

lemma install_snapshot_ok:
  assumes env: "env_ok (so_kv E) view pend (so_meta E)" and ok: "storage_ok view E S"
  shows "storage_ok view E (fst (install_snapshot E meta data S))"
proof -
  have mid: "storage_ok view E (fst (case meta_last_log_id meta of
            None \<Rightarrow> (S, Inr ())
          | Some lst \<Rightarrow> map_err_st display_RaftError (on_metadata (save_applied_state (so_kv E) (so_meta E)
              \<lparr>last_applied_index = li_index lst, last_applied_term = li_term lst\<rparr>) S)))"
    if "storage_ok view E S" for S :: "('a, 'c, 'd) SurrealStorage"
    using that save_keeps_storage_ok(2) [OF env that] by (simp split: option.split)
  show ?thesis
    unfolding install_snapshot_def Let_def
    by (rule try_then_inv, simp add: install_snapshot_auto_ok [OF env ok], rule try_then_inv, erule mid) simp
qed

lemma storage_step_ok:
  assumes env: "env_ok (so_kv E) view pend (so_meta E)" and "storage_step E S S'" and ok: "storage_ok view E S"
  shows "storage_ok view E S'"
  using assms(2)
proof cases
  case (truncate_step l)
  then show ?thesis using surreal_log.truncate_ok [of E view pend S l] env ok by simp
next
  case (purge_step p)
  then show ?thesis using surreal_log.purge_ok [of E view pend S p] env ok by simp
qed (simp_all add: apply_stream_ok [OF env] Raft_append_ok [OF env] save_vote_ok [OF env] build_snapshot_ok [OF env]
      install_snapshot_ok [OF env] recover_merge_state_ok [OF env] run_task_ok [OF env] apply_request_ok ok)

lemma with_merge_policy_ok: "storage_ok view E S \<Longrightarrow> storage_ok view E (with_merge_policy E policy S)"
  by (auto simp: storage_ok_def with_merge_policy_def with_backend_def)

lemma storage_reach_ok:
  assumes env: "env_ok (so_kv E) view pend (so_meta E)" and "storage_reach E S"
  shows "storage_ok view E S"
  using assms(2)
proof (induction rule: storage_reach.induct)
  case (stepped S S')
  then show ?case using storage_step_ok [OF env] by blast
qed (simp_all add: storage_new_ok [OF env] with_merge_policy_ok)

text \<open>Opening the tree of a node again gives its metadata and nothing of what it had in memory only.\<close>

lemma reopened_node:
  assumes env: "env_ok (so_kv E) view pend (so_meta E)" and ok: "storage_ok view E S"
    and new: "SurrealStorage_new E (tree (metadata S)) w = Inr R"
  shows "metadata R = metadata S" "state_machine R = (\<lambda>_. None)" "raft_entries R = []" "last_purged_log_id R = None"
    "last_membership R = default_stored_membership E"
proof -
  obtain m where ld: "load (so_kv E) (so_meta E) (MetadataManager_new (tree (metadata S))) = (m, Inr ())"
    and R: "metadata R = m" "state_machine R = (\<lambda>_. None)" "raft_entries R = []" "last_purged_log_id R = None"
      "last_membership R = default_stored_membership E"
    using new by (auto simp: SurrealStorage_new_def split: prod.splits sum.splits)
  have "m = metadata S"
    using load_new_synced [OF env_ok_kv [OF env] ld] storage_ok_synced [OF ok] by (intro synced_unique) auto
  with R show "metadata R = metadata S" "state_machine R = (\<lambda>_. None)" "raft_entries R = []" "last_purged_log_id R = None"
    "last_membership R = default_stored_membership E" by simp_all
qed

section \<open>Properties\<close>

text \<open>
  Claim C1: the storage invariant. In every state a node can reach, whatever operations
  succeeded or failed, the metadata in memory is what the tree holds, both logs are in order of
  their index and every entry sits at its own index.
\<close>

theorem reachable_storage_consistent:
  assumes "env_ok (so_kv E) view pend (so_meta E)" and "storage_reach E S"
  shows "synced view (so_meta E) (metadata S) \<and> bt_wf (raft_logs S) \<and> bt_wf (raft_entries S) \<and>
    (\<forall>i l. bt_get (raft_logs S) i = Some l \<longrightarrow> log_index l = i) \<and>
    (\<forall>i e. bt_get (raft_entries S) i = Some e \<longrightarrow> li_index (entry_log_id e) = i)"
  using storage_reach_ok [OF assms] by (auto simp: storage_ok_def bt_get_iff)

text \<open>
  Claim C32: what a restart keeps. Opening the tree of a reachable node again yields the same
  vote, applied position, snapshot state and merge progress, but an empty state machine, an
  empty log and the default membership: a node that had applied entries reports them as applied
  after the restart and holds none of their data.
\<close>

theorem restart_keeps_position_not_data:
  assumes "env_ok (so_kv E) view pend (so_meta E)" and "storage_reach E S"
    and "SurrealStorage_new E (tree (metadata S)) w = Inr R"
  shows "metadata R = metadata S \<and> state_machine R = (\<lambda>_. None) \<and> raft_entries R = [] \<and>
    Raft_applied_state R = Inr (if last_applied_index (applied_state (metadata S)) = 0 then None
      else Some (new_term_index (last_applied_term (applied_state (metadata S))) (last_applied_index (applied_state (metadata S)))),
      default_stored_membership E)"
  using reopened_node [OF assms(1) storage_reach_ok [OF assms(1,2)] assms(3)] by (simp add: Raft_applied_state_def Let_def)


section \<open>Concrete lifetimes\<close>

lemma strict_opened:
  "\<exists>S. SurrealStorage_new strict_env (\<lambda>_. None) (mem_world [] (\<lambda>_. 5)) = Inr S \<and> metadata S = MetadataManager_new (\<lambda>_. None)"
proof -
  have "so_kv strict_env = mem_kv" by (simp add: strict_env_def loose_env_def)
  then show ?thesis by (simp add: SurrealStorage_new_def sample_load)
qed

theorem reachable_storage_consistent_witness:
  "\<exists>S. storage_reach strict_env S \<and> bt_get (raft_entries S) 2 = Some (small_entry 1 2) \<and>
     synced (\<lambda>t. t) (so_meta strict_env) (metadata S)"
proof -
  obtain S where S: "SurrealStorage_new strict_env (\<lambda>_. None) (mem_world [] (\<lambda>_. 5)) = Inr S"
    using strict_opened by blast
  let ?S = "fst (Raft_append strict_env [small_entry 1 1, small_entry 1 2] S)"
  have reach: "storage_reach strict_env ?S"
    by (rule storage_reach.stepped [OF storage_reach.opened [OF S] storage_step.append_step])
  have "raft_entries S = []" using S by (auto simp: SurrealStorage_new_def split: prod.splits sum.splits)
  then have "bt_get (raft_entries ?S) 2 = Some (small_entry 1 2)"
    by (simp add: small_entry_def new_term_index_def bt_get_def)
  then show ?thesis using reach reachable_storage_consistent [OF strict_env_ok reach] by blast
qed

theorem restart_keeps_position_not_data_witness:
  "\<exists>S R. storage_reach strict_env S \<and> SurrealStorage_new strict_env (tree (metadata S)) (mem_world [] (\<lambda>_. 6)) = Inr R \<and>
     metadata R = metadata S \<and> state_machine R = (\<lambda>_. None)"
proof -
  obtain S where S: "SurrealStorage_new strict_env (\<lambda>_. None) (mem_world [] (\<lambda>_. 5)) = Inr S"
    and m: "metadata S = MetadataManager_new (\<lambda>_. None)"
    using strict_opened by blast
  have kv: "so_kv strict_env = mem_kv" by (simp add: strict_env_def loose_env_def)
  have t: "tree (metadata S) = (\<lambda>_. None)" by (simp add: m MetadataManager_new_def)
  obtain R where R: "SurrealStorage_new strict_env (tree (metadata S)) (mem_world [] (\<lambda>_. 6)) = Inr R"
    by (simp add: t SurrealStorage_new_def kv sample_load)
  show ?thesis
    using storage_reach.opened [OF S] R restart_keeps_position_not_data [OF strict_env_ok storage_reach.opened [OF S] R]
    by blast
qed

definition interrupted_node :: "(mem_tree, mem_files, unit) SurrealStorage" where
  "interrupted_node = with_default_merge loose_env (sample_follower\<lparr>metadata :=
     (metadata sample_follower)\<lparr>merge_progress_state := MergeProgressState_started ''chain_too_long'' 1 3 5\<rparr>\<rparr>)"


section \<open>Replicas\<close>

text \<open>
  What a node does besides applying entries: the operations of the log and the votes, building
  snapshots, recovery and merge tasks, with or without an error.
\<close>

inductive quiet_step ::
  "('t, 'x, 'f, 'm) storage_env \<Rightarrow> ('t, 'f, 'm) SurrealStorage \<Rightarrow> ('t, 'f, 'm) SurrealStorage \<Rightarrow> bool" for E where
  quiet_append: "quiet_step E S (fst (Raft_append E es S))"
| quiet_truncate: "quiet_step E S (fst (truncate_after l S))"
| quiet_purge: "quiet_step E S (fst (purge p S))"
| quiet_vote: "quiet_step E S (fst (save_vote E v S))"
| quiet_build: "quiet_step E S (fst (build_snapshot E S))"
| quiet_recover: "quiet_step E S (fst (recover_merge_state E S))"
| quiet_merge: "merge_executor S = Some x \<Longrightarrow> tr \<in> set (spawned S) \<Longrightarrow>
    quiet_step E S (fst (run_task E x tr S)\<lparr>spawned := remove1 tr (spawned S)\<rparr>)"

lemma quiet_step_storage_step: "quiet_step E S S' \<Longrightarrow> storage_step E S S'"
  by (cases rule: quiet_step.cases) (auto intro: storage_step.intros)

text \<open>A run of a node from a state, with the entries applied on the way.\<close>

inductive replica_run ::
  "('t, 'x, 'f, 'm) storage_env \<Rightarrow> ('t, 'f, 'm) SurrealStorage \<Rightarrow> 'm Entry list \<Rightarrow> ('t, 'f, 'm) SurrealStorage \<Rightarrow> bool" for E S\<^sub>0 where
  started: "replica_run E S\<^sub>0 [] S\<^sub>0"
| applied: "replica_run E S\<^sub>0 es S \<Longrightarrow> apply_stream E (map Inr xs) S [] = ((S', sent), Inr u) \<Longrightarrow>
    replica_run E S\<^sub>0 (es @ map fst xs) S'"
| quiet: "replica_run E S\<^sub>0 es S \<Longrightarrow> quiet_step E S S' \<Longrightarrow> replica_run E S\<^sub>0 es S'"

abbreviation same_data :: "('t, 'f, 'm) SurrealStorage \<Rightarrow> ('u, 'g, 'm) SurrealStorage \<Rightarrow> bool" where
  "same_data S S' \<equiv> state_machine S = state_machine S' \<and> last_membership S = last_membership S'"

lemma part_data:
  "state_machine (fst (on_metadata op S)) = state_machine S" "last_membership (fst (on_metadata op S)) = last_membership S"
  "state_machine (fst (on_tree_world op' S)) = state_machine S" "last_membership (fst (on_tree_world op' S)) = last_membership S"
  "state_machine (fst (on_merge op'' S)) = state_machine S" "last_membership (fst (on_merge op'' S)) = last_membership S"
  by (simp_all add: on_metadata_def on_tree_world_def on_merge_def split: prod.splits)

lemma append_log_entry_data: "same_data (fst (append_log_entry E trm i req S)) S"
  by (simp add: append_log_entry_def part_data split: sum.splits)

lemma Raft_append_data: "same_data (fst (Raft_append E es S)) S"
proof (induction es arbitrary: S)
  case (Cons e es)
  let ?logged = "case entry_payload e of
       Normal req \<Rightarrow> map_err_st display_RaftError (append_log_entry E (li_term (entry_log_id e)) (li_index (entry_log_id e)) req S)
     | _ \<Rightarrow> (S, Inr ())"
  have "same_data (fst ?logged) S" by (cases "entry_payload e") (simp_all add: append_log_entry_data)
  moreover obtain S1 q where 1: "?logged = (S1, q)" by fastforce
  ultimately have "same_data S1 S" by simp
  then show ?case using 1 Cons [of "S1\<lparr>raft_entries := bt_insert (li_index (entry_log_id e)) e (raft_entries S1)\<rparr>"]
    by (cases q) (simp_all add: Let_def)
qed simp

lemma save_vote_data: "same_data (fst (save_vote E v S)) S"
  unfolding save_vote_def
  by (intro try_then_inv [where P = "\<lambda>S'. same_data S' S"]) (auto simp: part_data split: sum.splits)

lemma spawn_task_data: "same_data (fst (spawn_task E x S)) S"
  by (rule spawn_task_frame [of E x S "fst (spawn_task E x S)" "snd (spawn_task E x S)"]) simp_all

lemma build_snapshot_auto_data: "same_data (fst (build_snapshot_auto E trm S)) S"
  unfolding build_snapshot_auto_def Let_def
  by (intro try_then_inv [where P = "\<lambda>S'. same_data S' S"])
    (auto simp: part_data spawn_task_data split: option.splits DecodedSnapshotPayload.splits)

lemma build_snapshot_data: "same_data (fst (build_snapshot E S)) S"
  unfolding build_snapshot_def
  by (intro try_then_inv [where P = "\<lambda>S'. same_data S' S"]) (auto simp: Let_def build_snapshot_auto_data)

lemma recover_merge_state_data: "same_data (fst (recover_merge_state E S)) S"
proof -
  have "same_data S1 S" if "spawn_task E x S = (S1, q)" for x S1 q
    using spawn_task_data [of E x S] that by simp
  then show ?thesis
    by (auto simp: recover_merge_state_def Let_def part_data split: option.splits sum.splits prod.splits)
qed

lemma quiet_step_data: "quiet_step E S S' \<Longrightarrow> same_data S' S"
proof (induction rule: quiet_step.induct)
  case (quiet_merge S x tr)
  then show ?case by (simp add: run_task_def part_data)
qed (simp_all add: Raft_append_data save_vote_data build_snapshot_data recover_merge_state_data truncate_after_def purge_def
    split: option.splits)

text \<open>What a run leaves: the requests of the applied entries, in their order, and their last membership.\<close>

lemma membership_after_append: "membership_after (es @ fs) m = membership_after fs (membership_after es m)"
  by (induction es arbitrary: m) simp_all

lemma replica_run_data:
  assumes "replica_run E S\<^sub>0 es S"
  shows "state_machine S = fold kv_effect (requests_in es) (state_machine S\<^sub>0)"
    "last_membership S = membership_after es (last_membership S\<^sub>0)"
  using assms
proof (induction rule: replica_run.induct)
  case (applied es S xs S' sent u)
  obtain ys where ys: "map Inr xs = (map Inr ys :: (string + _) list)" "state_machine S' = fold kv_effect (requests_in (map fst ys)) (state_machine S)"
    "last_membership S' = membership_after (map fst ys) (last_membership S)"
    using apply_stream_Inr [OF applied(2)] by blast
  have "xs = ys" using ys(1) by (simp add: inj_map_eq_map)
  with ys applied(3,4)
  show "state_machine S' = fold kv_effect (requests_in (es @ map fst xs)) (state_machine S\<^sub>0)"
    "last_membership S' = membership_after (es @ map fst xs) (last_membership S\<^sub>0)"
    by (simp_all add: requests_in_def membership_after_append)
qed (auto simp: requests_in_def dest!: quiet_step_data)



end
