(* ===== verification/Startup.thy ===== *)
theory Startup
  imports Metrics Network Node_State
begin

text \<open>
  \<open>src/main.rs\<close> and \<open>src/shutdown.rs\<close>: how the parts are put together. From a loaded
  configuration the process checks its surroundings, opens the tree, builds the storage with
  its merge policy, recovers an interrupted merge, creates the node, with or without consensus,
  and initialises the cluster. The tasks that serve gRPC and HTTP, and their end, are in
  \<open>Serving\<close>.
\<close>

section \<open>The shutdown signal (shutdown.rs)\<close>

record ShutdownSignal =
  shutting_down :: bool

definition ShutdownSignal_new :: ShutdownSignal where
  "ShutdownSignal_new = \<lparr>shutting_down = False\<rparr>"

definition ShutdownSignal_shutdown :: "ShutdownSignal \<Rightarrow> ShutdownSignal" where
  "ShutdownSignal_shutdown sig = sig\<lparr>shutting_down := True\<rparr>"

definition is_shutting_down :: "ShutdownSignal \<Rightarrow> bool" where
  "is_shutting_down sig = shutting_down sig"

section \<open>The start (main.rs)\<close>

text \<open>
  Logging and metrics: the filter of the environment, the parser of filters and the global
  recorder belong to libraries. The result of \<open>init_logging\<close> is the filter with the choice
  of the JSON format.
\<close>

record ('e, 'h) observability =
  env_filter :: "string + 'e"
  parse_filter :: "string \<Rightarrow> string + 'e"
  recorder :: "string + 'h"

definition init_logging :: "('e, 'h) observability \<Rightarrow> Config \<Rightarrow> string + 'e \<times> bool" where
  "init_logging L c =
     and_then (case env_filter L of Inr flt \<Rightarrow> Inr flt | Inl _ \<Rightarrow> parse_filter L (log_level (cf_logging c)))
       (\<lambda>flt. Inr (flt, log_format (cf_logging c) = ''json''))"

text \<open>The resolver of the executable, which differs from the library's in its message only.\<close>

definition main_resolve :: "(u64 \<Rightarrow> string option) \<Rightarrow> u64 \<Rightarrow> RaftError + string" where
  "main_resolve addresses node_id =
     ok_or (Network (''no address found for node '' @ show_u64 node_id)) (addresses node_id)"

text \<open>The product wraps around at 64 bits, as in a release build.\<close>

definition main_merge_policy :: "Config \<Rightarrow> DeltaMergePolicy" where
  "main_merge_policy c = \<lparr>max_chain_length = max_delta_chain (cf_snapshot c),
     max_delta_bytes = max_delta_bytes_mb (cf_snapshot c) * 1024 * 1024,
     checkpoint_interval_secs = sc_checkpoint_interval_secs (cf_snapshot c)\<rparr>"

text \<open>The pool of the network factory, with the addresses of the configuration.\<close>

definition main_pool :: "Config \<Rightarrow> 'c ConnectionPool" where
  "main_pool c = GrpcRaftNetworkFactory_new (main_resolve (resolver_addresses c))"

definition open_storage ::
  "('t, 'x, 'f, 'm) storage_env \<Rightarrow> Config \<Rightarrow> 'f world \<Rightarrow> string + ('t, 'f, 'm) SurrealStorage" where
  "open_storage E c w =
     (case on_files (ensure_data_dir (so_fs E) c) w of
        (w, Inl e) \<Rightarrow> Inl e
      | (w, Inr _) \<Rightarrow> (case on_files (\<lambda>f. tree_open (so_kv E) f (path_join (nc_data_dir (cf_node c)) ''kv'')) w of
          (w, Inl e) \<Rightarrow> Inl e
        | (w, Inr t) \<Rightarrow> (case SurrealStorage_new E t w of
            Inl e \<Rightarrow> Inl (display_RaftError e)
          | Inr S \<Rightarrow> (case recover_merge_state E (with_merge_policy E (main_merge_policy c) S) of
              (S, Inl e) \<Rightarrow> Inl (display_RaftError e)
            | (S, Inr _) \<Rightarrow> Inr S))))"

definition create_node ::
  "('r, 't, 'f, 'm, 'o) openraft \<Rightarrow> Config \<Rightarrow> ('t, 'f, 'm, 'o) node_state \<Rightarrow> ('t, 'f, 'm, 'o) node_state \<times> 'r RaftNode" where
  "create_node rf c s =
     (case RaftNode_new rf c s of
        (s, Inr node) \<Rightarrow> (s, node)
      | (s, Inl e) \<Rightarrow> (s, RaftNode_new_standalone c))"

definition start_up ::
  "('e, 'h) observability \<Rightarrow> ('t, 'x, 'f, 'm) storage_env \<Rightarrow> ('r, 't, 'f, 'm, 'o) openraft \<Rightarrow> (string \<Rightarrow> string + unit) \<Rightarrow>
   Config \<Rightarrow> 'f world \<Rightarrow> 'o \<Rightarrow> string + 'r RaftNode \<times> ('t, 'f, 'm, 'o) node_state" where
  "start_up L E rf bind c w rt =
     and_then (init_logging L c) (\<lambda>_.
     case on_files (preflight_check (so_fs E) bind c) w of
        (w, Inl e) \<Rightarrow> Inl e
      | (w, Inr _) \<Rightarrow>
     and_then (snd (init_prometheus_recorder (recorder L) None)) (\<lambda>_.
     and_then (open_storage E c w) (\<lambda>S.
     case create_node rf c (S, rt) of (s, node) \<Rightarrow>
     and_then (case expected_voters (cf_cluster c) of
          None \<Rightarrow> Inr ()
        | Some expected \<Rightarrow> let actual = length (cluster_members c) in
            if expected \<noteq> actual
            then Inl (''cluster expected_voters mismatch at startup: expected='' @ show_nat expected @ '', actual='' @ show_nat actual)
            else Inr ()) (\<lambda>_.
     Inr (node, if bootstrap (cf_cluster c) \<and> is_real_raft node
                then fst (initialize_cluster rf node (cluster_members c) s) else s)))))"

text \<open>What the start reports: the state it begins in, the term, and the state it comes to.\<close>

definition start_metrics :: "'r RaftNode \<Rightarrow> metric_event list" where
  "start_metrics node = (let i = rn_node_id node in
     record_state i ''booting'' @ record_current_term i 0 @
     record_state i (if is_standalone node then ''standalone'' else ''running''))"

section \<open>A started node\<close>

lemma start_up_cases:
  assumes "start_up L E rf bind c w rt = Inr (node, s)"
  obtains w1 S s1 where "on_files (preflight_check (so_fs E) bind c) w = (w1, Inr ())" "open_storage E c w1 = Inr S"
    "create_node rf c (S, rt) = (s1, node)"
    "s = (if bootstrap (cf_cluster c) \<and> is_real_raft node then fst (initialize_cluster rf node (cluster_members c) s1) else s1)"
proof -
  obtain w1 q where w1: "on_files (preflight_check (so_fs E) bind c) w = (w1, q)" by fastforce
  then obtain S where S: "q = Inr ()" "open_storage E c w1 = Inr S"
    using assms by (cases q; cases "open_storage E c w1") (auto simp: start_up_def and_then_Inr)
  obtain s1 nd where nd: "create_node rf c (S, rt) = (s1, nd)" by fastforce
  show thesis using assms w1 S nd by (intro that [of w1 S s1]) (auto simp: start_up_def and_then_Inr)
qed

text \<open>OpenRaft changes the storage through the operations of its traits only.\<close>

definition raft_uses_storage :: "('t, 'x, 'f, 'm) storage_env \<Rightarrow> ('r, 't, 'f, 'm, 'o) openraft \<Rightarrow> bool" where
  "raft_uses_storage E rf \<longleftrightarrow> (\<forall>s. storage_reach E (fst s) \<longrightarrow>
     (\<forall>i cfg. storage_reach E (fst (fst (raft_create rf i cfg s)))) \<and>
     (\<forall>r members. storage_reach E (fst (fst (raft_initialize rf r members s)))))"

lemma raft_uses_storageD:
  assumes "raft_uses_storage E rf" "storage_reach E (fst s)"
  shows "storage_reach E (fst (fst (raft_create rf i cfg s)))" "storage_reach E (fst (fst (raft_initialize rf r members s)))"
  using assms unfolding raft_uses_storage_def by blast+

lemma open_storage_reach:
  assumes "open_storage E c w = Inr S"
  shows "storage_reach E S"
proof -
  obtain t w1 S0 u where new: "SurrealStorage_new E t w1 = Inr S0"
    and rec: "recover_merge_state E (with_merge_policy E (main_merge_policy c) S0) = (S, Inr u)"
    using assms by (auto simp: open_storage_def split: prod.splits sum.splits)
  have "storage_step E (with_merge_policy E (main_merge_policy c) S0) S"
    using storage_step.recover_step [of E "with_merge_policy E (main_merge_policy c) S0"] rec by simp
  then show ?thesis by (rule storage_reach.stepped [OF storage_reach.configured [OF new]])
qed

lemma create_node_reach:
  assumes "raft_uses_storage E rf" "storage_reach E (fst s)" and run: "create_node rf c s = (s', node)"
  shows "storage_reach E (fst s')" "rn_node_id node = nc_node_id (cf_node c)" "is_standalone node \<longleftrightarrow> rn_raft node = None"
proof -
  obtain s1 q where q: "RaftNode_new rf c s = (s1, q)" by fastforce
  have r: "storage_reach E (fst s1)"
  proof (cases "config_validate rf (raft_config_of c)")
    case (Inr cfg)
    obtain s2 a where a: "raft_create rf (nc_node_id (cf_node c)) cfg s = (s2, a)" by fastforce
    note raft_uses_storageD(1) [OF assms(1,2), of "nc_node_id (cf_node c)" cfg]
    then show ?thesis using q Inr a by (cases a) (auto simp: RaftNode_new_def)
  qed (use q assms(2) in \<open>simp add: RaftNode_new_def\<close>)
  have n: "q = Inr nd \<Longrightarrow> rn_node_id nd = nc_node_id (cf_node c) \<and> \<not> is_standalone nd \<and> rn_raft nd \<noteq> None" for nd
    using q by (auto simp: RaftNode_new_def try_then_Inr)
  show "storage_reach E (fst s')" "rn_node_id node = nc_node_id (cf_node c)" "is_standalone node \<longleftrightarrow> rn_raft node = None"
    using run q r n by (cases q; auto simp: create_node_def RaftNode_new_standalone_def)+
qed

lemma initialize_with_members:
  assumes "validate c = Inr ()" "rn_node_id node = nc_node_id (cf_node c)"
  shows "initialize_cluster rf node (cluster_members c) s = (case rn_raft node of
     None \<Rightarrow> (s, Inr ())
   | Some raft \<Rightarrow> map_err_st (\<lambda>e. ''raft initialize failed: '' @ e) (raft_initialize rf raft (cluster_members c) s))"
  using cluster_members_get(1) [OF assms(1)] assms(2)
  by (auto simp: initialize_cluster_def bt_get_def)

lemma start_up_node:
  assumes v: "validate c = Inr ()" and "raft_uses_storage E rf" and "start_up L E rf bind c w rt = Inr (node, s)"
  shows "storage_reach E (fst s)" "rn_node_id node = nc_node_id (cf_node c)" "is_standalone node \<longleftrightarrow> rn_raft node = None"
proof -
  from assms(3) obtain w1 S s1 where S: "open_storage E c w1 = Inr S" and n: "create_node rf c (S, rt) = (s1, node)"
    and s: "s = (if bootstrap (cf_cluster c) \<and> is_real_raft node
       then fst (initialize_cluster rf node (cluster_members c) s1) else s1)"
    by (rule start_up_cases)
  have "storage_reach E (fst (S, rt))" using open_storage_reach [OF S] by simp
  note c = create_node_reach [OF assms(2) this n]
  have "storage_reach E (fst (fst (initialize_cluster rf node (cluster_members c) s1)))"
    using c(1) by (simp add: initialize_with_members [OF v c(2)] raft_uses_storageD(2) [OF assms(2)] split: option.split)
  then show "storage_reach E (fst s)" using c(1) s by simp
qed (use create_node_reach(2,3) [OF assms(2)] open_storage_reach start_up_cases [OF assms(3)] in \<open>metis fst_conv\<close>)+


lemma leaderless_uses_storage: "raft_uses_storage E leaderless"
  by (simp add: raft_uses_storage_def leaderless_def)

lemma strict_open_storage:
  assumes "map_of (files w) (nc_data_dir (cf_node c)) = Some DirNode"
  shows "\<exists>S. open_storage strict_env c w = Inr S"
proof -
  have env: "so_kv strict_env = mem_kv" "so_fs strict_env = mem_fs" by (simp_all add: strict_env_def loose_env_def)
  obtain S where S: "SurrealStorage_new strict_env (\<lambda>_. None) w = Inr S" "metadata S = MetadataManager_new (\<lambda>_. None)"
    by (simp add: SurrealStorage_new_def env sample_load)
  then have "recover_merge_state strict_env (with_merge_policy strict_env p S) = (with_merge_policy strict_env p S, Inr ())" for p
    by (simp add: recover_merge_state_def with_merge_policy_def MetadataManager_new_def MergeProgressState_new_def)
  then show ?thesis using assms S(1) by (simp add: open_storage_def env ensure_data_dir_def on_files_def)
qed

definition plain_logs :: "(string, unit) observability" where
  "plain_logs = \<lparr>env_filter = Inl ''unset'', parse_filter = Inr, recorder = Inr ()\<rparr>"

definition cfg_world :: "mem_files world" where
  "cfg_world = mem_world [(''cfg'', FileNode [])] (\<lambda>_. 5)"

lemma sample_start:
  shows "Config_load (\<lambda>_. Inr three_nodes) (so_fs strict_env) (files cfg_world) id_args = Some (Inr (apply_overrides id_args three_nodes))"
    and "\<exists>node s. start_up plain_logs strict_env leaderless (\<lambda>_. Inr ()) (apply_overrides id_args three_nodes) cfg_world () = Inr (node, s)"
proof -
  have fs: "so_fs strict_env = mem_fs" by (simp add: strict_env_def loose_env_def)
  let ?c = "apply_overrides id_args three_nodes" and ?d = "nc_data_dir (cf_node (apply_overrides id_args three_nodes))"
  show "Config_load (\<lambda>_. Inr three_nodes) (so_fs strict_env) (files cfg_world) id_args = Some (Inr ?c)"
    using three_nodes_load by (simp add: fs cfg_world_def mem_world_def)
  have d: "?d = ''./data/node_1''" by (simp add: apply_overrides_def id_args_def three_nodes_def Config_default_def)
  have "path_join ''./data/node_1'' ''.write_probe'' \<noteq> ''./data/node_1''" by code_simp
  then obtain w1 where w1: "on_files (preflight_check (so_fs strict_env) (\<lambda>_. Inr ()) ?c) cfg_world = (w1, Inr ())"
    "map_of (files w1) ?d = Some DirNode"
    by (simp add: preflight_check_def ensure_data_dir_def fs d check_bindable_def on_files_def cfg_world_def mem_world_def Let_def)
  obtain S where S: "open_storage strict_env ?c w1 = Inr S" using strict_open_storage [of w1 ?c] w1 d by auto
  obtain s1 node where n: "create_node leaderless ?c (S, ()) = (s1, node)" by fastforce
  have "expected_voters (cf_cluster ?c) = Some 3" "length (cluster_members ?c) = 3"
    by (simp_all add: apply_overrides_def id_args_def three_nodes_def Config_default_def cluster_members_def)
  then have "start_up plain_logs strict_env leaderless (\<lambda>_. Inr ()) ?c cfg_world () = Inr (node,
      if bootstrap (cf_cluster ?c) \<and> is_real_raft node then fst (initialize_cluster leaderless node (cluster_members ?c) s1) else s1)"
    using w1 S n by (simp add: start_up_def plain_logs_def init_logging_def init_prometheus_recorder_def)
  then show "\<exists>node s. start_up plain_logs strict_env leaderless (\<lambda>_. Inr ()) ?c cfg_world () = Inr (node, s)" by blast
qed


section \<open>Numbers of the configuration\<close>

text \<open>
  Claim C30: the numbers handed to OpenRaft and to the merge policy. For a valid configuration
  the heartbeat lies below the minimal and that below the maximal election timeout, except
  for a timeout of \<open>u64::MAX\<close>, where the saturating sum makes the last two equal. The byte
  limit of the merge policy is the configured number of mebibytes as long as that is below
  \<open>2 ^ 44\<close>; from there on the product wraps, and at \<open>2 ^ 44\<close> it is zero, so that every
  evaluation with a chain of allowed length asks for a merge.
\<close>

theorem configured_limits:
  assumes "validate c = Inr ()"
  shows "or_heartbeat_interval (raft_config_of c) < or_election_timeout_min (raft_config_of c) \<and>
    (if election_timeout_ms (cf_raft c) = - 1
     then or_election_timeout_max (raft_config_of c) = or_election_timeout_min (raft_config_of c)
     else or_election_timeout_min (raft_config_of c) < or_election_timeout_max (raft_config_of c)) \<and>
    (unat (max_delta_bytes_mb (cf_snapshot c)) < 2 ^ 44 \<longrightarrow>
       unat (max_delta_bytes (main_merge_policy c)) = unat (max_delta_bytes_mb (cf_snapshot c)) * 2 ^ 20) \<and>
    (max_delta_bytes_mb (cf_snapshot c) = 2 ^ 44 \<longrightarrow>
       (\<forall>st now. length (delta_chain st) < max_delta_chain (cf_snapshot c) \<longrightarrow>
          evaluate (main_merge_policy c) st now = Some SizeTooLarge))"
proof -
  let ?h = "heartbeat_interval_ms (cf_raft c)" and ?e = "election_timeout_ms (cf_raft c)"
    and ?mb = "max_delta_bytes_mb (cf_snapshot c)"
  have lt: "?h < ?e" using assms by (simp add: validate_iff)
  have sum: "unat (saturating_add ?e (max ?h 1)) = min (unat ?e + unat (max ?h 1)) (2 ^ 64 - 1)"
    by (simp add: unat_saturating_add)
  have pos: "0 < unat (max ?h 1)" by (simp add: max_def word_le_nat_alt)
  have "?e = - 1 \<longleftrightarrow> unat ?e = 2 ^ 64 - 1" by (rule u64_max_iff)
  then have ordered: "if ?e = - 1 then saturating_add ?e (max ?h 1) = ?e else ?e < saturating_add ?e (max ?h 1)"
    using sum pos unsigned_less [of ?e, where ?'a = nat]
    by (auto simp: word_less_nat_alt word_unat_eq_iff min_def)
  have "max_delta_bytes (main_merge_policy c) = ?mb * 1048576"
    by (simp add: main_merge_policy_def mult.assoc)
  then have mb: "unat ?mb < 2 ^ 44 \<longrightarrow> unat (max_delta_bytes (main_merge_policy c)) = unat ?mb * 2 ^ 20"
    by (simp add: unat_word_ariths)
  have chain: "max_chain_length (main_merge_policy c) = max_delta_chain (cf_snapshot c)"
    by (simp add: main_merge_policy_def)
  have "?mb = 2 ^ 44 \<Longrightarrow> max_delta_bytes (main_merge_policy c) = 0"
    by (simp add: main_merge_policy_def)
  then have wrap: "?mb = 2 ^ 44 \<longrightarrow> (\<forall>st now. length (delta_chain st) < max_delta_chain (cf_snapshot c) \<longrightarrow>
      evaluate (main_merge_policy c) st now = Some SizeTooLarge)"
    using chain by (simp add: evaluate_def MergeDecision_from_state_def Let_def)
  show ?thesis using lt ordered mb wrap unfolding raft_config_of_def openraft_config.simps by blast
qed

theorem configured_limits_witness:
  "or_election_timeout_min (raft_config_of Config_default) < or_election_timeout_max (raft_config_of Config_default) \<and>
   unat (max_delta_bytes (main_merge_policy Config_default)) = 300 * 2 ^ 20"
  using configured_limits [OF default_valid] by (simp add: Config_default_def)

end
