(* ===== verification/Http_Server.thy ===== *)
theory Http_Server
  imports Startup
begin

text \<open>
  \<open>src/api/server.rs\<close> and \<open>src/api/middleware.rs\<close>: the table of routes, the handler each
  leads to, and the middleware that gives every request an id. The router of axum is the
  parameter of the construction; headers are an association list.
\<close>

section \<open>Routes (server.rs)\<close>

datatype http_method = GET | POST | DELETE

datatype endpoint = GetKey | PutKey | DeleteKey | HealthCheck | ReadyCheck | StatusOf | MetricsText

text \<open>The routes in the order in which they are added.\<close>

definition routes :: "(string \<times> http_method \<times> endpoint) list" where
  "routes = [(''/kv/:key'', GET, GetKey), (''/kv/:key'', POST, PutKey), (''/kv/:key'', DELETE, DeleteKey),
     (''/health'', GET, HealthCheck), (''/ready'', GET, ReadyCheck), (''/status'', GET, StatusOf),
     (''/metrics'', GET, MetricsText)]"

text \<open>
  \<open>Router::route\<close> adds a route to a router or panics, the value \<open>None\<close>; the server is the
  finished router, its state and the address it will listen on.
\<close>

fun add_routes ::
  "(string \<Rightarrow> http_method \<Rightarrow> endpoint \<Rightarrow> 'rt \<Rightarrow> 'rt option) \<Rightarrow> (string \<times> http_method \<times> endpoint) list \<Rightarrow> 'rt \<Rightarrow> 'rt option" where
  "add_routes route [] rt = Some rt"
| "add_routes route ((p, m, h) # rs) rt = (case route p m h rt of None \<Rightarrow> None | Some rt \<Rightarrow> add_routes route rs rt)"

record ('rt, 'r) HttpServer =
  hs_app :: 'rt
  hs_state :: "'r AppState"
  hs_addr :: string

definition with_app_state ::
  "(string \<Rightarrow> http_method \<Rightarrow> endpoint \<Rightarrow> 'rt \<Rightarrow> 'rt option) \<Rightarrow> 'rt \<Rightarrow> 'r AppState \<Rightarrow> u16 \<Rightarrow> ('rt, 'r) HttpServer option" where
  "with_app_state route empty_router state port =
     map_option (\<lambda>rt. \<lparr>hs_app = rt, hs_state = state, hs_addr = ''0.0.0.0:'' @ show_u64 port\<rparr>)
       (add_routes route routes empty_router)"

definition HttpServer_new ::
  "(string \<Rightarrow> http_method \<Rightarrow> endpoint \<Rightarrow> 'rt \<Rightarrow> 'rt option) \<Rightarrow> 'rt \<Rightarrow> u64 \<Rightarrow> u16 \<Rightarrow> ('rt, 'r) HttpServer option" where
  "HttpServer_new route empty_router node_id port =
     with_app_state route empty_router \<lparr>raft_node = None, as_node_id = node_id\<rparr> port"

definition with_raft ::
  "(string \<Rightarrow> http_method \<Rightarrow> endpoint \<Rightarrow> 'rt \<Rightarrow> 'rt option) \<Rightarrow> 'rt \<Rightarrow> 'r RaftNode \<Rightarrow> u64 \<Rightarrow> u16 \<Rightarrow> ('rt, 'r) HttpServer option" where
  "with_raft route empty_router node node_id port =
     with_app_state route empty_router \<lparr>raft_node = Some node, as_node_id = node_id\<rparr> port"

section \<open>Request ids (middleware.rs)\<close>

type_synonym headers = "(string \<times> bytes) list"

text \<open>
  \<open>HeaderValue::to_str\<close> accepts visible ASCII, spaces and tabs, \<open>HeaderValue::from_str\<close> every
  byte but control characters other than the tab, and the delete character.
\<close>

definition header_to_str :: "bytes \<Rightarrow> string option" where
  "header_to_str v = (if list_all (\<lambda>b. 32 \<le> unat b \<and> unat b < 127 \<or> unat b = 9) v then Some (of_bytes v) else None)"

definition header_from_str :: "string \<Rightarrow> bytes option" where
  "header_from_str s = (if list_all (\<lambda>b. 32 \<le> unat b \<and> unat b \<noteq> 127 \<or> unat b = 9) (as_bytes s) then Some (as_bytes s) else None)"

text \<open>
  The middleware around the rest of the service, \<open>run\<close>, which sees the id in the request's
  extensions and returns the headers of the response with its body.
\<close>

definition request_id_middleware ::
  "(string \<Rightarrow> headers \<Rightarrow> 'f world \<Rightarrow> 'f world \<times> headers \<times> 'b) \<Rightarrow> headers \<Rightarrow> 'f world \<Rightarrow> 'f world \<times> headers \<times> 'b" where
  "request_id_middleware run req w =
     (let (w, req_id) = (case Option.bind (map_of req ''x-request-id'') header_to_str of
            Some s \<Rightarrow> (w, s) | None \<Rightarrow> new_uuid w) in
      case run req_id req w of (w, resp, body) \<Rightarrow>
        (w, (if map_of resp ''x-request-id'' = None
             then (case header_from_str req_id of None \<Rightarrow> resp | Some v \<Rightarrow> resp @ [(''x-request-id'', v)])
             else resp), body))"

text \<open>
  Every response carries an id: the one the service set, or the one of the request if that is
  readable text, or a fresh one (of characters a header may have).
\<close>

lemma header_round_trip: "header_to_str v = Some s \<Longrightarrow> header_from_str s = Some v"
proof -
  assume "header_to_str v = Some s"
  then have v: "list_all (\<lambda>b. 32 \<le> unat b \<and> unat b < 127 \<or> unat b = 9) v" and s: "s = of_bytes v"
    by (auto simp: header_to_str_def split: if_splits)
  have "(of_char (char_of (unat b)) :: byte) = b" for b :: byte
  proof -
    have "(of_char (char_of (unat b)) :: byte) = of_nat (of_char (char_of (unat b)))" by (rule of_nat_of_char [symmetric])
    also have "\<dots> = of_nat (unat b mod 256)" by simp
    also have "unat b mod 256 = unat b" using unsigned_less [of b, where ?'a = nat] by simp
    finally show ?thesis by simp
  qed
  then have "as_bytes (of_bytes v) = v" by (simp add: as_bytes_def of_bytes_def o_def)
  moreover have "list_all (\<lambda>b. 32 \<le> unat b \<and> unat b \<noteq> 127 \<or> unat b = 9) v"
    using v by (auto simp: list_all_iff)
  ultimately show ?thesis by (simp add: header_from_str_def s)
qed

lemma request_id_propagated:
  assumes "map_of req ''x-request-id'' = Some v" "header_to_str v = Some s"
    and "request_id_middleware run req w = (w', resp, body)" and "run s req w = (w1, resp1, body1)"
  shows "map_of resp ''x-request-id'' =
    (case map_of resp1 ''x-request-id'' of None \<Rightarrow> Some v | Some u \<Rightarrow> Some u) \<and> body = body1"
  using assms header_round_trip [OF assms(2)]
  by (auto simp: request_id_middleware_def map_add_def split: option.splits)

lemma request_id_fresh:
  assumes "map_of req ''x-request-id'' = None" and "header_from_str (uuid_source w (uuids w)) = Some v"
    and "request_id_middleware run req w = (w', resp, body)"
  shows "map_of resp ''x-request-id'' \<noteq> None"
  using assms by (auto simp: request_id_middleware_def new_uuid_def map_add_def split: prod.splits if_splits)

text \<open>
  What axum documents since version 0.8: \<open>Router::route\<close> panics for a path with a segment that
  starts with a colon, the capture syntax of earlier versions (captures are now in braces). The
  first route has such a segment, so building the server panics.
\<close>

fun segments :: "string \<Rightarrow> string \<Rightarrow> string list" where
  "segments cur [] = [rev cur]"
| "segments cur (c # cs) = (if c = CHR ''/'' then rev cur # segments [] cs else segments (c # cur) cs)"

definition axum_rejects_colons :: "(string \<Rightarrow> http_method \<Rightarrow> endpoint \<Rightarrow> 'rt \<Rightarrow> 'rt option) \<Rightarrow> bool" where
  "axum_rejects_colons route \<longleftrightarrow> (\<forall>p m h rt. (\<exists>seg \<in> set (segments [] p). starts_with seg '':'') \<longrightarrow> route p m h rt = None)"

lemma server_construction_panics:
  assumes "axum_rejects_colons route"
  shows "with_raft route empty_router node i port = None \<and> HttpServer_new route empty_router i port = None"
proof -
  have "\<exists>seg \<in> set (segments [] ''/kv/:key''). starts_with seg '':''" by code_simp
  then have "route ''/kv/:key'' GET GetKey empty_router = None" using assms by (simp only: axum_rejects_colons_def)
  then show ?thesis by (simp add: with_raft_def HttpServer_new_def with_app_state_def routes_def)
qed

end
