(* ===== verification/Serving.thy ===== *)
theory Serving
  imports Http_Server
begin

text \<open>
  The second half of \<open>main\<close> in \<open>src/main.rs\<close>: after the start it spawns a task for the gRPC
  server and one for the HTTP server, waits for Ctrl+C, stops the services and leaves. \<open>main\<close>
  and the tasks run side by side, so this part is a step relation on the state of the process:
  a step of \<open>main\<close> up to the next \<open>await\<close> it may block at, or a step of one of the tasks.
\<close>

section \<open>The process\<close>

text \<open>A spawned task runs, has ended with a result, or was cancelled.\<close>

datatype task = Running | Ended "string + unit" | Cancelled

text \<open>
  Where \<open>main\<close> waits: for the signal, for the HTTP task, for the gRPC task, for the shutdown
  of the consensus layer; or it has returned.
\<close>

datatype phase = WaitSignal | JoinHttp | JoinRaft | StopNode | Returned "string + unit"

text \<open>
  \<open>stop_sent\<close> tells that the channel to the gRPC task was used, \<open>http_aborted\<close> that
  \<open>abort\<close> was called. axum serves every accepted connection in a task of its own, which the
  end of the accepting task does not end; \<open>connections\<close> is their number.
\<close>

record ('r, 't, 'f, 'm, 'o) process =
  main_phase :: phase
  shutdown_signal :: ShutdownSignal
  grpc_task :: "task option"
  stop_sent :: bool
  http_task :: "task option"
  http_aborted :: bool
  http_state :: "'r AppState"
  connections :: nat
  proc_node :: "('t, 'f, 'm, 'o) node_state"

text \<open>
  Spawning the services: the gRPC server when the node has a consensus layer, the HTTP server
  when it is enabled. \<open>None\<close> is the panic of building the router.
\<close>

definition launch ::
  "(string \<Rightarrow> http_method \<Rightarrow> endpoint \<Rightarrow> 'rt \<Rightarrow> 'rt option) \<Rightarrow> 'rt \<Rightarrow> Config \<Rightarrow> 'r RaftNode \<Rightarrow>
   ('t, 'f, 'm, 'o) node_state \<Rightarrow> ('r, 't, 'f, 'm, 'o) process option" where
  "launch route empty_router c node s =
     (let p = \<lparr>main_phase = WaitSignal, shutdown_signal = ShutdownSignal_new,
        grpc_task = map_option (\<lambda>_. Running) (rn_raft node), stop_sent = False,
        http_task = None, http_aborted = False, http_state = \<lparr>raft_node = Some node, as_node_id = nc_node_id (cf_node c)\<rparr>,
        connections = 0, proc_node = s\<rparr> in
      if http_enabled (cf_http c)
      then map_option (\<lambda>hs. p\<lparr>http_task := Some Running, http_state := hs_state hs\<rparr>)
             (with_raft route empty_router node (nc_node_id (cf_node c)) (http_port (cf_http c)))
      else Some p)"

text \<open>The gRPC server listens on the configured address with the default limit for messages.\<close>

definition grpc_server_config :: "Config \<Rightarrow> ServerConfig" where
  "grpc_server_config c = ServerConfig_default\<lparr>server_addr := nc_listen_addr (cf_node c)\<rparr>"

text \<open>The values of the self-check that is logged before \<open>main\<close> waits.\<close>

definition startup_self_check :: "('r, 't, 'f, 'm, 'o) openraft \<Rightarrow> 'r RaftNode \<Rightarrow> ('t, 'f, 'm, 'o) node_state \<Rightarrow> string \<times> string \<times> u64" where
  "startup_self_check rf node s =
     (if is_standalone node then ''standalone'' else node_current_role rf node s,
      case Storage_read ''__ready_probe__'' (fst s) of
        Inr _ \<Rightarrow> ''storage_ok latency=0ms''
      | Inl e \<Rightarrow> ''storage_error: '' @ display_RaftError e,
      applied_index s)"

text \<open>\<open>main\<close> up to the wait: it returns an error, panics, or serves. \<open>None\<close> is the exit after \<open>--version\<close>.\<close>

datatype ('r, 't, 'f, 'm, 'o) main_result = Failed string | Panicked | Serving "'r RaftNode" "('r, 't, 'f, 'm, 'o) process"

definition main_until_signal ::
  "(string \<Rightarrow> string + Config) \<Rightarrow> CliArgs \<Rightarrow> ('e, 'h) observability \<Rightarrow> ('t, 'x, 'f, 'm) storage_env \<Rightarrow> ('r, 't, 'f, 'm, 'o) openraft \<Rightarrow>
   (string \<Rightarrow> string + unit) \<Rightarrow> (string \<Rightarrow> http_method \<Rightarrow> endpoint \<Rightarrow> 'rt \<Rightarrow> 'rt option) \<Rightarrow> 'rt \<Rightarrow> 'f world \<Rightarrow> 'o \<Rightarrow>
   ('r, 't, 'f, 'm, 'o) main_result option" where
  "main_until_signal toml args L E rf bind route empty_router w rt =
     map_option (\<lambda>loaded. case loaded of
        Inl e \<Rightarrow> Failed e
      | Inr c \<Rightarrow> (case start_up L E rf bind c w rt of
          Inl e \<Rightarrow> Failed e
        | Inr (node, s) \<Rightarrow> (case launch route empty_router c node s of
            None \<Rightarrow> Panicked
          | Some p \<Rightarrow> Serving node p)))
       (Config_load toml (so_fs E) (files w) args)"

section \<open>Steps of main\<close>

definition stop_services :: "('r, 't, 'f, 'm, 'o) process \<Rightarrow> ('r, 't, 'f, 'm, 'o) process" where
  "stop_services p = p\<lparr>shutdown_signal := ShutdownSignal_shutdown (shutdown_signal p),
     stop_sent := (grpc_task p \<noteq> None), http_aborted := (http_task p \<noteq> None), main_phase := JoinHttp\<rparr>"

text \<open>
  From one wait to the next, \<open>None\<close> while what it waits for is not there. \<open>ctrl_c\<close> is what the
  signal handler has delivered so far.
\<close>

definition main_step ::
  "('r, 't, 'f, 'm, 'o) openraft \<Rightarrow> 'r RaftNode \<Rightarrow> (string + unit) option \<Rightarrow> ('r, 't, 'f, 'm, 'o) process \<Rightarrow>
   ('r, 't, 'f, 'm, 'o) process option" where
  "main_step rf node ctrl_c p =
     (case main_phase p of
        WaitSignal \<Rightarrow> map_option (\<lambda>r. case r of
            Inl e \<Rightarrow> p\<lparr>main_phase := Returned (Inl e)\<rparr>
          | Inr _ \<Rightarrow> stop_services p) ctrl_c
      | JoinHttp \<Rightarrow> if http_task p = Some Running then None else Some (p\<lparr>main_phase := JoinRaft\<rparr>)
      | JoinRaft \<Rightarrow> if grpc_task p = Some Running then None else Some (p\<lparr>main_phase := StopNode\<rparr>)
      | StopNode \<Rightarrow> Some (p\<lparr>proc_node := fst (RaftNode_shutdown rf node (proc_node p)), main_phase := Returned (Inr ())\<rparr>)
      | Returned _ \<Rightarrow> None)"

section \<open>Steps of the tasks\<close>

text \<open>
  What the tasks can do. The HTTP task accepts connections and may end with an error or, once
  aborted, be cancelled; a connection serves requests. The gRPC task serves calls, may end with
  an error, and ends without one once it is told to stop. \<open>works\<close> is what the tasks of OpenRaft do.
\<close>

inductive task_step ::
  "('aq, 'ar, 'vq, 'vr, 'm) rpc_codecs \<Rightarrow> ('aq, 'ar, 'vq, 'vr, 'm, ('t, 'f, 'm, 'o) node_state) RaftServiceHandler \<Rightarrow>
   ('r, 't, 'f, 'm, 'o) openraft \<Rightarrow> (('t, 'f, 'm, 'o) node_state \<Rightarrow> ('t, 'f, 'm, 'o) node_state \<Rightarrow> bool) \<Rightarrow>
   ('r, 't, 'f, 'm, 'o) process \<Rightarrow> ('r, 't, 'f, 'm, 'o) process \<Rightarrow> bool" for C H rf works where
  http_accept: "http_task p = Some Running \<Longrightarrow> task_step C H rf works p (p\<lparr>connections := connections p + 1\<rparr>)"
| http_close: "0 < connections p \<Longrightarrow> task_step C H rf works p (p\<lparr>connections := connections p - 1\<rparr>)"
| http_put: "0 < connections p \<Longrightarrow>
    task_step C H rf works p (p\<lparr>proc_node := fst (put_key rf (http_state p) key body (proc_node p))\<rparr>)"
| http_delete: "0 < connections p \<Longrightarrow>
    task_step C H rf works p (p\<lparr>proc_node := fst (delete_key rf (http_state p) key (proc_node p))\<rparr>)"
| http_failed: "http_task p = Some Running \<Longrightarrow> task_step C H rf works p (p\<lparr>http_task := Some (Ended (Inl e))\<rparr>)"
| http_cancelled: "http_task p = Some Running \<Longrightarrow> http_aborted p \<Longrightarrow> task_step C H rf works p (p\<lparr>http_task := Some Cancelled\<rparr>)"
| grpc_append: "grpc_task p = Some Running \<Longrightarrow>
    task_step C H rf works p (p\<lparr>proc_node := fst (RaftGrpcServer_append_entries C H payload (proc_node p))\<rparr>)"
| grpc_vote: "grpc_task p = Some Running \<Longrightarrow>
    task_step C H rf works p (p\<lparr>proc_node := fst (RaftGrpcServer_request_vote C H payload (proc_node p))\<rparr>)"
| grpc_install: "grpc_task p = Some Running \<Longrightarrow>
    task_step C H rf works p (p\<lparr>proc_node := fst (RaftGrpcServer_install_snapshot C H payload (proc_node p))\<rparr>)"
| grpc_failed: "grpc_task p = Some Running \<Longrightarrow> task_step C H rf works p (p\<lparr>grpc_task := Some (Ended (Inl e))\<rparr>)"
| grpc_stopped: "grpc_task p = Some Running \<Longrightarrow> stop_sent p \<Longrightarrow> task_step C H rf works p (p\<lparr>grpc_task := Some (Ended (Inr ()))\<rparr>)"
| raft_works: "works (proc_node p) s \<Longrightarrow> task_step C H rf works p (p\<lparr>proc_node := s\<rparr>)"

text \<open>A step of the process. Once \<open>main\<close> has returned the runtime is dropped and with it every task.\<close>

definition returned :: "('r, 't, 'f, 'm, 'o) process \<Rightarrow> bool" where
  "returned p = (case main_phase p of Returned _ \<Rightarrow> True | _ \<Rightarrow> False)"

inductive process_step ::
  "('aq, 'ar, 'vq, 'vr, 'm) rpc_codecs \<Rightarrow> ('aq, 'ar, 'vq, 'vr, 'm, ('t, 'f, 'm, 'o) node_state) RaftServiceHandler \<Rightarrow>
   ('r, 't, 'f, 'm, 'o) openraft \<Rightarrow> (('t, 'f, 'm, 'o) node_state \<Rightarrow> ('t, 'f, 'm, 'o) node_state \<Rightarrow> bool) \<Rightarrow> 'r RaftNode \<Rightarrow>
   ('r, 't, 'f, 'm, 'o) process \<Rightarrow> ('r, 't, 'f, 'm, 'o) process \<Rightarrow> bool" for C H rf works node where
  by_main: "main_step rf node ctrl_c p = Some p' \<Longrightarrow> process_step C H rf works node p p'"
| by_task: "\<not> returned p \<Longrightarrow> task_step C H rf works p p' \<Longrightarrow> process_step C H rf works node p p'"


section \<open>Stopping in order\<close>

text \<open>OpenRaft, its server side included, changes the storage through the operations of its traits only.\<close>

definition layer_uses_storage ::
  "('t, 'x, 'f, 'm) storage_env \<Rightarrow> ('aq, 'ar, 'vq, 'vr, 'm, ('t, 'f, 'm, 'o) node_state) RaftServiceHandler \<Rightarrow>
   ('r, 't, 'f, 'm, 'o) openraft \<Rightarrow> (('t, 'f, 'm, 'o) node_state \<Rightarrow> ('t, 'f, 'm, 'o) node_state \<Rightarrow> bool) \<Rightarrow> bool" where
  "layer_uses_storage E H rf works \<longleftrightarrow> raft_uses_storage E rf \<and> (\<forall>s. storage_reach E (fst s) \<longrightarrow>
     (\<forall>r req. storage_reach E (fst (fst (raft_client_write rf r req s)))) \<and>
     (\<forall>r. storage_reach E (fst (fst (raft_shutdown rf r s)))) \<and>
     (\<forall>q. storage_reach E (fst (fst (handle_append_entries H q s)))) \<and>
     (\<forall>q. storage_reach E (fst (fst (handle_vote H q s)))) \<and>
     (\<forall>q. storage_reach E (fst (fst (handle_install_snapshot H q s)))) \<and>
     (\<forall>s'. works s s' \<longrightarrow> storage_reach E (fst s')))"

lemma layer_uses_storageD:
  assumes "layer_uses_storage E H rf works" "storage_reach E (fst s)"
  shows "storage_reach E (fst (fst (raft_client_write rf r req s)))" "storage_reach E (fst (fst (raft_shutdown rf r s)))"
    "storage_reach E (fst (fst (handle_append_entries H qa s)))" "storage_reach E (fst (fst (handle_vote H qv s)))"
    "storage_reach E (fst (fst (handle_install_snapshot H qi s)))" "works s s' \<Longrightarrow> storage_reach E (fst s')"
  using assms unfolding layer_uses_storage_def by blast+

lemma local_write_reach: "storage_reach E (fst s) \<Longrightarrow> storage_reach E (fst (fst (local_write req s)))"
  using storage_reach.stepped [OF _ storage_step.local_write_step, of E "fst s" req]
  by (cases "apply_request req (fst s)") (simp add: local_write_def)

lemma client_write_reach:
  assumes "layer_uses_storage E H rf works" "storage_reach E (fst s)"
  shows "storage_reach E (fst (fst (client_write rf node req s)))"
proof -
  obtain s' q where run: "client_write rf node req s = (s', q)" by fastforce
  then have "storage_reach E (fst s')"
  proof (cases rule: client_write_cases)
    case (fallback r msg s1)
    have "storage_reach E (fst s1)" using layer_uses_storageD(1) [OF assms, of r req] fallback(2) by simp
    then show ?thesis using local_write_reach [of E s1 req] fallback(4) by (metis fst_conv)
  next
    case local
    then show ?thesis using local_write_reach [OF assms(2), of req] by (metis fst_conv)
  qed (use layer_uses_storageD(1) [OF assms] in \<open>metis fst_conv\<close>)+
  with run show ?thesis by simp
qed

lemma fst_try_then_last: "fst (try_then p (\<lambda>s x. (s, f s x))) = fst p"
  by (cases p; cases "snd p") (auto simp: try_then_def)

lemma write_request_reach:
  assumes "layer_uses_storage E H rf works" "storage_reach E (fst s)"
  shows "storage_reach E (fst (fst (write_request rf app req s)))"
  using client_write_reach [OF assms] local_write_reach [OF assms(2)]
  by (simp add: write_request_def fst_try_then_last split: option.split)

lemma serve_reach:
  assumes "\<And>q. storage_reach E (fst (fst (h q s)))" "storage_reach E (fst s)"
  shows "storage_reach E (fst (fst (serve cq cr h payload s)))"
  using assms by (cases "from_bytes cq payload") (simp_all add: serve_def fst_try_then_last)

lemma task_step_reach:
  assumes "task_step C H rf works p p'" and law: "layer_uses_storage E H rf works" and s: "storage_reach E (fst (proc_node p))"
  shows "storage_reach E (fst (proc_node p'))"
  using assms(1)
proof (cases rule: task_step.cases)
  case (http_put key body)
  then show ?thesis using write_request_reach [OF law s] by (simp add: put_key_def fst_try_then_last)
next
  case (http_delete key)
  then show ?thesis using write_request_reach [OF law s] by (simp add: delete_key_def fst_try_then_last)
next
  case (grpc_append payload)
  then show ?thesis using serve_reach [of E "handle_append_entries H", OF layer_uses_storageD(3) [OF law s] s]
    by (simp add: RaftGrpcServer_append_entries_def)
next
  case (grpc_vote payload)
  then show ?thesis using serve_reach [of E "handle_vote H", OF layer_uses_storageD(4) [OF law s] s]
    by (simp add: RaftGrpcServer_request_vote_def)
next
  case (grpc_install payload)
  then show ?thesis using serve_reach [of E "handle_install_snapshot H", OF layer_uses_storageD(5) [OF law s] s]
    by (simp add: RaftGrpcServer_install_snapshot_def)
next
  case (raft_works s')
  then show ?thesis using layer_uses_storageD(6) [OF law s] by simp
qed (use s in simp_all)


text \<open>
  The order in which things stop. \<open>stopping\<close>: the signal is set, and whichever service was
  started has been told to end.
\<close>

definition stopping :: "('r, 't, 'f, 'm, 'o) process \<Rightarrow> bool" where
  "stopping p \<longleftrightarrow> is_shutting_down (shutdown_signal p) \<and> stop_sent p = (grpc_task p \<noteq> None) \<and> http_aborted p = (http_task p \<noteq> None)"

definition serving_inv :: "('r, 't, 'f, 'm, 'o) process \<Rightarrow> bool" where
  "serving_inv p \<longleftrightarrow>
     (grpc_task p = Some (Ended (Inr ())) \<longrightarrow> stop_sent p) \<and> (http_task p = Some Cancelled \<longrightarrow> http_aborted p) \<and>
     (case main_phase p of
        WaitSignal \<Rightarrow> \<not> is_shutting_down (shutdown_signal p) \<and> \<not> stop_sent p \<and> \<not> http_aborted p
      | JoinHttp \<Rightarrow> stopping p
      | JoinRaft \<Rightarrow> stopping p \<and> http_task p \<noteq> Some Running
      | StopNode \<Rightarrow> stopping p \<and> http_task p \<noteq> Some Running \<and> grpc_task p \<noteq> Some Running
      | Returned (Inl _) \<Rightarrow> \<not> is_shutting_down (shutdown_signal p) \<and> \<not> stop_sent p \<and> \<not> http_aborted p
      | Returned (Inr _) \<Rightarrow> stopping p \<and> http_task p \<noteq> Some Running \<and> grpc_task p \<noteq> Some Running)"

lemma task_step_frame:
  assumes "task_step C H rf works p p'"
  shows "main_phase p' = main_phase p" "shutdown_signal p' = shutdown_signal p" "stop_sent p' = stop_sent p"
    "http_aborted p' = http_aborted p" "(grpc_task p' = None) = (grpc_task p = None)" "(http_task p' = None) = (http_task p = None)"
  using assms by (cases rule: task_step.cases; simp)+

lemma task_step_inv: "task_step C H rf works p p' \<Longrightarrow> serving_inv p \<Longrightarrow> serving_inv p'"
  by (erule task_step.cases; cases "main_phase p"; auto simp: serving_inv_def stopping_def split: sum.splits)

lemma main_step_inv:
  assumes "main_step rf node ctrl_c p = Some p'" "serving_inv p"
  shows "serving_inv p'"
proof (cases "main_phase p")
  case WaitSignal
  then obtain r where r: "ctrl_c = Some r" using assms(1) by (auto simp: main_step_def)
  show ?thesis
    using assms WaitSignal r
    by (cases r) (auto simp: main_step_def serving_inv_def stopping_def stop_services_def is_shutting_down_def ShutdownSignal_shutdown_def)
qed (use assms in \<open>auto simp: main_step_def serving_inv_def stopping_def split: if_splits\<close>)


lemma launch_inv: "launch route empty_router c node s = Some p \<Longrightarrow> serving_inv p \<and> proc_node p = s"
  by (auto simp: launch_def serving_inv_def is_shutting_down_def ShutdownSignal_new_def Let_def split: if_splits)

lemma main_step_reach:
  assumes "main_step rf node ctrl_c p = Some p'" "layer_uses_storage E H rf works" "storage_reach E (fst (proc_node p))"
  shows "storage_reach E (fst (proc_node p'))"
proof -
  have "storage_reach E (fst (fst (RaftNode_shutdown rf node (proc_node p))))"
    using layer_uses_storageD(2) [OF assms(2,3)] assms(3) by (simp add: RaftNode_shutdown_def split: option.split)
  then show ?thesis
    using assms(1,3)
    by (cases "main_phase p"; cases ctrl_c; auto simp: main_step_def stop_services_def split: if_splits sum.splits)
qed

lemma process_step_inv: "process_step C H rf works node p p' \<Longrightarrow> serving_inv p \<Longrightarrow> serving_inv p'"
  by (erule process_step.cases) (auto intro: main_step_inv task_step_inv)

lemma process_step_reach:
  assumes "process_step C H rf works node p p'" "layer_uses_storage E H rf works" "storage_reach E (fst (proc_node p))"
  shows "storage_reach E (fst (proc_node p'))"
  using assms by cases (auto intro: main_step_reach task_step_reach)

lemma main_until_signal_serves:
  assumes "main_until_signal toml args L E rf bind route empty_router w rt = Some (Serving node p)"
  obtains c s where "Config_load toml (so_fs E) (files w) args = Some (Inr c)" "start_up L E rf bind c w rt = Inr (node, s)"
    "launch route empty_router c node s = Some p"
proof -
  obtain loaded where l: "Config_load toml (so_fs E) (files w) args = Some loaded"
    using assms by (auto simp: main_until_signal_def)
  then show thesis
    using assms that by (cases loaded) (auto simp: main_until_signal_def split: sum.splits option.splits prod.splits)
qed


lemma serving_reachable:
  assumes "main_until_signal toml args L E rf bind route empty_router w rt = Some (Serving node p0)"
    and "(process_step C H rf works node)\<^sup>*\<^sup>* p0 p"
  shows "serving_inv p" "layer_uses_storage E H rf works \<Longrightarrow> storage_reach E (fst (proc_node p))"
proof -
  obtain c s where c: "Config_load toml (so_fs E) (files w) args = Some (Inr c)" "start_up L E rf bind c w rt = Inr (node, s)"
    "launch route empty_router c node s = Some p0"
    using assms(1) by (rule main_until_signal_serves)
  note p0 = launch_inv [OF c(3)]
  show "serving_inv p"
    using assms(2) p0 by (induction rule: rtranclp_induct) (auto intro: process_step_inv)
  assume law: "layer_uses_storage E H rf works"
  then have "storage_reach E (fst (proc_node p0))"
    using start_up_node(1) [OF Config_load_Inr [OF c(1)] _ c(2)] p0 by (simp add: layer_uses_storage_def)
  with assms(2) show "storage_reach E (fst (proc_node p))"
    by (induction rule: rtranclp_induct) (auto intro: process_step_reach [OF _ law])
qed

text \<open>
  Claim C25: services stop before the node. In every state the process can reach from a start,
  through any interleaving of \<open>main\<close>, the servers, HTTP connections and OpenRaft's own tasks, the
  storage is a reachable one; the shutdown signal is set exactly from Ctrl+C on; neither server
  runs when \<open>main\<close> shuts the consensus layer down or has returned without an error; and a
  server that ended in order or was cancelled did so after Ctrl+C.
\<close>

theorem services_stop_before_node:
  assumes "main_until_signal toml args L E rf bind route empty_router w rt = Some (Serving node p0)"
    and "layer_uses_storage E H rf works" and "(process_step C H rf works node)\<^sup>*\<^sup>* p0 p"
  shows "storage_reach E (fst (proc_node p)) \<and>
    (is_shutting_down (shutdown_signal p) \<longleftrightarrow> main_phase p \<in> {JoinHttp, JoinRaft, StopNode, Returned (Inr ())}) \<and>
    (main_phase p \<in> {StopNode, Returned (Inr ())} \<longrightarrow> grpc_task p \<noteq> Some Running \<and> http_task p \<noteq> Some Running) \<and>
    (grpc_task p = Some (Ended (Inr ())) \<or> http_task p = Some Cancelled \<longrightarrow> is_shutting_down (shutdown_signal p))"
  using serving_reachable [OF assms(1,3)] assms(2)
  by (cases "main_phase p") (auto simp: serving_inv_def stopping_def split: sum.splits)

text \<open>Steps that are still to come before \<open>main\<close> returns, tasks that have to end included.\<close>

definition remaining :: "('r, 't, 'f, 'm, 'o) process \<Rightarrow> nat" where
  "remaining p =
     (case main_phase p of WaitSignal \<Rightarrow> 4 | JoinHttp \<Rightarrow> 3 | JoinRaft \<Rightarrow> 2 | StopNode \<Rightarrow> 1 | Returned _ \<Rightarrow> 0) +
     (if http_task p = Some Running then 1 else 0) + (if grpc_task p = Some Running then 1 else 0)"

lemma process_step_remaining:
  assumes "process_step C H rf works node p p'"
  shows "remaining p' \<le> remaining p"
  using assms
proof (cases rule: process_step.cases)
  case (by_main ctrl_c)
  then show ?thesis
    by (cases "main_phase p"; cases ctrl_c; auto simp: main_step_def stop_services_def remaining_def split: if_splits sum.splits)
next
  case by_task
  then have "main_phase p' = main_phase p" by (simp add: task_step_frame)
  with by_task(2) show ?thesis by (cases rule: task_step.cases) (simp_all add: remaining_def)
qed

lemma shutdown_progress:
  assumes "serving_inv p" "main_phase p \<in> {JoinHttp, JoinRaft, StopNode}"
  shows "\<exists>p'. process_step C H rf works node p p' \<and> remaining p' < remaining p \<and>
    main_phase p' \<in> {JoinHttp, JoinRaft, StopNode, Returned (Inr ())}"
proof (cases "main_step rf node None p")
  case (Some p')
  then have "process_step C H rf works node p p'" by (rule process_step.by_main)
  with Some assms(2) show ?thesis by (intro exI [of _ p']) (auto simp: main_step_def remaining_def split: if_splits)
next
  case None
  have live: "\<not> returned p" using assms(2) by (auto simp: returned_def)
  show ?thesis
  proof (cases "main_phase p = JoinHttp")
    case True
    with None assms(1) have "http_task p = Some Running" "http_aborted p"
      by (auto simp: main_step_def serving_inv_def stopping_def split: if_splits)
    then show ?thesis using process_step.by_task [OF live task_step.http_cancelled] True
      by (intro exI [of _ "p\<lparr>http_task := Some Cancelled\<rparr>"]) (simp add: remaining_def)
  next
    case False
    with None assms have "main_phase p = JoinRaft" "grpc_task p = Some Running" "stop_sent p"
      by (auto simp: main_step_def serving_inv_def stopping_def split: if_splits)
    then show ?thesis using process_step.by_task [OF live task_step.grpc_stopped]
      by (intro exI [of _ "p\<lparr>grpc_task := Some (Ended (Inr ()))\<rparr>"]) (simp add: remaining_def)
  qed
qed



section \<open>The routes and the start\<close>

text \<open>
  Claim C27: a start that gets as far as launching its services panics exactly when HTTP is
  enabled, as it is by default, if the router is that of axum 0.8; without HTTP it goes on to
  wait for the signal, with the gRPC server running exactly when there is a consensus layer.
\<close>

theorem http_start_panics:
  assumes "axum_rejects_colons route" and "Config_load toml (so_fs E) (files w) args = Some (Inr c)"
    and "start_up L E rf bind c w rt = Inr (node, s)"
  shows "case main_until_signal toml args L E rf bind route empty_router w rt of
      Some Panicked \<Rightarrow> http_enabled (cf_http c)
    | Some (Serving nd p) \<Rightarrow> \<not> http_enabled (cf_http c) \<and> nd = node \<and> main_phase p = WaitSignal \<and> http_task p = None \<and>
        grpc_task p = (if rn_raft node = None then None else Some Running) \<and> proc_node p = s
    | _ \<Rightarrow> False"
proof -
  have "with_raft route empty_router node i port = None" for i port
    using server_construction_panics [OF assms(1)] by blast
  then show ?thesis using assms(2,3) by (cases "rn_raft node") (auto simp: main_until_signal_def launch_def Let_def)
qed

section \<open>A process that runs\<close>

text \<open>
  The start of \<open>Startup\<close> with a router that takes every route, and a node whose consensus layer
  has no leader and rejects every call.
\<close>

definition mute_handler :: "(nat, nat, nat, nat, unit, 's) RaftServiceHandler" where
  "mute_handler = \<lparr>handle_append_entries = (\<lambda>_ s. (s, Inl ''stopped'')), handle_vote = (\<lambda>_ s. (s, Inl ''stopped'')),
     handle_install_snapshot = (\<lambda>_ s. (s, Inl ''stopped''))\<rparr>"

definition sample_main where
  "sample_main route = main_until_signal (\<lambda>_. Inr three_nodes) id_args plain_logs strict_env leaderless (\<lambda>_. Inr ()) route () cfg_world ()"

lemma sample_layer: "layer_uses_storage E mute_handler leaderless (\<lambda>_ _. False)"
  using leaderless_uses_storage [of E] by (simp add: layer_uses_storage_def mute_handler_def leaderless_def)

lemma sample_serving:
  obtains node p where "sample_main (\<lambda>_ _ _. Some) = Some (Serving node p)" "main_phase p = WaitSignal"
    "http_task p = Some Running"
proof -
  obtain node s where run: "start_up plain_logs strict_env leaderless (\<lambda>_. Inr ()) (apply_overrides id_args three_nodes) cfg_world () = Inr (node, s)"
    using sample_start(2) by blast
  have "http_enabled (cf_http (apply_overrides id_args three_nodes))"
    by (simp add: apply_overrides_def id_args_def three_nodes_def Config_default_def)
  moreover have "add_routes (\<lambda>_ _ _. Some) rs rt = Some rt" for rs and rt :: unit
    by (induction rs) auto
  ultimately show thesis
    using run sample_start(1) that
    by (simp add: sample_main_def main_until_signal_def launch_def with_raft_def with_app_state_def Let_def)
qed

theorem http_start_panics_witness: "sample_main (\<lambda>_ _ _ _. None) = Some Panicked"
proof -
  obtain node s where run: "start_up plain_logs strict_env leaderless (\<lambda>_. Inr ()) (apply_overrides id_args three_nodes) cfg_world () = Inr (node, s)"
    using sample_start(2) by blast
  have "http_enabled (cf_http (apply_overrides id_args three_nodes))"
    by (simp add: apply_overrides_def id_args_def three_nodes_def Config_default_def)
  then show ?thesis
    using http_start_panics [OF _ sample_start(1) run, of "\<lambda>_ _ _ _. None" "()"]
    by (simp add: axum_rejects_colons_def sample_main_def split: option.splits main_result.splits)
qed

lemma sample_signalled:
  assumes "main_phase p = WaitSignal"
  shows "(process_step C H rf works node)\<^sup>*\<^sup>* p (stop_services p)" "is_shutting_down (shutdown_signal (stop_services p))"
proof -
  have "process_step C H rf works node p (stop_services p)"
    using assms by (intro process_step.by_main [of _ _ "Some (Inr ())"]) (simp add: main_step_def)
  then show "(process_step C H rf works node)\<^sup>*\<^sup>* p (stop_services p)" by blast
qed (simp add: stop_services_def is_shutting_down_def ShutdownSignal_shutdown_def)


theorem services_stop_before_node_witness:
  "\<exists>node p. sample_main (\<lambda>_ _ _. Some) = Some (Serving node p) \<and> storage_reach strict_env (fst (proc_node p)) \<and>
     \<not> is_shutting_down (shutdown_signal p)"
proof -
  obtain node p where p: "sample_main (\<lambda>_ _ _. Some) = Some (Serving node p)" "main_phase p = WaitSignal"
    by (rule sample_serving)
  show ?thesis
    using p services_stop_before_node [OF p(1) [unfolded sample_main_def] sample_layer, of nat_codecs p] by auto
qed

end
