(* ===== verification/Http_Api.thy ===== *)
theory Http_Api
  imports Serving
begin

text \<open>
  The HTTP API as its clients see it: the handlers of \<open>src/api/handlers.rs\<close> behind the routes of
  \<open>src/api/server.rs\<close>, each with the status code and the body of its response, the serving of
  the router, and the layers of \<open>src/api/middleware.rs\<close>, which are descriptions that tower runs.
\<close>

section \<open>Responses\<close>

datatype http_body =
    ValueBody string
  | MessageBody string
  | ErrorBody string
  | HealthBody HealthResponse
  | ReadyBody ReadyResponse
  | StatusBody StatusResponse
  | TextBody string

text \<open>\<open>Result<Json<T>, AppError>\<close> as a response: the value with code 200, an error by its \<open>into_response\<close>.\<close>

definition respond :: "('a \<Rightarrow> http_body) \<Rightarrow> AppError + 'a \<Rightarrow> u16 \<times> http_body" where
  "respond body r = (case r of
     Inl e \<Rightarrow> (case into_response e of (code, msg) \<Rightarrow> (code, ErrorBody msg))
   | Inr v \<Rightarrow> (200, body v))"

definition metrics_handler :: "('h \<Rightarrow> string) \<Rightarrow> 'h option \<Rightarrow> string" where
  "metrics_handler render handle = render_metrics render handle"

text \<open>
  The handler of an endpoint. Its arguments are what the extractors yield, the key and the
  body, and what the readiness check measures.
\<close>

definition handle_endpoint ::
  "(bytes \<Rightarrow> string) \<Rightarrow> ('h \<Rightarrow> string) \<Rightarrow> 'h option \<Rightarrow> ('r, 't, 'f, 'm, 'o) openraft \<Rightarrow> 'r AppState \<Rightarrow> endpoint \<Rightarrow>
   string \<Rightarrow> bytes \<Rightarrow> u64 \<Rightarrow> u64 \<Rightarrow> ('t, 'f, 'm, 'o) node_state \<Rightarrow> ('t, 'f, 'm, 'o) node_state \<times> u16 \<times> http_body" where
  "handle_endpoint b64 render handle rf app ep key body latency now_ms s =
     (case ep of
        GetKey \<Rightarrow> (s, respond ValueBody (get_key b64 key s))
      | PutKey \<Rightarrow> map_prod id (respond MessageBody) (put_key rf app key body s)
      | DeleteKey \<Rightarrow> map_prod id (respond MessageBody) (delete_key rf app key s)
      | HealthCheck \<Rightarrow> (s, 200, HealthBody (health_check app))
      | ReadyCheck \<Rightarrow> (s, 200, ReadyBody (ready_check app latency now_ms s))
      | StatusOf \<Rightarrow> (s, 200, StatusBody (status_of rf app s))
      | MetricsText \<Rightarrow> (s, 200, TextBody (metrics_handler render handle)))"

section \<open>Serving and layers\<close>

text \<open>\<open>bind\<close> opens the listener and \<open>axum_serve\<close> serves a router on it until it fails.\<close>

definition HttpServer_serve ::
  "(string \<Rightarrow> string + 'l) \<Rightarrow> ('l \<Rightarrow> 'rt \<Rightarrow> string + unit) \<Rightarrow> ('rt, 'r) HttpServer \<Rightarrow> string + unit" where
  "HttpServer_serve bind axum_serve server =
     and_then (bind (hs_addr server)) (\<lambda>listener.
     map_err (\<lambda>e. ''HTTP server error: '' @ e) (axum_serve listener (hs_app server)))"

text \<open>Durations are milliseconds; a service builder is the list of its layers, outermost first.\<close>

datatype layer = TimeoutLayer nat | RateLimitLayer u64 nat

definition timeout_layer :: "nat \<Rightarrow> layer" where
  "timeout_layer dur = TimeoutLayer dur"

definition rate_limit_layer :: "u64 \<Rightarrow> nat \<Rightarrow> layer" where
  "rate_limit_layer max_requests per = RateLimitLayer max_requests per"

definition default_service_builder :: "string \<Rightarrow> layer list" where
  "default_service_builder node_id = [TimeoutLayer (15 * 1000)]"

section \<open>The contract of the endpoints\<close>

text \<open>The body that an endpoint sends with code 200.\<close>

fun body_of :: "endpoint \<Rightarrow> http_body \<Rightarrow> bool" where
  "body_of GetKey (ValueBody _) = True"
| "body_of PutKey (MessageBody _) = True"
| "body_of DeleteKey (MessageBody _) = True"
| "body_of HealthCheck (HealthBody _) = True"
| "body_of ReadyCheck (ReadyBody _) = True"
| "body_of StatusOf (StatusBody _) = True"
| "body_of MetricsText (TextBody _) = True"
| "body_of _ _ = False"

fun may_fail :: "endpoint \<Rightarrow> u16 \<Rightarrow> bool" where
  "may_fail GetKey code = (code = 404)"
| "may_fail PutKey code = (code = 500)"
| "may_fail DeleteKey code = (code = 500)"
| "may_fail _ code = False"

lemma write_error_code:
  "write_request rf app req s = (s', Inl e) \<Longrightarrow> fst (into_response e) = 500"
  using write_request_error by fastforce

lemma respond_write:
  assumes "try_then (write_request rf app req s) (\<lambda>s _. (s, Inr msg)) = (s', r)"
  shows "respond MessageBody r = (200, MessageBody msg) \<or> (\<exists>e. respond MessageBody r = (500, ErrorBody e))"
proof (cases r)
  case (Inl e)
  then have "write_request rf app req s = (s', Inl e)" using assms by (simp add: try_then_Inl)
  from write_error_code [OF this] show ?thesis by (cases e) (auto simp: respond_def Inl)
next
  case (Inr v)
  then show ?thesis using assms by (auto simp: respond_def try_then_Inr)
qed

text \<open>
  Claim C24: what the endpoints promise. Every route of the table answers with code 200 and the
  kind of body that belongs to its endpoint, or with an error body under the one code its
  endpoint may fail with: 404 for reading a key, exactly when the state machine does not hold
  it, and 500 for writing or deleting one. A value that is read is the stored one, encoded; and
  no GET route changes the node.
\<close>

theorem endpoint_contract:
  assumes "(path, meth, ep) \<in> set routes"
    and run: "handle_endpoint b64 render handle rf app ep key body latency now_ms s = (s', code, sent)"
  shows "(code = 200 \<and> body_of ep sent \<or> may_fail ep code \<and> (\<exists>e. sent = ErrorBody e)) \<and>
    (code = 404 \<longleftrightarrow> ep = GetKey \<and> state_machine (fst s) key = None) \<and>
    (ep = GetKey \<and> code = 200 \<longrightarrow> (\<exists>v. state_machine (fst s) key = Some v \<and> sent = ValueBody (b64 v))) \<and>
    (meth = GET \<longrightarrow> s' = s)"
proof (cases "meth = GET")
  case True
  then have "ep \<in> {GetKey, HealthCheck, ReadyCheck, StatusOf, MetricsText}" using assms(1) by (auto simp: routes_def)
  then show ?thesis
    using run by (auto simp: handle_endpoint_def respond_def get_key_def Storage_read_def split: option.splits)
next
  case False
  then have "ep = PutKey \<or> ep = DeleteKey" using assms(1) by (auto simp: routes_def)
  then obtain req msg r where w: "try_then (write_request rf app req s) (\<lambda>s _. (s, Inr msg)) = (s', r)" "respond MessageBody r = (code, sent)"
    and ep: "ep = PutKey \<or> ep = DeleteKey"
    using run by (auto simp: handle_endpoint_def put_key_def delete_key_def map_prod_def split: prod.splits)
  have "code = 200 \<and> sent = MessageBody msg \<or> code = 500 \<and> (\<exists>e. sent = ErrorBody e)"
    using respond_write [OF w(1)] w(2) by auto
  then show ?thesis using False ep by auto
qed

theorem endpoint_contract_witness:
  "\<exists>sent. handle_endpoint of_bytes id None leaderless leaderless_app GetKey ''absent'' [] 0 0 (sample_follower, ()) =
     ((sample_follower, ()), 404, sent)"
proof -
  obtain s' code sent where run: "handle_endpoint of_bytes id None leaderless leaderless_app GetKey ''absent'' [] 0 0 (sample_follower, ()) = (s', code, sent)"
    using prod_cases3 by blast
  have "(''/kv/:key'', GET, GetKey) \<in> set routes" by (simp add: routes_def)
  from endpoint_contract [OF this run] run show ?thesis by (auto simp: sample_node_def)
qed

end
