(* ===== verification/Proto.thy ===== *)
theory Proto
  imports Network
begin

text \<open>
  \<open>src/proto/raft.rs\<close>: the code that \<open>tonic-build\<close> generates for the Raft service, between
  the client of \<open>network/client.rs\<close> and the server of \<open>network/server.rs\<close>. The generated
  client gives each call its path, the generated server leads a path to the method of the
  service, and both hand their size limits to tonic. tonic and the transport below it are the
  parameter \<open>tonic\<close>; \<open>stub_grpc\<close> puts the parts together into the transport that the clients
  of \<open>Network\<close> use.
\<close>

section \<open>Messages\<close>

record RaftMessage =
  msg_payload :: bytes

record http_request =
  uri_path :: string
  req_body :: bytes

record http_response =
  resp_headers :: "(string \<times> string) list"
  resp_body :: bytes

type_synonym 's service = "http_request \<Rightarrow> 's \<Rightarrow> 's \<times> http_response"

text \<open>
  tonic: the length-prefixed encoding of a message, \<open>ready\<close> and \<open>unary\<close> of the client side,
  which take the compression and the limits for decoding and encoding, the service at the other end, the path and
  the message, and \<open>unary\<close> of the server side, which decodes the body, calls the method and
  encodes its result. Errors of the client side are their texts. \<open>timed\<close> is \<open>tokio::time::timeout\<close>,
  with \<open>None\<close> when the time elapses first.
\<close>

record 's tonic =
  prost_encode :: "RaftMessage \<Rightarrow> bytes"
  inner_ready :: "'s service \<Rightarrow> 's \<Rightarrow> 's \<times> (string + unit)"
  client_unary :: "string set \<Rightarrow> string option \<Rightarrow> nat option \<Rightarrow> nat option \<Rightarrow> 's service \<Rightarrow> string \<Rightarrow> RaftMessage \<Rightarrow> 's \<Rightarrow> 's \<times> (string + RaftMessage)"
  server_unary :: "string set \<Rightarrow> string set \<Rightarrow> nat option \<Rightarrow> nat option \<Rightarrow> (RaftMessage \<Rightarrow> 's \<Rightarrow> 's \<times> (grpc_status + RaftMessage)) \<Rightarrow> 's service"
  timed :: "nat \<Rightarrow> ('s \<Rightarrow> 's \<times> (string + RaftMessage)) \<Rightarrow> 's \<Rightarrow> 's \<times> (string + RaftMessage) option"

section \<open>The generated client (raft_service_client)\<close>

record 's RaftServiceClient =
  sc_inner :: "'s service"
  sc_accept :: "string set"
  sc_send :: "string option"
  sc_max_decoding :: "nat option"
  sc_max_encoding :: "nat option"

definition RaftServiceClient_new :: "'s service \<Rightarrow> 's RaftServiceClient" where
  "RaftServiceClient_new inner = \<lparr>sc_inner = inner, sc_accept = {}, sc_send = None, sc_max_decoding = None, sc_max_encoding = None\<rparr>"

text \<open>Connecting, a fixed origin and an interceptor are tonic's; the generated code makes a client of what they return.\<close>

definition RaftServiceClient_connect ::
  "('d \<Rightarrow> 's \<Rightarrow> 's \<times> (string + 's service)) \<Rightarrow> 'd \<Rightarrow> 's \<Rightarrow> 's \<times> (string + 's RaftServiceClient)" where
  "RaftServiceClient_connect endpoint_connect dst s =
     try_then (endpoint_connect dst s) (\<lambda>s conn. (s, Inr (RaftServiceClient_new conn)))"

definition RaftServiceClient_with_origin :: "('s service \<Rightarrow> 'u \<Rightarrow> 's service) \<Rightarrow> 's service \<Rightarrow> 'u \<Rightarrow> 's RaftServiceClient" where
  "RaftServiceClient_with_origin at_origin inner origin = RaftServiceClient_new (at_origin inner origin)"

definition RaftServiceClient_with_interceptor :: "('s service \<Rightarrow> 'i \<Rightarrow> 's service) \<Rightarrow> 's service \<Rightarrow> 'i \<Rightarrow> 's RaftServiceClient" where
  "RaftServiceClient_with_interceptor intercept inner interceptor = RaftServiceClient_new (intercept inner interceptor)"

text \<open>Compression: one encoding for what is sent, the enabled ones for what is accepted.\<close>

definition client_send_compressed :: "string \<Rightarrow> 's RaftServiceClient \<Rightarrow> 's RaftServiceClient" where
  "client_send_compressed encoding c = c\<lparr>sc_send := Some encoding\<rparr>"

definition client_accept_compressed :: "string \<Rightarrow> 's RaftServiceClient \<Rightarrow> 's RaftServiceClient" where
  "client_accept_compressed encoding c = c\<lparr>sc_accept := insert encoding (sc_accept c)\<rparr>"

definition client_max_decoding_message_size :: "nat \<Rightarrow> 's RaftServiceClient \<Rightarrow> 's RaftServiceClient" where
  "client_max_decoding_message_size limit c = c\<lparr>sc_max_decoding := Some limit\<rparr>"

definition client_max_encoding_message_size :: "nat \<Rightarrow> 's RaftServiceClient \<Rightarrow> 's RaftServiceClient" where
  "client_max_encoding_message_size limit c = c\<lparr>sc_max_encoding := Some limit\<rparr>"

text \<open>The body that the three methods share, for the path of each.\<close>

definition client_call :: "'s tonic \<Rightarrow> string \<Rightarrow> 's RaftServiceClient \<Rightarrow> RaftMessage \<Rightarrow> 's \<Rightarrow> 's \<times> (string + RaftMessage)" where
  "client_call T path c request s =
     try_then (map_err_st (\<lambda>e. ''Service was not ready: '' @ e) (inner_ready T (sc_inner c) s)) (\<lambda>s _.
     client_unary T (sc_accept c) (sc_send c) (sc_max_decoding c) (sc_max_encoding c) (sc_inner c) path request s)"

definition RaftServiceClient_append_entries ::
  "'s tonic \<Rightarrow> 's RaftServiceClient \<Rightarrow> RaftMessage \<Rightarrow> 's \<Rightarrow> 's \<times> (string + RaftMessage)" where
  "RaftServiceClient_append_entries T c request s = client_call T ''/raft.RaftService/AppendEntries'' c request s"

definition RaftServiceClient_request_vote ::
  "'s tonic \<Rightarrow> 's RaftServiceClient \<Rightarrow> RaftMessage \<Rightarrow> 's \<Rightarrow> 's \<times> (string + RaftMessage)" where
  "RaftServiceClient_request_vote T c request s = client_call T ''/raft.RaftService/RequestVote'' c request s"

definition RaftServiceClient_install_snapshot ::
  "'s tonic \<Rightarrow> 's RaftServiceClient \<Rightarrow> RaftMessage \<Rightarrow> 's \<Rightarrow> 's \<times> (string + RaftMessage)" where
  "RaftServiceClient_install_snapshot T c request s = client_call T ''/raft.RaftService/InstallSnapshot'' c request s"

section \<open>The generated server (raft_service_server)\<close>

text \<open>The trait \<open>RaftService\<close>, as the record of its methods.\<close>

record 's RaftService =
  svc_append_entries :: "RaftMessage \<Rightarrow> 's \<Rightarrow> 's \<times> (grpc_status + RaftMessage)"
  svc_request_vote :: "RaftMessage \<Rightarrow> 's \<Rightarrow> 's \<times> (grpc_status + RaftMessage)"
  svc_install_snapshot :: "RaftMessage \<Rightarrow> 's \<Rightarrow> 's \<times> (grpc_status + RaftMessage)"

record 's RaftServiceServer =
  ss_inner :: "'s RaftService"
  ss_accept :: "string set"
  ss_send :: "string set"
  ss_max_decoding :: "nat option"
  ss_max_encoding :: "nat option"

definition RaftServiceServer_new :: "'s RaftService \<Rightarrow> 's RaftServiceServer" where
  "RaftServiceServer_new inner = \<lparr>ss_inner = inner, ss_accept = {}, ss_send = {}, ss_max_decoding = None, ss_max_encoding = None\<rparr>"

definition RaftServiceServer_with_interceptor ::
  "('s RaftServiceServer \<Rightarrow> 'i \<Rightarrow> 'w) \<Rightarrow> 's RaftService \<Rightarrow> 'i \<Rightarrow> 'w" where
  "RaftServiceServer_with_interceptor intercept inner interceptor = intercept (RaftServiceServer_new inner) interceptor"

definition server_accept_compressed :: "string \<Rightarrow> 's RaftServiceServer \<Rightarrow> 's RaftServiceServer" where
  "server_accept_compressed encoding v = v\<lparr>ss_accept := insert encoding (ss_accept v)\<rparr>"

definition server_send_compressed :: "string \<Rightarrow> 's RaftServiceServer \<Rightarrow> 's RaftServiceServer" where
  "server_send_compressed encoding v = v\<lparr>ss_send := insert encoding (ss_send v)\<rparr>"

definition server_max_decoding_message_size :: "nat \<Rightarrow> 's RaftServiceServer \<Rightarrow> 's RaftServiceServer" where
  "server_max_decoding_message_size limit v = v\<lparr>ss_max_decoding := Some limit\<rparr>"

definition server_max_encoding_message_size :: "nat \<Rightarrow> 's RaftServiceServer \<Rightarrow> 's RaftServiceServer" where
  "server_max_encoding_message_size limit v = v\<lparr>ss_max_encoding := Some limit\<rparr>"

text \<open>\<open>Code::Unimplemented\<close> is 12.\<close>

definition RaftServiceServer_call :: "'s tonic \<Rightarrow> 's RaftServiceServer \<Rightarrow> 's service" where
  "RaftServiceServer_call T v req s =
     (if uri_path req = ''/raft.RaftService/AppendEntries''
      then server_unary T (ss_accept v) (ss_send v) (ss_max_decoding v) (ss_max_encoding v) (svc_append_entries (ss_inner v)) req s
      else if uri_path req = ''/raft.RaftService/RequestVote''
      then server_unary T (ss_accept v) (ss_send v) (ss_max_decoding v) (ss_max_encoding v) (svc_request_vote (ss_inner v)) req s
      else if uri_path req = ''/raft.RaftService/InstallSnapshot''
      then server_unary T (ss_accept v) (ss_send v) (ss_max_decoding v) (ss_max_encoding v) (svc_install_snapshot (ss_inner v)) req s
      else (s, \<lparr>resp_headers = [(''grpc-status'', ''12''), (''content-type'', ''application/grpc'')], resp_body = []\<rparr>))"

definition SERVICE_NAME :: string where
  "SERVICE_NAME = ''raft.RaftService''"

text \<open>Paths below the name of the service are the only ones it serves; any other leaves the node alone.\<close>

lemma other_service_unimplemented:
  assumes "\<not> starts_with (uri_path req) (''/'' @ SERVICE_NAME @ ''/'')"
  shows "fst (RaftServiceServer_call T v req s) = s \<and>
    map_of (resp_headers (snd (RaftServiceServer_call T v req s))) ''grpc-status'' = Some ''12''"
proof -
  have "starts_with p (''/'' @ SERVICE_NAME @ ''/'')"
    if "p \<in> {''/raft.RaftService/AppendEntries'', ''/raft.RaftService/RequestVote'', ''/raft.RaftService/InstallSnapshot''}" for p
    using that by (auto simp: SERVICE_NAME_def starts_with_def)
  with assms show ?thesis by (auto simp: RaftServiceServer_call_def)
qed

section \<open>The two ends together\<close>

definition to_message :: "bytes \<Rightarrow> RaftMessage" where
  "to_message payload = \<lparr>msg_payload = payload\<rparr>"

text \<open>\<open>RaftGrpcServer\<close> as a \<open>RaftService\<close>, and the service that \<open>start_server_with_shutdown\<close> adds to the server.\<close>

definition raft_service ::
  "('aq, 'ar, 'vq, 'vr, 'm) rpc_codecs \<Rightarrow> ('aq, 'ar, 'vq, 'vr, 'm, 's) RaftServiceHandler \<Rightarrow> 's RaftService" where
  "raft_service C H = \<lparr>
     svc_append_entries = (\<lambda>m s. map_prod id (map_sum id to_message) (RaftGrpcServer_append_entries C H (msg_payload m) s)),
     svc_request_vote = (\<lambda>m s. map_prod id (map_sum id to_message) (RaftGrpcServer_request_vote C H (msg_payload m) s)),
     svc_install_snapshot = (\<lambda>m s. map_prod id (map_sum id to_message) (RaftGrpcServer_install_snapshot C H (msg_payload m) s))\<rparr>"

definition served_service ::
  "'s tonic \<Rightarrow> ('aq, 'ar, 'vq, 'vr, 'm) rpc_codecs \<Rightarrow> ('aq, 'ar, 'vq, 'vr, 'm, 's) RaftServiceHandler \<Rightarrow> ServerConfig \<Rightarrow> 's service" where
  "served_service T C H cfg = RaftServiceServer_call T
     (server_max_encoding_message_size (server_max_message_size cfg)
       (server_max_decoding_message_size (server_max_message_size cfg) (RaftServiceServer_new (raft_service C H))))"

text \<open>The client that \<open>RaftGrpcClient::connect\<close> makes for a channel.\<close>

definition stub_client :: "'s service \<Rightarrow> nat \<Rightarrow> 's RaftServiceClient" where
  "stub_client channel limit =
     client_max_encoding_message_size limit (client_max_decoding_message_size limit (RaftServiceClient_new channel))"

definition timed_call ::
  "'s tonic \<Rightarrow> ('s RaftServiceClient \<Rightarrow> RaftMessage \<Rightarrow> 's \<Rightarrow> 's \<times> (string + RaftMessage)) \<Rightarrow>
   's service \<Rightarrow> nat \<Rightarrow> nat \<Rightarrow> bytes \<Rightarrow> 's \<Rightarrow> 's \<times> rpc_outcome" where
  "timed_call T call channel timeout limit payload s =
     (case timed T timeout (call (stub_client channel limit) (to_message payload)) s of
        (s, None) \<Rightarrow> (s, Elapsed)
      | (s, Some (Inl e)) \<Rightarrow> (s, Failure e)
      | (s, Some (Inr resp)) \<Rightarrow> (s, Reply (msg_payload resp)))"

text \<open>The transport of \<open>Network\<close>, given how an address is parsed and connected to.\<close>

definition stub_grpc ::
  "'s tonic \<Rightarrow> (string \<Rightarrow> string + unit) \<Rightarrow> (string \<Rightarrow> nat \<Rightarrow> 's \<Rightarrow> 's \<times> (string + 's service)) \<Rightarrow> ('s service, 's) grpc" where
  "stub_grpc T parse connect = \<lparr>from_shared = parse, channel_connect = connect,
     call_append_entries = timed_call T (RaftServiceClient_append_entries T),
     call_request_vote = timed_call T (RaftServiceClient_request_vote T),
     call_install_snapshot = timed_call T (RaftServiceClient_install_snapshot T)\<rparr>"


section \<open>What tonic documents\<close>

text \<open>
  A message may not be longer than the limit; without one, 4 MiB is the limit for decoding and
  there is none for encoding. A unary call of a path that the service leads to a method runs
  the method once on the message and returns its message or status; a request over a limit does
  not reach the method, an answer over a limit is lost after the method has run. A response
  with status 12 is an error. This is for calls without compression, the only ones here.
\<close>

definition encoding_ok :: "nat option \<Rightarrow> bytes \<Rightarrow> bool" where
  "encoding_ok limit bs = (case limit of None \<Rightarrow> True | Some n \<Rightarrow> length bs \<le> n)"

definition decoding_ok :: "nat option \<Rightarrow> bytes \<Rightarrow> bool" where
  "decoding_ok limit bs = (length bs \<le> (case limit of None \<Rightarrow> 4 * 1024 * 1024 | Some n \<Rightarrow> n))"

abbreviation may_encode :: "'s tonic \<Rightarrow> nat option \<Rightarrow> RaftMessage \<Rightarrow> bool" where
  "may_encode T limit m \<equiv> encoding_ok limit (prost_encode T m)"

abbreviation may_decode :: "'s tonic \<Rightarrow> nat option \<Rightarrow> RaftMessage \<Rightarrow> bool" where
  "may_decode T limit m \<equiv> decoding_ok limit (prost_encode T m)"

definition tonic_ok :: "'s tonic \<Rightarrow> (grpc_status \<Rightarrow> string) \<Rightarrow> bool" where
  "tonic_ok T shown \<longleftrightarrow>
     (\<forall>cd ce sd se svc path m f s. (\<forall>req s. uri_path req = path \<longrightarrow> svc req s = server_unary T {} {} sd se f req s) \<longrightarrow>
        (if may_encode T ce m \<and> may_decode T sd m
         then (case f m s of
             (s', Inl st) \<Rightarrow> client_unary T {} None cd ce svc path m s = (s', Inl (shown st))
           | (s', Inr m') \<Rightarrow>
               if may_encode T se m' \<and> may_decode T cd m' then client_unary T {} None cd ce svc path m s = (s', Inr m')
               else (\<exists>e. client_unary T {} None cd ce svc path m s = (s', Inl e)))
         else (\<exists>e. client_unary T {} None cd ce svc path m s = (s, Inl e)))) \<and>
     (\<forall>cd ce svc path m s s' resp. (\<forall>req. uri_path req = path \<longrightarrow> svc req s = (s', resp)) \<longrightarrow>
        map_of (resp_headers resp) ''grpc-status'' = Some ''12'' \<longrightarrow> may_encode T ce m \<longrightarrow>
        (\<exists>e. client_unary T {} None cd ce svc path m s = (s', Inl e)))"

lemma tonic_ok_unary:
  assumes "tonic_ok T shown" "\<And>req s. uri_path req = path \<Longrightarrow> svc req s = server_unary T {} {} sd se f req s"
  shows "if may_encode T ce m \<and> may_decode T sd m
         then (case f m s of
             (s', Inl st) \<Rightarrow> client_unary T {} None cd ce svc path m s = (s', Inl (shown st))
           | (s', Inr m') \<Rightarrow>
               if may_encode T se m' \<and> may_decode T cd m' then client_unary T {} None cd ce svc path m s = (s', Inr m')
               else (\<exists>e. client_unary T {} None cd ce svc path m s = (s', Inl e)))
         else (\<exists>e. client_unary T {} None cd ce svc path m s = (s, Inl e))"
  using assms unfolding tonic_ok_def by blast

text \<open>The channel is ready and no call takes longer than its timeout.\<close>

definition undisturbed :: "'s tonic \<Rightarrow> 's service \<Rightarrow> bool" where
  "undisturbed T svc \<longleftrightarrow> (\<forall>s. inner_ready T svc s = (s, Inr ())) \<and> (\<forall>d f s. timed T d f s = (fst (f s), Some (snd (f s))))"

text \<open>A payload that fits both ends.\<close>

definition fits :: "'s tonic \<Rightarrow> nat \<Rightarrow> ServerConfig \<Rightarrow> bytes \<Rightarrow> bool" where
  "fits T limit cfg payload \<longleftrightarrow> length (prost_encode T (to_message payload)) \<le> min limit (server_max_message_size cfg)"

lemma limits_simps [simp]:
  "encoding_ok (Some n) bs \<longleftrightarrow> length bs \<le> n" "decoding_ok (Some n) bs \<longleftrightarrow> length bs \<le> n"
  by (simp_all add: encoding_ok_def decoding_ok_def)

lemma stub_client_simps [simp]:
  "sc_inner (stub_client ch n) = ch" "sc_accept (stub_client ch n) = {}" "sc_send (stub_client ch n) = None"
  "sc_max_decoding (stub_client ch n) = Some n" "sc_max_encoding (stub_client ch n) = Some n"
  by (simp_all add: stub_client_def client_max_encoding_message_size_def client_max_decoding_message_size_def RaftServiceClient_new_def)

lemma msg_payload_to_message [simp]: "msg_payload (to_message b) = b"
  by (simp add: to_message_def)

text \<open>One call of the client over the service of a server, for whichever of the three methods.\<close>

lemma timed_call_outcome:
  assumes T: "tonic_ok T shown" and svc: "undisturbed T svc"
    and routed: "\<And>req s. uri_path req = path \<Longrightarrow> svc req s =
      server_unary T {} {} (Some (server_max_message_size cfg)) (Some (server_max_message_size cfg))
        (\<lambda>m s. map_prod id (map_sum id to_message) (serve cq cr h (msg_payload m) s)) req s"
  obtains (unsent) e where "\<not> fits T n cfg p" "timed_call T (client_call T path) svc d n p s = (s, Failure e)"
  | (status) s' st where "fits T n cfg p" "serve cq cr h p s = (s', Inl st)"
      "timed_call T (client_call T path) svc d n p s = (s', Failure (shown st))"
  | (reply) s' b where "fits T n cfg p" "serve cq cr h p s = (s', Inr b)" "fits T n cfg b"
      "timed_call T (client_call T path) svc d n p s = (s', Reply b)"
  | (lost) s' b e where "fits T n cfg p" "serve cq cr h p s = (s', Inr b)" "\<not> fits T n cfg b"
      "timed_call T (client_call T path) svc d n p s = (s', Failure e)"
proof -
  let ?f = "\<lambda>m s. map_prod id (map_sum id to_message) (serve cq cr h (msg_payload m) s)"
  let ?u = "client_unary T {} None (Some n) (Some n) svc path (to_message p) s"
  have call: "timed_call T (client_call T path) svc d n p s =
      (case ?u of (s, Inl e) \<Rightarrow> (s, Failure e) | (s, Inr resp) \<Rightarrow> (s, Reply (msg_payload resp)))"
    using svc by (simp add: timed_call_def client_call_def undisturbed_def split: prod.splits sum.splits)
  note law = tonic_ok_unary [where path = path and ce = "Some n" and cd = "Some n" and m = "to_message p" and s = s, OF T routed]
  obtain s' q where q: "serve cq cr h p s = (s', q)" by fastforce
  show thesis
  proof (cases "fits T n cfg p")
    case False
    then obtain e where "?u = (s, Inl e)" using law by (auto simp: fits_def)
    with False call show thesis by (intro unsent) simp_all
  next
    case True
    show thesis
    proof (cases q)
      case (Inl st)
      then have "?u = (s', Inl (shown st))" using law True q by (simp add: fits_def)
      with True q Inl call show thesis by (intro status) simp_all
    next
      case (Inr b)
      show thesis
      proof (cases "fits T n cfg b")
        case fb: True
        then have "?u = (s', Inr (to_message b))" using law True q Inr by (simp add: fits_def)
        with True fb q Inr call show thesis by (intro reply) simp_all
      next
        case fb: False
        then obtain e where "?u = (s', Inl e)" using law True q Inr by (auto simp: fits_def)
        with True fb q Inr call show thesis by (intro lost) simp_all
      qed
    qed
  qed
qed


text \<open>
  What a remote call promises with the generated code in between: a request that does not fit is
  never seen by the node; one that fits and is answered within the limits runs once and its
  answer arrives unchanged; if the answers are too large, the node runs the request once per
  attempt and the caller gets an error.
\<close>

definition delivers ::
  "(bytes \<Rightarrow> bool) \<Rightarrow> nat \<Rightarrow> ('q \<Rightarrow> 's \<Rightarrow> 's \<times> (RaftError + 'r)) \<Rightarrow> 'q codec \<Rightarrow> 'r codec \<Rightarrow>
   ('q \<Rightarrow> 's \<Rightarrow> 's \<times> (string + 'r)) \<Rightarrow> bool" where
  "delivers small maxr request cq cr h \<longleftrightarrow> (\<forall>q p s. to_stdvec cq q = Inr p \<longrightarrow>
     (\<not> small p \<longrightarrow> fst (request q s) = s \<and> isl (snd (request q s))) \<and>
     (\<forall>s' r b. small p \<longrightarrow> h q s = (s', Inr r) \<longrightarrow> to_stdvec cr r = Inr b \<longrightarrow> small b \<longrightarrow> request q s = (s', Inr r)) \<and>
     (\<forall>g r b. small p \<longrightarrow> (\<forall>s. h q s = (g s, Inr r)) \<longrightarrow> to_stdvec cr r = Inr b \<longrightarrow> \<not> small b \<longrightarrow>
        fst (request q s) = (g ^^ Suc maxr) s \<and> isl (snd (request q s))))"

lemma delivers_answered:
  "\<lbrakk>delivers small maxr request cq cr h; to_stdvec cq q = Inr p; small p; h q s = (s', Inr r); to_stdvec cr r = Inr b; small b\<rbrakk> \<Longrightarrow>
   request q s = (s', Inr r)"
  unfolding delivers_def by blast

lemma stub_delivers:
  assumes rc: "remote_call request cq cr (timed_call T (client_call T path) svc d n) err maxr"
    and T: "tonic_ok T shown" "undisturbed T svc"
    and routed: "\<And>req s. uri_path req = path \<Longrightarrow> svc req s =
      server_unary T {} {} (Some (server_max_message_size cfg)) (Some (server_max_message_size cfg))
        (\<lambda>m s. map_prod id (map_sum id to_message) (serve cq cr h (msg_payload m) s)) req s"
    and codecs: "codec_ok cq" "codec_ok cr"
  shows "delivers (fits T n cfg) maxr request cq cr h"
  unfolding delivers_def
proof (intro allI impI conjI)
  fix q p s
  let ?call = "timed_call T (client_call T path) svc d n p"
  assume p: "to_stdvec cq q = Inr p"
  have q: "from_bytes cq p = Inr q" using codecs(1) p by (rule codec_okD)
  note outcome = timed_call_outcome [where path = path and n = n and p = p and d = d, OF T routed]
  show "fst (request q s) = s" "isl (snd (request q s))" if "\<not> fits T n cfg p"
  proof -
    have "fst (?call s) = id s \<and> unanswered (snd (?call s))" for s
      using that by (cases rule: outcome [of s]) (auto simp: unanswered_def)
    then show "fst (request q s) = s" "isl (snd (request q s))"
      using remote_call.never_answered [OF rc p, of id s] by simp_all
  qed
  show "request q s = (s', Inr r)"
    if "fits T n cfg p" "h q s = (s', Inr r)" "to_stdvec cr r = Inr b" "fits T n cfg b" for s' r b
  proof -
    have "serve cq cr h p s = (s', Inr b)" using q that by (simp add: serve_def)
    then have "?call s = (s', Reply b)" using that by (cases rule: outcome [of s]) auto
    then show ?thesis
      using \<open>serve cq cr h p s = (s', Inr b)\<close> that
      by (intro remote_call.served [OF rc codecs p, where handler = h and b = b]) simp_all
  qed
  show "fst (request q s) = (g ^^ Suc maxr) s" "isl (snd (request q s))"
    if "fits T n cfg p" "\<forall>s. h q s = (g s, Inr r)" "to_stdvec cr r = Inr b" "\<not> fits T n cfg b" for g r b
  proof -
    have "serve cq cr h p s = (g s, Inr b)" for s using q that by (simp add: serve_def)
    then have "fst (?call s) = g s \<and> unanswered (snd (?call s))" for s
      using that by (cases rule: outcome [of s]) (auto simp: unanswered_def)
    then show "fst (request q s) = (g ^^ Suc maxr) s" "isl (snd (request q s))"
      using remote_call.never_answered [OF rc p, of g s] by simp_all
  qed
qed

text \<open>The generated server leads each of the three paths to its method.\<close>

lemma served_service_paths:
  "uri_path req = ''/raft.RaftService/AppendEntries'' \<Longrightarrow> served_service T C H cfg req s =
     server_unary T {} {} (Some (server_max_message_size cfg)) (Some (server_max_message_size cfg))
       (\<lambda>m s. map_prod id (map_sum id to_message) (serve (append_req C) (append_resp C) (handle_append_entries H) (msg_payload m) s)) req s"
  "uri_path req = ''/raft.RaftService/RequestVote'' \<Longrightarrow> served_service T C H cfg req s =
     server_unary T {} {} (Some (server_max_message_size cfg)) (Some (server_max_message_size cfg))
       (\<lambda>m s. map_prod id (map_sum id to_message) (serve (vote_req C) (vote_resp C) (handle_vote H) (msg_payload m) s)) req s"
  "uri_path req = ''/raft.RaftService/InstallSnapshot'' \<Longrightarrow> served_service T C H cfg req s =
     server_unary T {} {} (Some (server_max_message_size cfg)) (Some (server_max_message_size cfg))
       (\<lambda>m s. map_prod id (map_sum id to_message) (serve (install_req C) (install_resp C) (handle_install_snapshot H) (msg_payload m) s)) req s"
  by (simp_all add: served_service_def RaftServiceServer_call_def server_max_encoding_message_size_def
      server_max_decoding_message_size_def RaftServiceServer_new_def raft_service_def
      RaftGrpcServer_append_entries_def RaftGrpcServer_request_vote_def RaftGrpcServer_install_snapshot_def)

lemma stub_grpc_calls:
  "call_append_entries (stub_grpc T parse connect) = timed_call T (client_call T ''/raft.RaftService/AppendEntries'')"
  "call_request_vote (stub_grpc T parse connect) = timed_call T (client_call T ''/raft.RaftService/RequestVote'')"
  "call_install_snapshot (stub_grpc T parse connect) = timed_call T (client_call T ''/raft.RaftService/InstallSnapshot'')"
  by (simp_all add: stub_grpc_def fun_eq_iff timed_call_def RaftServiceClient_append_entries_def [abs_def]
      RaftServiceClient_request_vote_def [abs_def] RaftServiceClient_install_snapshot_def [abs_def])

text \<open>So each of the three calls of a client whose channel leads to a started server is delivered.\<close>

lemma stub_append_delivers:
  assumes "tonic_ok T shown" "undisturbed T (served_service T C H cfg)" "rg_channel cl = served_service T C H cfg"
    and "codec_ok (append_req C)" "codec_ok (append_resp C)"
  shows "delivers (fits T (max_message_size (rg_config cl)) cfg) (cc_max_retries (rg_config cl))
      (RaftGrpcClient_append_entries (stub_grpc T parse connect) C cl) (append_req C) (append_resp C) (handle_append_entries H)"
  by (rule stub_delivers [OF append_rpc.remote_call_axioms [of "stub_grpc T parse connect" C cl, unfolded stub_grpc_calls assms(3)]
        assms(1,2) served_service_paths(1) assms(4,5)])

lemma stub_vote_delivers:
  assumes "tonic_ok T shown" "undisturbed T (served_service T C H cfg)" "rg_channel cl = served_service T C H cfg"
    and "codec_ok (vote_req C)" "codec_ok (vote_resp C)"
  shows "delivers (fits T (max_message_size (rg_config cl)) cfg) (cc_max_retries (rg_config cl))
      (RaftGrpcClient_request_vote (stub_grpc T parse connect) C cl) (vote_req C) (vote_resp C) (handle_vote H)"
  by (rule stub_delivers [OF vote_rpc.remote_call_axioms [of "stub_grpc T parse connect" C cl, unfolded stub_grpc_calls assms(3)]
        assms(1,2) served_service_paths(2) assms(4,5)])

lemma stub_install_delivers:
  assumes "tonic_ok T shown" "undisturbed T (served_service T C H cfg)" "rg_channel cl = served_service T C H cfg"
    and "codec_ok (install_req C)" "codec_ok (install_resp C)"
  shows "delivers (fits T (max_message_size (rg_config cl)) cfg) (cc_max_retries (rg_config cl))
      (RaftGrpcClient_install_snapshot (stub_grpc T parse connect) C cl) (install_req C) (install_resp C) (handle_install_snapshot H)"
  by (rule stub_delivers [OF install_rpc.remote_call_axioms [of "stub_grpc T parse connect" C cl, unfolded stub_grpc_calls assms(3)]
        assms(1,2) served_service_paths(3) assms(4,5)])

text \<open>
  Claim C20: remote calls through the generated code. With tonic as documented and an undisturbed
  channel to a started server, each of the three calls reaches its own method of the node:
  a request within both size limits runs once and its answer arrives unchanged; a larger one
  leaves the node untouched and is an error; and when the answer is too large, the node runs the
  request once per attempt although the caller is told that it failed.
\<close>

theorem stub_calls_reach_node:
  assumes "tonic_ok T shown" and "undisturbed T (served_service T C H cfg)" and "rg_channel cl = served_service T C H cfg"
    and "codec_ok (append_req C)" "codec_ok (append_resp C)" "codec_ok (vote_req C)" "codec_ok (vote_resp C)"
      "codec_ok (install_req C)" "codec_ok (install_resp C)"
  shows "delivers (fits T (max_message_size (rg_config cl)) cfg) (cc_max_retries (rg_config cl))
      (RaftGrpcClient_append_entries (stub_grpc T parse connect) C cl) (append_req C) (append_resp C) (handle_append_entries H) \<and>
    delivers (fits T (max_message_size (rg_config cl)) cfg) (cc_max_retries (rg_config cl))
      (RaftGrpcClient_request_vote (stub_grpc T parse connect) C cl) (vote_req C) (vote_resp C) (handle_vote H) \<and>
    delivers (fits T (max_message_size (rg_config cl)) cfg) (cc_max_retries (rg_config cl))
      (RaftGrpcClient_install_snapshot (stub_grpc T parse connect) C cl) (install_req C) (install_resp C) (handle_install_snapshot H)"
  using stub_append_delivers [OF assms(1-5)] stub_vote_delivers [OF assms(1-3,6,7)] stub_install_delivers [OF assms(1-3,8,9)] by blast

text \<open>
  A direct connection as an instance: messages are encoded as they are, the limits are checked,
  and a status is reported by one text. The node is that of \<open>Network\<close>.
\<close>

definition direct_tonic :: "'s tonic" where
  "direct_tonic = \<lparr>prost_encode = msg_payload, inner_ready = (\<lambda>_ s. (s, Inr ())),
     client_unary = (\<lambda>_ _ cd ce svc path m s.
       if \<not> encoding_ok ce (msg_payload m) then (s, Inl ''out of range'')
       else case svc \<lparr>uri_path = path, req_body = msg_payload m\<rparr> s of (s, resp) \<Rightarrow>
         if resp_headers resp \<noteq> [] then (s, Inl ''status'')
         else if decoding_ok cd (resp_body resp) then (s, Inr (to_message (resp_body resp)))
         else (s, Inl ''out of range'')),
     server_unary = (\<lambda>_ _ sd se f req s.
       if \<not> decoding_ok sd (req_body req) then (s, \<lparr>resp_headers = [(''grpc-status'', ''11'')], resp_body = []\<rparr>)
       else case f (to_message (req_body req)) s of
         (s, Inl st) \<Rightarrow> (s, \<lparr>resp_headers = [(''grpc-status'', ''13'')], resp_body = []\<rparr>)
       | (s, Inr m) \<Rightarrow>
           if encoding_ok se (msg_payload m) then (s, \<lparr>resp_headers = [], resp_body = msg_payload m\<rparr>)
           else (s, \<lparr>resp_headers = [(''grpc-status'', ''11'')], resp_body = []\<rparr>)),
     timed = (\<lambda>d f s. (fst (f s), Some (snd (f s))))\<rparr>"

lemma to_message_payload [simp]: "to_message (msg_payload m) = m"
  by (simp add: to_message_def)

lemma direct_encode: "prost_encode direct_tonic = msg_payload"
  by (simp add: direct_tonic_def)

lemma direct_unary:
  assumes "\<And>req s. uri_path req = path \<Longrightarrow> svc req s = server_unary direct_tonic {} {} sd se f req s"
  shows "client_unary direct_tonic {} None cd ce svc path m s =
    (if encoding_ok ce (msg_payload m) \<and> decoding_ok sd (msg_payload m)
     then (case f m s of (s', Inl st) \<Rightarrow> (s', Inl ''status'')
       | (s', Inr m') \<Rightarrow> if \<not> encoding_ok se (msg_payload m') then (s', Inl ''status'')
           else if decoding_ok cd (msg_payload m') then (s', Inr m') else (s', Inl ''out of range''))
     else (s, Inl (if encoding_ok ce (msg_payload m) then ''status'' else ''out of range'')))"
proof -
  have "svc \<lparr>uri_path = path, req_body = msg_payload m\<rparr> s = server_unary direct_tonic {} {} sd se f \<lparr>uri_path = path, req_body = msg_payload m\<rparr> s"
    by (rule assms) simp
  then show ?thesis
    by (cases "f m s"; cases "snd (f m s)") (simp_all add: direct_tonic_def)
qed

lemma direct_tonic_ok: "tonic_ok direct_tonic (\<lambda>_. ''status'')"
  unfolding tonic_ok_def direct_encode
proof (intro conjI allI impI)
  fix cd ce sd se path m f and svc :: "'s service" and s
  assume "\<forall>req s. uri_path req = path \<longrightarrow> svc req s = server_unary direct_tonic {} {} sd se f req s"
  then have "client_unary direct_tonic {} None cd ce svc path m s =
    (if encoding_ok ce (msg_payload m) \<and> decoding_ok sd (msg_payload m)
     then (case f m s of (s', Inl st) \<Rightarrow> (s', Inl ''status'')
       | (s', Inr m') \<Rightarrow> if \<not> encoding_ok se (msg_payload m') then (s', Inl ''status'')
           else if decoding_ok cd (msg_payload m') then (s', Inr m') else (s', Inl ''out of range''))
     else (s, Inl (if encoding_ok ce (msg_payload m) then ''status'' else ''out of range'')))"
    by (intro direct_unary) blast
  then show "if encoding_ok ce (msg_payload m) \<and> decoding_ok sd (msg_payload m)
         then (case f m s of
             (s', Inl st) \<Rightarrow> client_unary direct_tonic {} None cd ce svc path m s = (s', Inl ''status'')
           | (s', Inr m') \<Rightarrow>
               if encoding_ok se (msg_payload m') \<and> decoding_ok cd (msg_payload m') then client_unary direct_tonic {} None cd ce svc path m s = (s', Inr m')
               else (\<exists>e. client_unary direct_tonic {} None cd ce svc path m s = (s', Inl e)))
         else (\<exists>e. client_unary direct_tonic {} None cd ce svc path m s = (s, Inl e))"
    by (cases "f m s"; cases "snd (f m s)") simp_all
next
  fix cd ce path and m :: RaftMessage and svc :: "'s service" and s s' resp
  assume svc: "\<forall>req. uri_path req = path \<longrightarrow> svc req s = (s', resp)" and st: "map_of (resp_headers resp) ''grpc-status'' = Some ''12''"
    and "encoding_ok ce (msg_payload m)"
  have "svc \<lparr>uri_path = path, req_body = msg_payload m\<rparr> s = (s', resp)" using svc by simp
  moreover have "resp_headers resp \<noteq> []" using st by auto
  ultimately show "\<exists>e. client_unary direct_tonic {} None cd ce svc path m s = (s', Inl e)"
    using \<open>encoding_ok ce (msg_payload m)\<close> by (simp add: direct_tonic_def)
qed

theorem stub_calls_reach_node_witness:
  "RaftGrpcClient_append_entries (stub_grpc direct_tonic (\<lambda>_. Inr ()) (\<lambda>_ _ n. (n, Inl ''no''))) nat_codecs
     \<lparr>rg_target = 2, rg_channel = served_service direct_tonic nat_codecs even_node ServerConfig_default, rg_config = ClientConfig_default\<rparr>
     4 0 = (1, Inr 5)"
proof -
  let ?cl = "\<lparr>rg_target = 2, rg_channel = served_service direct_tonic nat_codecs even_node ServerConfig_default, rg_config = ClientConfig_default\<rparr>"
  have codecs: "codec_ok (append_req nat_codecs)" "codec_ok (append_resp nat_codecs)" "codec_ok (vote_req nat_codecs)"
    "codec_ok (vote_resp nat_codecs)" "codec_ok (install_req nat_codecs)" "codec_ok (install_resp nat_codecs)"
    by (simp_all add: nat_codecs_def table_codec_ok)
  have calm: "undisturbed direct_tonic (rg_channel ?cl)"
    by (simp add: undisturbed_def direct_tonic_def)
  note d = stub_calls_reach_node [of direct_tonic "\<lambda>_. ''status''" nat_codecs even_node ServerConfig_default ?cl "\<lambda>_. Inr ()" "\<lambda>_ _ n. (n, Inl ''no'')",
      OF direct_tonic_ok _ _ codecs]
  have i: "index_in 4 [0..<8] = Some 4" "index_in 5 [0..<8] = Some 5" by code_simp+
  have "to_stdvec (append_req nat_codecs) 4 = Inr (be_encode 2 4)" "to_stdvec (append_resp nat_codecs) 5 = Inr (be_encode 2 5)"
    by (simp_all add: nat_codecs_def to_stdvec_table_codec i del: be_encode.simps)
  moreover have "fits direct_tonic (max_message_size (rg_config ?cl)) ServerConfig_default (be_encode 2 k)" for k
    by (simp add: fits_def direct_tonic_def ClientConfig_default_def ServerConfig_default_def numeral_2_eq_2)
  moreover have "handle_append_entries even_node 4 0 = (1, Inr 5)" by (simp add: even_node_def)
  moreover have "rg_channel ?cl = served_service direct_tonic nat_codecs even_node ServerConfig_default" by simp
  ultimately show ?thesis
    using delivers_answered [OF d [THEN conjunct1]] calm by metis
qed

end
