(* ===== verification/Interleaving.thy ===== *)
theory Interleaving
  imports Storage
begin

text \<open>
  What \<open>State\<close> takes as one step, cut at its \<open>await\<close> points. A save of \<open>src/state.rs\<close> first
  commits to the tree and then assigns the cached value, under a lock that is taken for the
  assignment only. Several tasks save at once: OpenRaft's core appends entries and saves votes
  while its state machine task applies entries, and a merge task records its progress beside
  both. Threads here are saves at one of these points, and a step relation interleaves them.
  The building of a snapshot is cut in the same way.
\<close>

section \<open>A save in two parts\<close>

datatype save_call =
    SaveVoting VotingState
  | SaveApplied AppliedState
  | SaveSnapshot SnapshotMetaState
  | SaveProgress MergeProgressState
  | SaveBoth SnapshotMetaState MergeProgressState

datatype slot = VotingSlot | AppliedSlot | SnapshotSlot | ProgressSlot

text \<open>The value of a slot, and the assignments to the cache that end a save, in their order.\<close>

datatype publication =
    PubVoting VotingState
  | PubApplied AppliedState
  | PubSnapshot SnapshotMetaState
  | PubProgress MergeProgressState

fun slot_of :: "publication \<Rightarrow> slot" where
  "slot_of (PubVoting _) = VotingSlot"
| "slot_of (PubApplied _) = AppliedSlot"
| "slot_of (PubSnapshot _) = SnapshotSlot"
| "slot_of (PubProgress _) = ProgressSlot"

fun publications :: "save_call \<Rightarrow> publication list" where
  "publications (SaveVoting v) = [PubVoting v]"
| "publications (SaveApplied a) = [PubApplied a]"
| "publications (SaveSnapshot s) = [PubSnapshot s]"
| "publications (SaveProgress p) = [PubProgress p]"
| "publications (SaveBoth s p) = [PubSnapshot s, PubProgress p]"

fun publish :: "publication \<Rightarrow> 't MetadataManager \<Rightarrow> 't MetadataManager" where
  "publish (PubVoting v) m = m\<lparr>voting_state := v\<rparr>"
| "publish (PubApplied a) m = m\<lparr>applied_state := a\<rparr>"
| "publish (PubSnapshot s) m = m\<lparr>snapshot_state := s\<rparr>"
| "publish (PubProgress p) m = m\<lparr>merge_progress_state := p\<rparr>"

fun run_save ::
  "('t, 'x, 'f) surrealkv \<Rightarrow> meta_codecs \<Rightarrow> save_call \<Rightarrow> 't MetadataManager \<Rightarrow> 't MetadataManager \<times> (RaftError + unit)" where
  "run_save kv mc (SaveVoting v) m = save_voting_state kv mc v m"
| "run_save kv mc (SaveApplied a) m = save_applied_state kv mc a m"
| "run_save kv mc (SaveSnapshot s) m = save_snapshot_state kv mc s m"
| "run_save kv mc (SaveProgress p) m = save_merge_progress_state kv mc p m"
| "run_save kv mc (SaveBoth s p) m = save_snapshot_and_merge_state kv mc s p m"

text \<open>The first part of a save, up to the commit: what the whole does to the tree, the caches as they were.\<close>

definition commit_save ::
  "('t, 'x, 'f) surrealkv \<Rightarrow> meta_codecs \<Rightarrow> save_call \<Rightarrow> 't MetadataManager \<Rightarrow> 't MetadataManager \<times> (RaftError + unit)" where
  "commit_save kv mc c m = (case run_save kv mc c m of (m', r) \<Rightarrow> (m\<lparr>tree := tree m'\<rparr>, r))"

text \<open>The two parts make the whole.\<close>

lemma run_save_split:
  "run_save kv mc c m = try_then (commit_save kv mc c m) (\<lambda>m _. (fold publish (publications c) m, Inr ()))"
  by (cases c)
    (auto simp: commit_save_def save_defs save_slot_def save_snapshot_and_merge_state_def on_tree_eq try_then_def
      split: sum.splits prod.splits)

section \<open>Saves side by side\<close>

datatype thread = Pending save_call | Publishing "publication list" | Finished "RaftError + unit"

inductive save_step ::
  "('t, 'x, 'f) surrealkv \<Rightarrow> meta_codecs \<Rightarrow> 't MetadataManager \<times> thread list \<Rightarrow> 't MetadataManager \<times> thread list \<Rightarrow> bool"
  for kv mc where
  committed: "\<lbrakk>i < length ts; ts ! i = Pending c; commit_save kv mc c m = (m', Inr u)\<rbrakk> \<Longrightarrow>
    save_step kv mc (m, ts) (m', ts[i := Publishing (publications c)])"
| failed: "\<lbrakk>i < length ts; ts ! i = Pending c; commit_save kv mc c m = (m', Inl e)\<rbrakk> \<Longrightarrow>
    save_step kv mc (m, ts) (m', ts[i := Finished (Inl e)])"
| published: "\<lbrakk>i < length ts; ts ! i = Publishing (p # ps)\<rbrakk> \<Longrightarrow>
    save_step kv mc (m, ts) (publish p m, ts[i := Publishing ps])"
| saved: "\<lbrakk>i < length ts; ts ! i = Publishing []\<rbrakk> \<Longrightarrow>
    save_step kv mc (m, ts) (m, ts[i := Finished (Inr ())])"

text \<open>The assignments that are still to come, with the thread that will make them.\<close>

definition in_flight :: "thread list \<Rightarrow> nat \<Rightarrow> publication \<Rightarrow> bool" where
  "in_flight ts i p \<longleftrightarrow> i < length ts \<and> (\<exists>ps. ts ! i = Publishing ps \<and> p \<in> set ps)"

text \<open>One writer per slot: no save commits to a slot while another still has to assign its cache.\<close>

definition one_writer :: "thread list \<Rightarrow> bool" where
  "one_writer ts \<longleftrightarrow> (\<forall>i p j q. in_flight ts i p \<longrightarrow> in_flight ts j q \<longrightarrow> slot_of p = slot_of q \<longrightarrow> i = j)"

definition cached :: "slot \<Rightarrow> 't MetadataManager \<Rightarrow> publication" where
  "cached \<sigma> m = (case \<sigma> of VotingSlot \<Rightarrow> PubVoting (voting_state m) | AppliedSlot \<Rightarrow> PubApplied (applied_state m)
     | SnapshotSlot \<Rightarrow> PubSnapshot (snapshot_state m) | ProgressSlot \<Rightarrow> PubProgress (merge_progress_state m))"

definition durable ::
  "('t \<Rightarrow> bytes \<Rightarrow> bytes option) \<Rightarrow> meta_codecs \<Rightarrow> slot \<Rightarrow> 't MetadataManager \<Rightarrow> string + publication" where
  "durable view mc \<sigma> m = (case \<sigma> of
       VotingSlot \<Rightarrow> map_sum id PubVoting (durable_voting view mc m)
     | AppliedSlot \<Rightarrow> map_sum id PubApplied (durable_applied view mc m)
     | SnapshotSlot \<Rightarrow> map_sum id PubSnapshot (durable_snapshot view mc m)
     | ProgressSlot \<Rightarrow> map_sum id PubProgress (durable_progress view mc m))"

lemma map_sum_Inr_iff: "map_sum id f r = Inr (f x) \<longleftrightarrow> r = Inr x" if "inj f" for r :: "'e + 'a"
  using that by (cases r) (auto simp: inj_eq)

lemma synced_iff: "synced view mc m \<longleftrightarrow> (\<forall>\<sigma>. durable view mc \<sigma> m = Inr (cached \<sigma> m))"
proof -
  have "(\<forall>\<sigma>. P \<sigma>) \<longleftrightarrow> P VotingSlot \<and> P AppliedSlot \<and> P SnapshotSlot \<and> P ProgressSlot" for P
    by (metis slot.exhaust)
  then show ?thesis by (simp add: synced_def durable_def cached_def map_sum_Inr_iff inj_on_def)
qed


text \<open>A commit changes the slots it writes on disk and no cache; an assignment changes one cache and nothing on disk.\<close>

lemma commit_caches: "commit_save kv mc c m = (m', r) \<Longrightarrow> cached \<sigma> m' = cached \<sigma> m"
  by (cases \<sigma>) (auto simp: commit_save_def cached_def split: prod.splits)

lemma save_slot_tree:
  assumes "env_ok kv view pend mc" "save_slot kv key c assign st m = (m', r)" "codec_ok c"
    and "\<And>st m. tree (assign st m) = tree m"
  shows "durable_slot c d (view (tree m') key) = (if isl r then durable_slot c d (view (tree m) key) else Inr st)"
    and "k \<noteq> key \<Longrightarrow> view (tree m') k = view (tree m) k"
  using env_ok_kv [OF assms(1)] assms(2)
  by (cases rule: save_slot_cases; use assms(3,4) in \<open>auto simp: durable_slot_def codec_okD\<close>)+

lemma commit_durable:
  assumes env: "env_ok kv view pend mc" and run: "commit_save kv mc c m = (m', r)"
  shows "durable view mc \<sigma> m' = (case find (\<lambda>p. slot_of p = \<sigma>) (publications c) of
     Some p \<Rightarrow> if isl r then durable view mc \<sigma> m else Inr p | None \<Rightarrow> durable view mc \<sigma> m)"
proof -
  obtain m1 where m1: "run_save kv mc c m = (m1, r)" "tree m' = tree m1"
    using run by (auto simp: commit_save_def split: prod.splits)
  have codecs: "codec_ok (voting_codec mc)" "codec_ok (applied_codec mc)" "codec_ok (snapshot_codec mc)" "codec_ok (progress_codec mc)"
    using env by (simp_all add: env_ok_def)
  note slot = save_slot_tree [OF env] and defs = durable_def durable_defs
  show ?thesis
  proof (cases c)
    case (SaveVoting v)
    then have s: "save_slot kv key_vote (voting_codec mc) (\<lambda>st. voting_state_update (\<lambda>_. st)) v m = (m1, r)"
      using m1 by (simp add: save_voting_state_def)
    show ?thesis
      using slot(1) [OF s codecs(1)] slot(2) [OF s codecs(1)] m1(2) SaveVoting by (cases \<sigma>) (simp_all add: defs)
  next
    case (SaveApplied v)
    then have s: "save_slot kv key_applied (applied_codec mc) (\<lambda>st. applied_state_update (\<lambda>_. st)) v m = (m1, r)"
      using m1 by (simp add: save_applied_state_def)
    show ?thesis
      using slot(1) [OF s codecs(2)] slot(2) [OF s codecs(2)] m1(2) SaveApplied by (cases \<sigma>) (simp_all add: defs)
  next
    case (SaveSnapshot v)
    then have s: "save_slot kv key_snapshot (snapshot_codec mc) (\<lambda>st. snapshot_state_update (\<lambda>_. st)) v m = (m1, r)"
      using m1 by (simp add: save_snapshot_state_def)
    show ?thesis
      using slot(1) [OF s codecs(3)] slot(2) [OF s codecs(3)] m1(2) SaveSnapshot by (cases \<sigma>) (simp_all add: defs)
  next
    case (SaveProgress v)
    then have s: "save_slot kv key_progress (progress_codec mc) (\<lambda>st. merge_progress_state_update (\<lambda>_. st)) v m = (m1, r)"
      using m1 by (simp add: save_merge_progress_state_def)
    show ?thesis
      using slot(1) [OF s codecs(4)] slot(2) [OF s codecs(4)] m1(2) SaveProgress by (cases \<sigma>) (simp_all add: defs)
  next
    case (SaveBoth ss p)
    then have "save_snapshot_and_merge_state kv mc ss p m = (m1, r)" using m1 by simp
    with env_ok_kv [OF env] show ?thesis
      by (cases rule: save_both_cases)
        (use m1(2) SaveBoth codecs in \<open>cases \<sigma>; auto simp: defs durable_slot_def codec_okD\<close>)+
  qed
qed

lemma publish_effect:
  "cached \<sigma> (publish p m) = (if slot_of p = \<sigma> then p else cached \<sigma> m)"
  "durable view mc \<sigma> (publish p m) = durable view mc \<sigma> m"
  by (cases p; cases \<sigma>; simp add: cached_def durable_def durable_defs)+

section \<open>One writer per slot is enough\<close>

text \<open>
  The invariant: on disk a slot holds the value that is still to be assigned to its cache, if
  there is one, and otherwise the value in the cache.
\<close>

definition flight_ok :: "('t \<Rightarrow> bytes \<Rightarrow> bytes option) \<Rightarrow> meta_codecs \<Rightarrow> 't MetadataManager \<times> thread list \<Rightarrow> bool" where
  "flight_ok view mc s \<longleftrightarrow> (case s of (m, ts) \<Rightarrow>
     one_writer ts \<and> (\<forall>t \<in> set ts. case t of Publishing ps \<Rightarrow> distinct (map slot_of ps) | _ \<Rightarrow> True) \<and>
     (\<forall>i p. in_flight ts i p \<longrightarrow> durable view mc (slot_of p) m = Inr p) \<and>
     (\<forall>\<sigma>. (\<forall>i p. in_flight ts i p \<longrightarrow> slot_of p \<noteq> \<sigma>) \<longrightarrow> durable view mc \<sigma> m = Inr (cached \<sigma> m)))"

lemma publications_distinct: "distinct (map slot_of (publications c))"
  by (cases c) simp_all

lemma find_slot:
  "distinct (map slot_of ps) \<Longrightarrow> p \<in> set ps \<Longrightarrow> find (\<lambda>q. slot_of q = slot_of p) ps = Some p"
  by (induction ps) (auto simp: rev_image_eqI)

lemma in_flight_update:
  "i < length ts \<Longrightarrow> in_flight (ts[i := t]) j p \<longleftrightarrow>
     (if j = i then (\<exists>ps. t = Publishing ps \<and> p \<in> set ps) else in_flight ts j p)"
  by (auto simp: in_flight_def nth_list_update)

lemma in_flight_nth: "i < length ts \<Longrightarrow> ts ! i = Publishing ps \<Longrightarrow> in_flight ts i p \<longleftrightarrow> p \<in> set ps"
  "ts ! i = Pending c \<Longrightarrow> \<not> in_flight ts i p" "ts ! i = Finished r \<Longrightarrow> \<not> in_flight ts i p"
  by (auto simp: in_flight_def)


lemma flight_okD:
  assumes "flight_ok view mc (m, ts)"
  shows "one_writer ts" "\<And>i ps. i < length ts \<Longrightarrow> ts ! i = Publishing ps \<Longrightarrow> distinct (map slot_of ps)"
    "\<And>i p. in_flight ts i p \<Longrightarrow> durable view mc (slot_of p) m = Inr p"
    "\<And>\<sigma>. (\<And>i p. in_flight ts i p \<Longrightarrow> slot_of p \<noteq> \<sigma>) \<Longrightarrow> durable view mc \<sigma> m = Inr (cached \<sigma> m)"
proof -
  show "distinct (map slot_of ps)" if "i < length ts" "ts ! i = Publishing ps" for i ps
    using assms that nth_mem [OF that(1)] by (auto simp: flight_ok_def)
qed (use assms in \<open>auto simp: flight_ok_def\<close>)

lemma update_distinct:
  assumes "flight_ok view mc (m, ts)" "case t of Publishing ps \<Rightarrow> distinct (map slot_of ps) | _ \<Rightarrow> True"
  shows "\<forall>t \<in> set (ts[i := t]). case t of Publishing ps \<Rightarrow> distinct (map slot_of ps) | _ \<Rightarrow> True"
proof -
  have "\<forall>t \<in> set ts. case t of Publishing ps \<Rightarrow> distinct (map slot_of ps) | _ \<Rightarrow> True"
    using assms(1) by (simp add: flight_ok_def)
  with assms(2) show ?thesis using set_update_subset_insert [of ts i t] by blast
qed

lemma save_step_ok:
  assumes env: "env_ok kv view pend mc" and "save_step kv mc s s'" and ok: "flight_ok view mc s" and one: "one_writer (snd s')"
  shows "flight_ok view mc s'"
  using assms(2)
proof (cases rule: save_step.cases)
  case (committed i ts c m m' u)
  note f = flight_okD [OF ok [unfolded committed(1)]]
  note dur = commit_durable [OF env committed(5)] and none = in_flight_nth(2) [OF committed(4)]
  have fl: "in_flight (ts[i := Publishing (publications c)]) j p \<longleftrightarrow> (if j = i then p \<in> set (publications c) else in_flight ts j p)" for j p
    using committed(3) by (simp add: in_flight_update)
  have apart: "slot_of p \<noteq> slot_of q" if "in_flight ts j p" "q \<in> set (publications c)" for j p q
  proof -
    have "j \<noteq> i" using that(1) none by blast
    then have "in_flight (snd s') j p" "in_flight (snd s') i q" using that fl by (simp_all add: committed(2))
    then show ?thesis using one \<open>j \<noteq> i\<close> unfolding one_writer_def by blast
  qed
  have 1: "durable view mc (slot_of p) m' = Inr p" if "in_flight (ts[i := Publishing (publications c)]) j p" for j p
  proof (cases "j = i")
    case True
    then show ?thesis using that fl dur [of "slot_of p"] find_slot [OF publications_distinct, of p c] by simp
  next
    case False
    then have p: "in_flight ts j p" using that fl by simp
    then have "find (\<lambda>q. slot_of q = slot_of p) (publications c) = None" using apart [OF p] by (fastforce simp: find_None_iff)
    then show ?thesis using dur [of "slot_of p"] f(3) [OF p] by simp
  qed
  have 2: "durable view mc \<sigma> m' = Inr (cached \<sigma> m')"
    if free: "\<And>j p. in_flight (ts[i := Publishing (publications c)]) j p \<Longrightarrow> slot_of p \<noteq> \<sigma>" for \<sigma>
  proof -
    have "slot_of q \<noteq> \<sigma>" if "q \<in> set (publications c)" for q using free [of i q] fl that by simp
    then have "find (\<lambda>q. slot_of q = \<sigma>) (publications c) = None" by (simp add: find_None_iff)
    moreover have "durable view mc \<sigma> m = Inr (cached \<sigma> m)" using free fl none by (intro f(4)) metis
    ultimately show ?thesis using dur [of \<sigma>] commit_caches [OF committed(5)] by simp
  qed
  show ?thesis
    using one update_distinct [OF ok [unfolded committed(1)], of "Publishing (publications c)" i] 1 2 publications_distinct
    by (simp add: committed(2) flight_ok_def)
next
  case (failed i ts c m m' e)
  note f = flight_okD [OF ok [unfolded failed(1)]]
  have fl: "in_flight (ts[i := Finished (Inl e)]) j p \<longleftrightarrow> in_flight ts j p" for j p
    using failed(3) in_flight_nth(2) [OF failed(4)] by (simp add: in_flight_update)
  have "durable view mc \<sigma> m' = durable view mc \<sigma> m" for \<sigma>
    using commit_durable [OF env failed(5), of \<sigma>] by (simp split: option.splits)
  then show ?thesis
    using one update_distinct [OF ok [unfolded failed(1)], of "Finished (Inl e)" i] f(3,4) commit_caches [OF failed(5)]
    by (simp add: failed(2) flight_ok_def fl)
next
  case (published i ts p ps m)
  note f = flight_okD [OF ok [unfolded published(1)]]
  note d = f(2) [OF published(3,4)] and here = in_flight_nth(1) [OF published(3,4)]
  have fl: "in_flight (ts[i := Publishing ps]) j q \<longleftrightarrow> (if j = i then q \<in> set ps else in_flight ts j q)" for j q
    using published(3) by (simp add: in_flight_update)
  have sub: "in_flight ts j q" if "in_flight (ts[i := Publishing ps]) j q" for j q
    using that fl here by (auto split: if_splits)
  have 1: "durable view mc (slot_of q) m = Inr q" if "in_flight (ts[i := Publishing ps]) j q" for j q
    using f(3) [OF sub [OF that]] .
  have 2: "durable view mc \<sigma> m = Inr (if slot_of p = \<sigma> then p else cached \<sigma> m)"
    if "\<And>j q. in_flight (ts[i := Publishing ps]) j q \<Longrightarrow> slot_of q \<noteq> \<sigma>" for \<sigma>
  proof (cases "slot_of p = \<sigma>")
    case True
    then show ?thesis using f(3) [of i p] here by auto
  next
    case False
    then have "durable view mc \<sigma> m = Inr (cached \<sigma> m)" using that fl here by (intro f(4)) (metis set_ConsD)
    with False show ?thesis by simp
  qed
  show ?thesis
    using one update_distinct [OF ok [unfolded published(1)], of "Publishing ps" i] d 1 2
    by (simp add: published(2) flight_ok_def publish_effect)
next
  case (saved i ts m)
  note f = flight_okD [OF ok [unfolded saved(1)]]
  have fl: "in_flight (ts[i := Finished (Inr ())]) j p \<longleftrightarrow> in_flight ts j p" for j p
    using saved(3) in_flight_nth(1) [OF saved(3,4)] by (simp add: in_flight_update)
  show ?thesis
    using one update_distinct [OF ok [unfolded saved(1)], of "Finished (Inr ())" i] f(3,4)
    by (simp add: saved(2) flight_ok_def fl)
qed


text \<open>
  Claim C13: saves may interleave when each slot has one writer. Let any number of saves run side
  by side from a state in which memory and disk agree, cut between the commit and the assignment
  of the cache, in any order in which no save commits to a slot while another has still to
  assign its cache. Then at every moment a slot without such an assignment in flight agrees with
  the tree, a slot with one holds that value on disk, and memory and disk agree everywhere once
  all saves have returned, whether they succeeded or not.
\<close>

theorem single_writer_saves_agree:
  assumes env: "env_ok kv view pend mc" and start: "synced view mc m\<^sub>0"
    and run: "(\<lambda>s s'. save_step kv mc s s' \<and> one_writer (snd s'))\<^sup>*\<^sup>* (m\<^sub>0, map Pending cs) (m, ts)"
  shows "(\<forall>i p. in_flight ts i p \<longrightarrow> durable view mc (slot_of p) m = Inr p) \<and>
    (\<forall>\<sigma>. (\<forall>i p. in_flight ts i p \<longrightarrow> slot_of p \<noteq> \<sigma>) \<longrightarrow> durable view mc \<sigma> m = Inr (cached \<sigma> m)) \<and>
    ((\<forall>t \<in> set ts. \<exists>r. t = Finished r) \<longrightarrow> synced view mc m)"
proof -
  have idle: "\<not> in_flight ts i p" if "\<forall>t \<in> set ts. \<nexists>ps. t = Publishing ps" for ts i p
    using that nth_mem unfolding in_flight_def by blast
  have "flight_ok view mc (m\<^sub>0, map Pending cs)"
    using start idle [of "map Pending cs"] by (auto simp: flight_ok_def one_writer_def synced_iff)
  with run have ok: "flight_ok view mc (m, ts)"
    by (induction rule: rtranclp_induct) (auto intro: save_step_ok [OF env])
  moreover have "synced view mc m" if "\<forall>t \<in> set ts. \<exists>r. t = Finished r"
    using that ok idle [of ts] flight_okD(4) [OF ok] unfolding synced_iff by fastforce
  ultimately show ?thesis by (auto simp: flight_ok_def)
qed

lemma sample_commit:
  assumes "codec_ok (voting_codec mc)" "codec_ok (applied_codec mc)"
  shows "to_stdvec (applied_codec mc) a = Inr x \<Longrightarrow>
    commit_save mem_kv mc (SaveApplied a) m = (m\<lparr>tree := (tree m)(key_applied := Some x)\<rparr>, Inr ())"
  and "to_stdvec (voting_codec mc) v = Inr x \<Longrightarrow>
    commit_save mem_kv mc (SaveVoting v) m = (m\<lparr>tree := (tree m)(key_vote := Some x)\<rparr>, Inr ())"
  by (simp_all add: commit_save_def save_defs save_slot_def txn_put_def on_tree_eq fun_upd_def if_distrib cong: if_cong)

abbreviation sample_applied :: AppliedState where
  "sample_applied \<equiv> \<lparr>last_applied_index = 9, last_applied_term = 5\<rparr>"

lemma sample_commits:
  "commit_save mem_kv sample_codecs (SaveApplied sample_applied) m = (m\<lparr>tree := (tree m)(key_applied := Some (be_encode 2 0))\<rparr>, Inr ())"
  "commit_save mem_kv sample_codecs (SaveVoting sample_vote) m = (m\<lparr>tree := (tree m)(key_vote := Some (be_encode 2 0))\<rparr>, Inr ())"
  by (rule sample_commit; simp add: sample_codecs_def table_codec_ok to_stdvec_table_codec del: be_encode.simps)+

theorem single_writer_saves_agree_witness:
  "\<exists>m. (\<lambda>s s'. save_step mem_kv sample_codecs s s' \<and> one_writer (snd s'))\<^sup>*\<^sup>*
       (MetadataManager_new (\<lambda>_. None), map Pending [SaveApplied sample_applied, SaveVoting sample_vote])
       (m, [Publishing [PubApplied sample_applied], Publishing [PubVoting sample_vote]]) \<and>
     durable (\<lambda>t. t) sample_codecs VotingSlot m = Inr (PubVoting sample_vote) \<and>
     durable (\<lambda>t. t) sample_codecs SnapshotSlot m = Inr (cached SnapshotSlot m)"
proof -
  let ?m = "MetadataManager_new (\<lambda>_. None) :: mem_tree MetadataManager"
  let ?m1 = "?m\<lparr>tree := (tree ?m)(key_applied := Some (be_encode 2 0))\<rparr>"
  let ?m2 = "?m1\<lparr>tree := (tree ?m1)(key_vote := Some (be_encode 2 0))\<rparr>"
  let ?t1 = "[Publishing [PubApplied sample_applied], Pending (SaveVoting sample_vote)]"
  let ?t2 = "[Publishing [PubApplied sample_applied], Publishing [PubVoting sample_vote]]"
  let ?s = "\<lambda>s s'. save_step mem_kv sample_codecs s s' \<and> one_writer (snd s')"
  have flight: "in_flight ?t1 i p \<longleftrightarrow> i = 0 \<and> p = PubApplied sample_applied"
    "in_flight ?t2 i p \<longleftrightarrow> i = 0 \<and> p = PubApplied sample_applied \<or> i = 1 \<and> p = PubVoting sample_vote" for i p
    by (auto simp: in_flight_def less_Suc_eq nth_Cons')
  have "?s (?m, map Pending [SaveApplied sample_applied, SaveVoting sample_vote]) (?m1, ?t1)"
    using save_step.committed [where i = 0 and ts = "map Pending [SaveApplied sample_applied, SaveVoting sample_vote]",
        OF _ _ sample_commits(1)] by (auto simp: one_writer_def flight)
  also have "?s\<^sup>*\<^sup>* (?m1, ?t1) (?m2, ?t2)"
    using save_step.committed [where i = 1 and ts = ?t1, OF _ _ sample_commits(2), where m = ?m1]
    by (intro r_into_rtranclp) (auto simp: one_writer_def flight)
  finally have run: "?s\<^sup>*\<^sup>* (?m, map Pending [SaveApplied sample_applied, SaveVoting sample_vote]) (?m2, ?t2)" .
  have "synced (\<lambda>t. t) sample_codecs ?m"
    by (rule meta_reach_synced [OF sample_env_ok], rule meta_reach.loaded, rule sample_load)
  then have agree: "\<And>i p. in_flight ?t2 i p \<Longrightarrow> durable (\<lambda>t. t) sample_codecs (slot_of p) ?m2 = Inr p"
    "\<And>\<sigma>. (\<And>i p. in_flight ?t2 i p \<Longrightarrow> slot_of p \<noteq> \<sigma>) \<Longrightarrow> durable (\<lambda>t. t) sample_codecs \<sigma> ?m2 = Inr (cached \<sigma> ?m2)"
    using single_writer_saves_agree [OF sample_env_ok _ run] by blast+
  have "durable (\<lambda>t. t) sample_codecs SnapshotSlot ?m2 = Inr (cached SnapshotSlot ?m2)"
    by (rule agree(2)) (auto simp: flight)
  then show ?thesis using run agree(1) [of 1 "PubVoting sample_vote"] by (intro exI [of _ ?m2]) (simp add: flight)
qed

section \<open>Two writers are not\<close>

text \<open>
  Claim C39: two saves of the applied position can leave memory and disk apart. When two tasks save
  it at once, as appending and applying do, and both commits succeed, the order commit, commit,
  assign, assign exists in which both saves return without an error, the cache holds the first
  value and the tree the second; a restart then reports another position than the running node.
\<close>

theorem overlapping_saves_diverge:
  assumes env: "env_ok kv view pend mc"
    and "commit_save kv mc (SaveApplied a) m = (m\<^sub>1, Inr u)" and "commit_save kv mc (SaveApplied b) m\<^sub>1 = (m\<^sub>2, Inr v)"
  shows "\<exists>m'. (save_step kv mc)\<^sup>*\<^sup>* (m, [Pending (SaveApplied a), Pending (SaveApplied b)])
      (m', [Finished (Inr ()), Finished (Inr ())]) \<and>
    applied_state m' = a \<and> durable_applied view mc m' = Inr b"
proof -
  let ?s = "save_step kv mc"
  let ?m = "publish (PubApplied a) (publish (PubApplied b) m\<^sub>2)"
  have "?s (m, [Pending (SaveApplied a), Pending (SaveApplied b)]) (m\<^sub>1, [Publishing [PubApplied a], Pending (SaveApplied b)])"
    using save_step.committed [where i = 0 and ts = "[Pending (SaveApplied a), Pending (SaveApplied b)]", OF _ _ assms(2)] by simp
  also have "?s\<^sup>*\<^sup>* \<dots> (m\<^sub>2, [Publishing [PubApplied a], Publishing [PubApplied b]])"
    using save_step.committed [where i = 1 and ts = "[Publishing [PubApplied a], Pending (SaveApplied b)]", OF _ _ assms(3)] by simp
  also have "?s \<dots> (publish (PubApplied b) m\<^sub>2, [Publishing [PubApplied a], Publishing []])"
    using save_step.published [where i = 1 and p = "PubApplied b" and ps = "[]" and ts = "[Publishing [PubApplied a], Publishing [PubApplied b]]"] by simp
  also have "?s \<dots> (publish (PubApplied b) m\<^sub>2, [Publishing [PubApplied a], Finished (Inr ())])"
    using save_step.saved [of 1 "[Publishing [PubApplied a], Publishing []]"] by simp
  also have "?s \<dots> (?m, [Publishing [], Finished (Inr ())])"
    using save_step.published [where i = 0 and p = "PubApplied a" and ps = "[]" and ts = "[Publishing [PubApplied a], Finished (Inr ())]"
        and m = "publish (PubApplied b) m\<^sub>2"] by simp
  also have "?s \<dots> (?m, [Finished (Inr ()), Finished (Inr ())])"
    using save_step.saved [of 0 "[Publishing [], Finished (Inr ())]"] by simp
  finally have run: "?s\<^sup>*\<^sup>* (m, [Pending (SaveApplied a), Pending (SaveApplied b)]) (?m, [Finished (Inr ()), Finished (Inr ())])" .
  have "durable view mc AppliedSlot ?m = Inr (PubApplied b)"
    using commit_durable [OF env assms(3), of AppliedSlot] by (simp add: publish_effect del: publish.simps)
  then have "durable_applied view mc ?m = Inr b" by (simp add: durable_def map_sum_Inr_iff inj_on_def del: publish.simps)
  with run show ?thesis by (intro exI [of _ ?m]) simp
qed

definition two_positions :: meta_codecs where
  "two_positions = sample_codecs\<lparr>applied_codec := table_codec [sample_applied, \<lparr>last_applied_index = 10, last_applied_term = 5\<rparr>]\<rparr>"

theorem overlapping_saves_diverge_witness:
  "\<exists>m'. (save_step mem_kv two_positions)\<^sup>*\<^sup>*
       (MetadataManager_new (\<lambda>_. None), [Pending (SaveApplied sample_applied), Pending (SaveApplied \<lparr>last_applied_index = 10, last_applied_term = 5\<rparr>)])
       (m', [Finished (Inr ()), Finished (Inr ())]) \<and>
     applied_state m' = sample_applied \<and>
     durable_applied (\<lambda>t. t) two_positions m' = Inr \<lparr>last_applied_index = 10, last_applied_term = 5\<rparr>"
proof -
  have codecs: "codec_ok (voting_codec two_positions)" "codec_ok (applied_codec two_positions)"
    by (simp_all add: two_positions_def sample_codecs_def table_codec_ok)
  have env: "env_ok mem_kv (\<lambda>t. t) snd two_positions"
    using sample_env_ok by (simp add: env_ok_def two_positions_def table_codec_ok)
  obtain x y where "to_stdvec (applied_codec two_positions) sample_applied = Inr x"
    "to_stdvec (applied_codec two_positions) \<lparr>last_applied_index = 10, last_applied_term = 5\<rparr> = Inr y"
    by (simp add: two_positions_def to_stdvec_table_codec del: be_encode.simps)
  from overlapping_saves_diverge [OF env sample_commit(1) [OF codecs this(1)] sample_commit(1) [OF codecs this(2)]]
  show ?thesis .
qed

section \<open>A crash in the middle of saves\<close>

text \<open>A save that has committed, whether or not it has returned; and saves made one after the other.\<close>

fun has_committed :: "thread \<Rightarrow> bool" where
  "has_committed (Pending c) = False"
| "has_committed (Publishing ps) = True"
| "has_committed (Finished r) = (\<not> isl r)"

definition in_turn :: "save_call list \<Rightarrow> 't MetadataManager \<Rightarrow> 't MetadataManager" where
  "in_turn cs m = fold (\<lambda>c. fold publish (publications c)) cs m"

lemma fold_publish_cached:
  "distinct (map slot_of ps) \<Longrightarrow>
   cached \<sigma> (fold publish ps m) = (case find (\<lambda>p. slot_of p = \<sigma>) ps of Some p \<Rightarrow> p | None \<Rightarrow> cached \<sigma> m)"
proof (induction ps arbitrary: m)
  case (Cons p ps)
  have "find (\<lambda>q. slot_of q = slot_of p) ps = None" using Cons.prems by (auto simp: find_None_iff image_iff)
  with Cons show ?case by (auto simp: publish_effect split: option.split)
qed simp

text \<open>
  The invariant of any interleaving: the tree holds what the committed saves, made one after the
  other in the order of their commits, would have left in the caches.
\<close>

definition history_ok ::
  "('t \<Rightarrow> bytes \<Rightarrow> bytes option) \<Rightarrow> meta_codecs \<Rightarrow> 't MetadataManager \<Rightarrow> save_call list \<Rightarrow> nat list \<Rightarrow> 't MetadataManager \<times> thread list \<Rightarrow> bool" where
  "history_ok view mc m\<^sub>0 cs h s \<longleftrightarrow> (case s of (m, ts) \<Rightarrow> length ts = length cs \<and>
     (\<forall>i < length ts. \<forall>c. ts ! i = Pending c \<longrightarrow> c = cs ! i) \<and>
     distinct h \<and> set h = {i. i < length ts \<and> has_committed (ts ! i)} \<and>
     (\<forall>\<sigma>. durable view mc \<sigma> m = Inr (cached \<sigma> (in_turn (map ((!) cs) h) m\<^sub>0))))"

lemma history_quiet:
  assumes "history_ok view mc m\<^sub>0 cs h (m, ts)" and i: "i < length ts" "has_committed t = has_committed (ts ! i)" "\<forall>c. t \<noteq> Pending c"
    and "\<And>\<sigma>. durable view mc \<sigma> m' = durable view mc \<sigma> m"
  shows "history_ok view mc m\<^sub>0 cs h (m', ts[i := t])"
proof -
  have "{j. j < length ts \<and> has_committed (ts[i := t] ! j)} = {j. j < length ts \<and> has_committed (ts ! j)}"
    using i(1,2) by (auto simp: nth_list_update)
  then show ?thesis using assms by (auto simp: history_ok_def nth_list_update)
qed

lemma history_step:
  assumes env: "env_ok kv view pend mc" and "save_step kv mc s s'" and ok: "history_ok view mc m\<^sub>0 cs h s"
  shows "\<exists>h'. history_ok view mc m\<^sub>0 cs h' s'"
  using assms(2)
proof (cases rule: save_step.cases)
  case (committed i ts c m m' u)
  have h: "length ts = length cs" "c = cs ! i" "distinct h" "i \<notin> set h" "set h = {i. i < length ts \<and> has_committed (ts ! i)}"
    "\<And>\<sigma>. durable view mc \<sigma> m = Inr (cached \<sigma> (in_turn (map ((!) cs) h) m\<^sub>0))"
    using ok committed(1,3,4) by (auto simp: history_ok_def)
  have "durable view mc \<sigma> m' = Inr (cached \<sigma> (in_turn (map ((!) cs) (h @ [i])) m\<^sub>0))" for \<sigma>
    using commit_durable [OF env committed(5), of \<sigma>] h(2,6) by (simp add: in_turn_def fold_publish_cached publications_distinct split: option.split)
  moreover have "set (h @ [i]) = {j. j < length ts \<and> has_committed (ts[i := Publishing (publications c)] ! j)}"
    using h(5) committed(3) by (auto simp: nth_list_update)
  ultimately have "history_ok view mc m\<^sub>0 cs (h @ [i]) s'"
    using h(1,3,4) ok committed(1,3) by (auto simp: committed(2) history_ok_def nth_list_update)
  then show ?thesis by blast
next
  case (failed i ts c m m' e)
  have "durable view mc \<sigma> m' = durable view mc \<sigma> m" for \<sigma>
    using commit_durable [OF env failed(5), of \<sigma>] by (simp split: option.split)
  then show ?thesis using history_quiet [OF ok [unfolded failed(1)] failed(3), of "Finished (Inl e)" m'] failed(2,4) by auto
next
  case (published i ts p ps m)
  then show ?thesis using history_quiet [OF ok [unfolded published(1)] published(3), of "Publishing ps" "publish p m"] by (auto simp: publish_effect)
next
  case (saved i ts m)
  then show ?thesis using history_quiet [OF ok [unfolded saved(1)] saved(3), of "Finished (Inr ())" m] by auto
qed

text \<open>
  Claim C9: a crash loses no committed save. Let any number of saves run side by side in any
  interleaving, also several on one value, and let the process stop at any moment. A manager that
  then loads the tree (whose reads do not fail) holds exactly what the saves that had
  committed would have left if they had been made one after the other, in the order of their
  commits; every save that had returned without an error is among them, and no save that had
  failed or not yet committed is.
\<close>

theorem crash_keeps_committed_saves:
  assumes env: "env_ok kv view pend mc" and start: "synced view mc m\<^sub>0"
    and run: "(save_step kv mc)\<^sup>*\<^sup>* (m\<^sub>0, map Pending cs) (m, ts)"
    and reads: "tree_begin kv (tree m) = Inr x" "\<And>k. \<not> isl (txn_get kv x k)"
  shows "\<exists>h. distinct h \<and> set h = {i. i < length ts \<and> has_committed (ts ! i)} \<and>
    load kv mc (MetadataManager_new (tree m)) = ((in_turn (map ((!) cs) h) m\<^sub>0)\<lparr>tree := tree m\<rparr>, Inr ())"
proof -
  have kv: "surrealkv_ok kv view pend" using env by (simp add: env_ok_def)
  have "history_ok view mc m\<^sub>0 cs [] (m\<^sub>0, map Pending cs)" using start by (auto simp: history_ok_def in_turn_def synced_iff)
  with run have "\<exists>h. history_ok view mc m\<^sub>0 cs h (m, ts)"
    by (induction rule: rtranclp_induct) (auto intro: history_step [OF env])
  then obtain h where h: "distinct h" "set h = {i. i < length ts \<and> has_committed (ts ! i)}"
    and dur: "\<And>\<sigma>. durable view mc \<sigma> m = Inr (cached \<sigma> (in_turn (map ((!) cs) h) m\<^sub>0))"
    by (auto simp: history_ok_def)
  let ?m = "(in_turn (map ((!) cs) h) m\<^sub>0)\<lparr>tree := tree m\<rparr>"
  have sy: "synced view mc ?m"
    unfolding synced_iff
  proof
    fix \<sigma> show "durable view mc \<sigma> ?m = Inr (cached \<sigma> ?m)" using dur [of \<sigma>] by (cases \<sigma>) (simp_all add: durable_def durable_defs cached_def)
  qed
  obtain m' where m': "load kv mc (MetadataManager_new (tree m)) = (m', Inr ())"
    using synced_load_succeeds [OF kv sy, of x] reads by auto
  have "m' = ?m" using load_new_synced [OF kv m'] sy by (intro synced_unique) auto
  with h m' show ?thesis by blast
qed

theorem crash_keeps_committed_saves_witness:
  "\<exists>m m'. (save_step mem_kv sample_codecs)\<^sup>*\<^sup>*
       (MetadataManager_new (\<lambda>_. None), map Pending [SaveApplied sample_applied, SaveVoting sample_vote])
       (m, [Publishing [PubApplied sample_applied], Pending (SaveVoting sample_vote)]) \<and>
     applied_state m = AppliedState_new \<and>
     load mem_kv sample_codecs (MetadataManager_new (tree m)) = (m', Inr ()) \<and> applied_state m' = sample_applied"
proof -
  let ?m = "MetadataManager_new (\<lambda>_. None) :: mem_tree MetadataManager" and ?cs = "[SaveApplied sample_applied, SaveVoting sample_vote]"
  let ?m1 = "?m\<lparr>tree := (tree ?m)(key_applied := Some (be_encode 2 0))\<rparr>"
  let ?t1 = "[Publishing [PubApplied sample_applied], Pending (SaveVoting sample_vote)]"
  have run: "(save_step mem_kv sample_codecs)\<^sup>*\<^sup>* (?m, map Pending ?cs) (?m1, ?t1)"
    using save_step.committed [where i = 0 and ts = "map Pending ?cs", OF _ _ sample_commits(1)] by (intro r_into_rtranclp) simp
  have "synced (\<lambda>t. t) sample_codecs ?m"
    by (rule meta_reach_synced [OF sample_env_ok], rule meta_reach.loaded, rule sample_load)
  from crash_keeps_committed_saves [OF sample_env_ok this run mem_kv_simps(1)]
  obtain h where h: "distinct h" "set h = {i. i < length ?t1 \<and> has_committed (?t1 ! i)}"
    and ld: "load mem_kv sample_codecs (MetadataManager_new (tree ?m1)) = ((in_turn (map ((!) ?cs) h) ?m)\<lparr>tree := tree ?m1\<rparr>, Inr ())"
    by (auto simp del: be_encode.simps)
  have "set h = {0}" unfolding h(2) by (auto simp: less_Suc_eq nth_Cons')
  then have "h = [0]" using h(1) by (cases h; cases "tl h") (auto dest: subset_singletonD)
  then have "applied_state ((in_turn (map ((!) ?cs) h) ?m)\<lparr>tree := tree ?m1\<rparr>) = sample_applied" by (simp add: in_turn_def)
  moreover have "applied_state ?m1 = AppliedState_new" by (simp add: MetadataManager_new_def)
  ultimately show ?thesis using run ld by blast
qed

section \<open>A snapshot built around a merge\<close>

text \<open>
  \<open>build_snapshot_auto\<close> of \<open>src/storage.rs\<close> at its \<open>await\<close> points: it reads the applied position, the
  snapshot state and the candidates, makes the snapshot, and at its end writes back the
  snapshot state that it read at its start, with the new snapshot recorded in it.
\<close>

definition build_begin :: "('t, 'f, 'm) SurrealStorage \<Rightarrow> u64 \<times> SnapshotMetaState \<times> DeltaEntry list" where
  "build_begin S = (last_applied_index (applied_state (metadata S)), snapshot_state (metadata S), delta_candidates S)"

definition build_make ::
  "('t, 'x, 'f, 'm) storage_env \<Rightarrow> u64 \<Rightarrow> u64 \<times> SnapshotMetaState \<times> DeltaEntry list \<Rightarrow> ('t, 'f, 'm) SurrealStorage \<Rightarrow>
   ('t, 'f, 'm) SurrealStorage \<times> (RaftError + 'm RaftSnapshot)" where
  "build_make E trm b S = (case b of (applied, st, candidates) \<Rightarrow>
     on_tree_world (build_snapshot_with_delta (so_snap E)
       \<lparr>sbc_node_id = 1, sbc_node_addr = ''127.0.0.1:50051'', sbc_current_term = trm\<rparr> applied st candidates) S)"

definition build_record ::
  "('t, 'x, 'f, 'm) storage_env \<Rightarrow> SnapshotMetaState \<Rightarrow> 'm RaftSnapshot \<Rightarrow> ('t, 'f, 'm) SurrealStorage \<Rightarrow>
   ('t, 'f, 'm) SurrealStorage \<times> (RaftError + 'm RaftSnapshot)" where
  "build_record E st snapshot S =
     try_then (S, decode_snapshot_payload (so_snap E) (snap_data snapshot)) (\<lambda>S decoded.
     try_then (case decoded of
           None \<Rightarrow> (S, Inr ())
         | Some (DecodedFull meta) \<Rightarrow>
             on_metadata (save_snapshot_state (so_kv E) (so_meta E) (record_full (snap_meta snapshot) meta st)) S
         | Some (DecodedDelta meta entries) \<Rightarrow>
             on_metadata (save_snapshot_state (so_kv E) (so_meta E) (record_delta meta entries st)) S) (\<lambda>S _.
     (case merge_executor S of None \<Rightarrow> S | Some x \<Rightarrow> fst (spawn_task E x S), Inr snapshot)))"

lemma build_in_parts:
  "build_snapshot_auto E trm S =
     (let b = build_begin S in try_then (build_make E trm b S) (\<lambda>S snapshot. build_record E (fst (snd b)) snapshot S))"
  unfolding build_snapshot_auto_def build_begin_def build_make_def build_record_def Let_def fst_conv snd_conv prod.case ..

lemma build_record_delta:
  assumes "build_record E st snapshot S = (S', Inr snapshot')"
    and "decode_snapshot_payload (so_snap E) (snap_data snapshot) = Inr (Some (DecodedDelta meta entries))"
  shows "snapshot_state (metadata S') = record_delta meta entries st"
proof -
  from assms obtain S1 u where
    save: "on_metadata (save_snapshot_state (so_kv E) (so_meta E) (record_delta meta entries st)) S = (S1, Inr u)"
    and S': "S' = (case merge_executor S1 of None \<Rightarrow> S1 | Some x \<Rightarrow> fst (spawn_task E x S1))"
    by (auto simp: build_record_def try_then_Inr)
  have "metadata S' = metadata S1"
  proof (cases "merge_executor S1")
    case (Some x)
    then have "spawn_task E x S1 = (S', snd (spawn_task E x S1))" using S' by simp
    then show ?thesis by (rule spawn_task_frame) simp
  qed (use S' in simp)
  moreover have "snapshot_state (metadata S1) = record_delta meta entries st"
    using save by (auto simp: on_metadata_iff save_snapshot_state_def save_slot_def try_then_Inr on_tree_eq split: sum.splits)
  ultimately show ?thesis by simp
qed

text \<open>
  A merge task that runs to its end between the two is undone: it left an empty chain, and
  recording the delta brings the whole old chain and the old checkpoint back, in memory and on
  disk, while the task has reported its success.
\<close>

lemma build_undoes_merge:
  assumes "env_ok (so_kv E) view pend (so_meta E)" "synced view (so_meta E) (metadata S\<^sub>1)"
    and merge: "run_task E x trigger S\<^sub>1 = (S\<^sub>2, Inr res)" "ex_backend x = checkpoint_backend V temp_base"
    and rec: "build_record E (snapshot_state (metadata S\<^sub>1)) snapshot S\<^sub>2 = (S\<^sub>3, Inr snapshot')"
    and delta: "decode_snapshot_payload (so_snap E) (snap_data snapshot) = Inr (Some (DecodedDelta meta entries))"
  shows "delta_chain (snapshot_state (metadata S\<^sub>2)) = []"
    and "\<exists>info. delta_chain (snapshot_state (metadata S\<^sub>3)) = delta_chain (snapshot_state (metadata S\<^sub>1)) @ [info]"
    and "last_checkpoint (snapshot_state (metadata S\<^sub>3)) = last_checkpoint (snapshot_state (metadata S\<^sub>1))"
proof -
  obtain m w where run: "run_merge_loop (so_kv E) (so_meta E) (so_fs E) (checkpoint_backend V temp_base) (ex_cleanup x) trigger
      (ex_max_retries x) (metadata S\<^sub>1, st_world S\<^sub>1) = ((m, w), Inr res)" and S2: "metadata S\<^sub>2 = m"
    using merge by (auto simp: run_task_def on_merge_def split: prod.splits)
  obtain s0 started where s0: "on_world now_secs (metadata S\<^sub>1, st_world S\<^sub>1) = (s0, started)" by fastforce
  then have same: "fst s0 = metadata S\<^sub>1" by (auto split: prod.splits)
  have "checkpoint_merge.outcome view (so_meta E) started (max (ex_max_retries x) (0 + 1)) s0 (m, w) (Inr res)"
    using run s0 same by (intro checkpoint_merge.attempts_outcome [OF assms(1)]) (auto simp: assms(2) run_merge_loop_def)
  then show "delta_chain (snapshot_state (metadata S\<^sub>2)) = []"
    by (auto simp: checkpoint_merge.outcome_def S2 build_merged_snapshot_state_def)
  show "\<exists>info. delta_chain (snapshot_state (metadata S\<^sub>3)) = delta_chain (snapshot_state (metadata S\<^sub>1)) @ [info]"
    "last_checkpoint (snapshot_state (metadata S\<^sub>3)) = last_checkpoint (snapshot_state (metadata S\<^sub>1))"
    using build_record_delta [OF rec delta] by (auto simp: record_delta_def Let_def)
qed

end
