(* ===== verification/Directory_Copy.thy ===== *)
theory Directory_Copy
  imports Merge_Backend
begin

text \<open>
  The copy of the baseline checkpoint in \<open>src/merge/checkpoint_backend.rs\<close> against its
  specification: a directory as a finite tree, what it means that a path of the file system
  lists such a tree, and that the recursive copy reproduces its files. The file system
  remains a parameter; \<open>copy_fs_ok\<close> states which paths its operations may change.
\<close>

section \<open>Paths\<close>

text \<open>A path lies inside another when it continues it by whole components.\<close>

definition inside :: "path \<Rightarrow> path \<Rightarrow> bool" where
  "inside d q \<longleftrightarrow> (\<exists>r. q = d @ r \<and> (r = [] \<or> hd r = CHR ''/''))"

abbreviation apart :: "path \<Rightarrow> path \<Rightarrow> bool" where
  "apart p q \<equiv> \<not> inside p q \<and> \<not> inside q p"

definition plain_name :: "string \<Rightarrow> bool" where
  "plain_name n \<longleftrightarrow> n \<noteq> [] \<and> CHR ''/'' \<notin> set n"

definition plain_path :: "path \<Rightarrow> bool" where
  "plain_path p \<longleftrightarrow> p \<noteq> [] \<and> last p \<noteq> CHR ''/''"

lemma join_plain:
  assumes "plain_path p" "plain_name n"
  shows "path_join p n = p @ ''/'' @ n" "plain_path (path_join p n)" "inside p (path_join p n)"
proof -
  have "hd n \<noteq> CHR ''/''" "last n \<noteq> CHR ''/''" "n \<noteq> []"
    using assms(2) unfolding plain_name_def by (metis hd_in_set, metis last_in_set, blast)
  then show "path_join p n = p @ ''/'' @ n" using assms(1) by (simp add: path_join_relative plain_path_def)
  then show "plain_path (path_join p n)" "inside p (path_join p n)"
    using \<open>last n \<noteq> _\<close> \<open>n \<noteq> []\<close> by (auto simp: plain_path_def inside_def)
qed

lemma inside_refl [simp]: "inside p p"
  by (simp add: inside_def)

lemma inside_trans: "inside p q \<Longrightarrow> inside q r \<Longrightarrow> inside p r"
  unfolding inside_def by (metis append.assoc append_self_conv2 hd_append2)

lemma inside_comparable: "inside p r \<Longrightarrow> inside q r \<Longrightarrow> inside p q \<or> inside q p"
proof -
  assume "inside p r" "inside q r"
  then obtain a b where r: "r = p @ a" "r = q @ b" and h: "a = [] \<or> hd a = CHR ''/''" "b = [] \<or> hd b = CHR ''/''"
    unfolding inside_def by blast
  then consider z where "q = p @ z" "a = z @ b" | z where "p = q @ z" "b = z @ a"
    by (metis append_eq_append_conv2)
  then show ?thesis
    by cases (use h in \<open>metis (no_types, lifting) hd_append2 inside_def append_is_Nil_conv\<close>)+
qed

text \<open>What is apart from a path is apart from everything inside it, and siblings are apart.\<close>

lemma apart_below: "apart p q \<Longrightarrow> inside q r \<Longrightarrow> apart p r"
  using inside_comparable inside_trans by blast

lemma siblings_apart:
  assumes "plain_path p" "plain_name n" "plain_name m" "n \<noteq> m"
  shows "apart (path_join p n) (path_join p m)"
proof -
  have no: "\<not> inside (path_join p n) (path_join p m)" if "plain_name n" "plain_name m" "n \<noteq> m" for n m
    using that hd_in_set by (fastforce simp: inside_def join_plain(1) [OF assms(1)] plain_name_def)
  show ?thesis using no assms by blast
qed

section \<open>What the file system promises\<close>

text \<open>The files and listings that may change when only paths inside \<open>p\<close> are written.\<close>

definition outside_same :: "'f filesystem \<Rightarrow> path \<Rightarrow> 'f \<Rightarrow> 'f \<Rightarrow> bool" where
  "outside_same fs p f f' \<longleftrightarrow> (\<forall>q. \<not> inside p q \<longrightarrow> fs_read fs f' q = fs_read fs f q) \<and>
     (\<forall>d. apart d p \<longrightarrow> fs_read_dir fs f' d = fs_read_dir fs f d)"

definition copy_fs_ok :: "'f filesystem \<Rightarrow> bool" where
  "copy_fs_ok fs \<longleftrightarrow>
     (\<forall>p f. outside_same fs p f (fst (fs_create_dir_all fs p f))) \<and>
     (\<forall>p q f. outside_same fs q f (fst (fs_hard_link fs p q f))) \<and>
     (\<forall>p q f. outside_same fs q f (fst (fs_copy fs p q f))) \<and>
     (\<forall>p q f f' u. fs_hard_link fs p q f = (f', Inr u) \<longrightarrow> fs_read fs f' q = fs_read fs f p) \<and>
     (\<forall>p q f f' u. fs_copy fs p q f = (f', Inr u) \<longrightarrow> fs_read fs f' q = fs_read fs f p) \<and>
     (\<forall>p f es e. fs_read_dir fs f p = Inr es \<longrightarrow> Inr e \<in> set es \<longrightarrow> plain_name (entry_name e))"

lemma outside_same_refl [simp]: "outside_same fs p f f"
  by (simp add: outside_same_def)

lemma outside_same_trans: "outside_same fs p f g \<Longrightarrow> outside_same fs p g h \<Longrightarrow> outside_same fs p f h"
  by (simp add: outside_same_def)

lemma outside_same_below: "outside_same fs q f f' \<Longrightarrow> inside p q \<Longrightarrow> outside_same fs p f f'"
  using apart_below [of _ p q] inside_trans unfolding outside_same_def by blast

section \<open>The copy stays inside its destination\<close>

text \<open>One turn of the loop over the entries of a directory.\<close>

definition copy_one :: "'f filesystem \<Rightarrow> nat \<Rightarrow> path \<Rightarrow> dir_entry \<Rightarrow> 'f \<Rightarrow> 'f \<times> (RaftError + unit)" where
  "copy_one fs n dst entry f =
     (let src_path = entry_path entry; dst_path = path_join dst (entry_name entry) in
      case entry_meta entry of
        Inl e \<Rightarrow> (f, Inl (from_io_error e))
      | Inr ty \<Rightarrow>
          if is_dir ty then copy_dir fs n src_path dst_path f
          else if is_file ty
          then (case fs_hard_link fs src_path dst_path f of
                  (f, Inr _) \<Rightarrow> (f, Inr ())
                | (f, Inl _) \<Rightarrow> map_err_st from_io_error (fs_copy fs src_path dst_path f))
          else (f, Inr ()))"

lemma copy_entries_Cons:
  "copy_entries fs n dst (Inr entry # es) f = try_then (copy_one fs n dst entry f) (\<lambda>f _. copy_entries fs n dst es f)"
  by (auto simp: copy_one_def Let_def try_then_def map_err_st_def map_err_def split: sum.splits prod.splits)

lemma copy_dir_Suc:
  "copy_dir fs (Suc n) src dst f = try_then (map_err_st from_io_error (fs_create_dir_all fs dst f)) (\<lambda>f _.
     try_then (f, map_err from_io_error (fs_read_dir fs f src)) (\<lambda>f es. copy_entries fs n dst es f))"
  by (auto simp: try_then_def map_err_def split: sum.splits prod.splits)

declare copy_entries.simps(3) [simp del] copy_dir.simps(2) [simp del]

lemma copy_entries_frame:
  assumes one: "\<And>e f. plain_name (entry_name e) \<Longrightarrow> outside_same fs dst f (fst (copy_one fs n dst e f))"
    and "\<And>e. Inr e \<in> set es \<Longrightarrow> plain_name (entry_name e)"
  shows "outside_same fs dst f (fst (copy_entries fs n dst es f))"
  using assms(2)
proof (induction es arbitrary: f)
  case (Cons e es)
  show ?case
  proof (cases e)
    case (Inr entry)
    then have "outside_same fs dst f (fst (copy_one fs n dst entry f))" using one Cons.prems by simp
    then show ?thesis unfolding Inr copy_entries_Cons
      using Cons by (auto intro!: try_then_inv [where P = "outside_same fs dst f"] elim: outside_same_trans)
  qed simp
qed simp

lemma copy_one_frame:
  assumes ok: "copy_fs_ok fs" and "plain_path dst" "plain_name (entry_name e)"
    and sub: "\<And>src f. outside_same fs (path_join dst (entry_name e)) f (fst (copy_dir fs n src (path_join dst (entry_name e)) f))"
  shows "outside_same fs (path_join dst (entry_name e)) f (fst (copy_one fs n dst e f))"
proof -
  let ?to = "path_join dst (entry_name e)"
  have prim: "outside_same fs ?to f (fst (fs_hard_link fs p ?to f))" "outside_same fs ?to f (fst (fs_copy fs p ?to f))" for p f
    using ok by (simp_all add: copy_fs_ok_def)
  show ?thesis
    using sub [of f "entry_path e"] prim(1) [of f "entry_path e"]
    by (auto simp: copy_one_def Let_def split: sum.splits prod.splits intro: outside_same_trans [OF _ prim(2)])
qed

lemma copy_frame:
  assumes ok: "copy_fs_ok fs"
  shows "plain_path dst \<Longrightarrow> outside_same fs dst f (fst (copy_dir fs n src dst f))"
proof (induction n arbitrary: src dst f)
  case (Suc n)
  have one: "outside_same fs dst f (fst (copy_one fs n dst e f))" if "plain_name (entry_name e)" for e f
  proof -
    note j = join_plain [OF Suc.prems that]
    have "outside_same fs (path_join dst (entry_name e)) f (fst (copy_one fs n dst e f))"
      by (rule copy_one_frame [OF ok Suc.prems that]) (rule Suc.IH [OF j(2)])
    then show ?thesis using j(3) by (rule outside_same_below)
  qed
  have "outside_same fs dst f (fst (fs_create_dir_all fs dst f))" using ok by (simp add: copy_fs_ok_def)
  moreover have "outside_same fs dst g (fst (copy_entries fs n dst es g))" if "fs_read_dir fs g src = Inr es" for g es
    using that ok by (intro copy_entries_frame one) (auto simp: copy_fs_ok_def)
  ultimately show ?case unfolding copy_dir_Suc
    by (intro try_then_inv [where P = "outside_same fs dst f"]) (auto elim: outside_same_trans)
qed simp

section \<open>Directories as trees\<close>

text \<open>
  What a directory holds: files, directories, and entries that are neither, such as symbolic
  links, which the copy passes over.
\<close>

datatype dir_tree = FileTree bytes | DirTree "(string \<times> dir_tree) list" | OtherTree

fun proper :: "dir_tree \<Rightarrow> bool" where
  "proper (DirTree cs) \<longleftrightarrow> distinct (map fst cs) \<and> (\<forall>(n, t) \<in> set cs. plain_name n \<and> proper t)"
| "proper _ \<longleftrightarrow> True"

fun depth :: "dir_tree \<Rightarrow> nat" where
  "depth (DirTree cs) = Suc (Max (insert 0 ((\<lambda>(n, t). depth t) ` set cs)))"
| "depth _ = 0"

text \<open>A directory entry shows a child: its path, its name and its kind.\<close>

definition entry_shows :: "path \<Rightarrow> string + dir_entry \<Rightarrow> string \<times> dir_tree \<Rightarrow> bool" where
  "entry_shows p e c \<longleftrightarrow> (\<exists>en ty. e = Inr en \<and> entry_path en = path_join p (fst c) \<and> entry_name en = fst c \<and>
     entry_meta en = Inr ty \<and> is_dir ty = (\<exists>cs. snd c = DirTree cs) \<and> is_file ty = (\<exists>b. snd c = FileTree b))"

text \<open>The path lists the tree; and the weaker statement that its files can be read there.\<close>

fun listed :: "'f filesystem \<Rightarrow> 'f \<Rightarrow> path \<Rightarrow> dir_tree \<Rightarrow> bool" where
  "listed fs f p (FileTree b) \<longleftrightarrow> fs_read fs f p = Inr b"
| "listed fs f p (DirTree cs) \<longleftrightarrow>
     (\<exists>es. fs_read_dir fs f p = Inr es \<and> list_all2 (entry_shows p) es cs) \<and>
     (\<forall>(n, t) \<in> set cs. listed fs f (path_join p n) t)"
| "listed fs f p OtherTree \<longleftrightarrow> True"

fun readable :: "'f filesystem \<Rightarrow> 'f \<Rightarrow> path \<Rightarrow> dir_tree \<Rightarrow> bool" where
  "readable fs f p (FileTree b) \<longleftrightarrow> fs_read fs f p = Inr b"
| "readable fs f p (DirTree cs) \<longleftrightarrow> (\<forall>(n, t) \<in> set cs. readable fs f (path_join p n) t)"
| "readable fs f p OtherTree \<longleftrightarrow> True"

lemma listed_outside:
  "outside_same fs q f f' \<Longrightarrow> apart p q \<Longrightarrow> plain_path p \<Longrightarrow> proper t \<Longrightarrow> listed fs f p t \<Longrightarrow> listed fs f' p t"
proof (induction t arbitrary: p)
  case (DirTree cs)
  have "listed fs f' (path_join p n) t" if "(n, t) \<in> set cs" for n t
  proof -
    have pl: "plain_name n" "proper t" "listed fs f (path_join p n) t" using DirTree.prems that by auto
    note j = join_plain [OF DirTree.prems(3) pl(1)]
    have "apart (path_join p n) q" using apart_below [of q p] j(3) DirTree.prems(2) by blast
    then show ?thesis using DirTree.IH [of "(n, t)" t] that DirTree.prems(1) j(2) pl by auto
  qed
  then show ?case using DirTree.prems(1,2,5) by (auto simp: outside_same_def)
qed (auto simp: outside_same_def)

lemma readable_outside:
  "outside_same fs q f f' \<Longrightarrow> apart p q \<Longrightarrow> plain_path p \<Longrightarrow> proper t \<Longrightarrow> readable fs f p t \<Longrightarrow> readable fs f' p t"
proof (induction t arbitrary: p)
  case (DirTree cs)
  have "readable fs f' (path_join p n) t" if "(n, t) \<in> set cs" for n t
  proof -
    have pl: "plain_name n" "proper t" "readable fs f (path_join p n) t" using DirTree.prems that by auto
    note j = join_plain [OF DirTree.prems(3) pl(1)]
    have "apart (path_join p n) q" using apart_below [of q p] j(3) DirTree.prems(2) by blast
    then show ?thesis using DirTree.IH [of "(n, t)" t] that DirTree.prems(1) j(2) pl by auto
  qed
  then show ?case by auto
qed (auto simp: outside_same_def)

section \<open>A successful copy reproduces the tree\<close>

lemma copy_one_outside:
  assumes "copy_fs_ok fs" "plain_path dst" "plain_name (entry_name e)"
  shows "outside_same fs (path_join dst (entry_name e)) f (fst (copy_one fs n dst e f))"
  by (rule copy_one_frame [OF assms]) (rule copy_frame [OF assms(1) join_plain(2) [OF assms(2,3)]])

lemma copy_entries_keeps:
  assumes ok: "copy_fs_ok fs" "plain_path dst" and "list_all2 (entry_shows src) es cs"
    and p: "plain_path p" "proper t" and "\<forall>m \<in> fst ` set cs. plain_name m \<and> apart p (path_join dst m)" "readable fs f p t"
  shows "readable fs (fst (copy_entries fs n dst es f)) p t"
  using assms(3,6,7)
proof (induction es cs arbitrary: f rule: list_all2_induct)
  case (Cons e es c cs)
  then obtain en where e: "e = Inr en" "entry_name en = fst c" by (auto simp: entry_shows_def)
  have "readable fs (fst (copy_one fs n dst en f)) p t"
    using readable_outside [OF copy_one_outside [OF ok] _ p] Cons.prems e(2) by auto
  then show ?case unfolding e(1) copy_entries_Cons using Cons.IH Cons.prems(1)
    by (intro try_then_inv [where P = "\<lambda>f. readable fs f p t"]) auto
qed simp

text \<open>The children of a listed tree, and what the copy of one of them has to keep.\<close>

definition children_ready :: "'f filesystem \<Rightarrow> path \<Rightarrow> (string \<times> dir_tree) list \<Rightarrow> 'f \<Rightarrow> bool" where
  "children_ready fs src cs f \<longleftrightarrow> distinct (map fst cs) \<and> (\<forall>(n, t) \<in> set cs. plain_name n \<and> proper t \<and> listed fs f (path_join src n) t)"

lemma children_ready_outside:
  assumes "children_ready fs src cs f" "outside_same fs q f f'" "apart src q" "plain_path src"
  shows "children_ready fs src cs f'"
proof -
  have "listed fs f' (path_join src n) t" if "(n, t) \<in> set cs" for n t
  proof -
    have t: "plain_name n" "proper t" "listed fs f (path_join src n) t" using assms(1) that by (auto simp: children_ready_def)
    note j = join_plain [OF assms(4) t(1)]
    have "apart (path_join src n) q" using apart_below [of q src] j(3) assms(3) by blast
    then show ?thesis using listed_outside [OF assms(2) _ j(2) t(2,3)] by blast
  qed
  then show ?thesis using assms(1) by (auto simp: children_ready_def)
qed

lemma copy_one_children_ready:
  assumes "copy_fs_ok fs" "plain_path src" "plain_path dst" "apart src dst"
    and "children_ready fs src (c # cs) f" "entry_name en = fst c"
  shows "children_ready fs src cs (fst (copy_one fs n dst en f))"
proof -
  have c: "plain_name (entry_name en)" using assms(5,6) by (auto simp: children_ready_def)
  have "children_ready fs src cs f" using assms(5) by (auto simp: children_ready_def)
  then show ?thesis
    using copy_one_outside [OF assms(1,3) c] apart_below [OF assms(4) join_plain(3) [OF assms(3) c]] assms(2)
    by (rule children_ready_outside)
qed

lemma copy_one_readable:
  assumes ok: "copy_fs_ok fs" and "plain_path src" "plain_path dst" "apart src dst" and shows_c: "entry_shows src (Inr en) (m, t)"
    and "plain_name m" "listed fs f (path_join src m) t" and run: "copy_one fs n dst en f = (f', Inr u)"
    and sub: "\<And>cs. t = DirTree cs \<Longrightarrow> copy_dir fs n (path_join src m) (path_join dst m) f = (f', Inr u) \<Longrightarrow>
      readable fs f' (path_join dst m) t"
  shows "readable fs f' (path_join dst m) t"
proof (cases t)
  case (FileTree b)
  let ?s = "path_join src m" and ?d = "path_join dst m"
  have away: "\<not> inside ?d ?s"
    using apart_below [of ?s dst ?d] apart_below [of dst src ?s] assms(4) join_plain(3) assms(2,3,6) by blast
  obtain f1 r1 where link: "fs_hard_link fs ?s ?d f = (f1, r1)" by fastforce
  have "fs_read fs f1 ?s = fs_read fs f ?s"
    using link ok away unfolding copy_fs_ok_def outside_same_def by (metis fst_conv)
  moreover have "r1 = Inr v \<Longrightarrow> fs_read fs f1 ?d = fs_read fs f ?s" "fs_copy fs ?s ?d f1 = (f', Inr u) \<Longrightarrow> fs_read fs f' ?d = fs_read fs f1 ?s" for v
    using link ok unfolding copy_fs_ok_def by blast+
  ultimately show ?thesis
    using run shows_c link FileTree assms(7) by (auto simp: copy_one_def entry_shows_def split: sum.splits)
next
  case (DirTree cs)
  then show ?thesis using run shows_c sub by (auto simp: copy_one_def entry_shows_def)
qed simp

lemma copy_entries_readable:
  assumes ok: "copy_fs_ok fs" and p: "plain_path src" "plain_path dst" "apart src dst"
    and "list_all2 (entry_shows src) es cs" "children_ready fs src cs f" "copy_entries fs n dst es f = (f', Inr u)"
    and sub: "\<And>m t ds f f' u. (m, t) \<in> set cs \<Longrightarrow> t = DirTree ds \<Longrightarrow> listed fs f (path_join src m) t \<Longrightarrow>
      copy_dir fs n (path_join src m) (path_join dst m) f = (f', Inr u) \<Longrightarrow> readable fs f' (path_join dst m) t"
  shows "\<forall>(m, t) \<in> set cs. readable fs f' (path_join dst m) t"
  using assms(5-)
proof (induction es cs arbitrary: f rule: list_all2_induct)
  case (Cons e es c cs)
  obtain m t where c: "c = (m, t)" by fastforce
  obtain en where e: "e = Inr en" "entry_name en = m" using Cons.hyps(1) c by (auto simp: entry_shows_def)
  have r: "plain_name m" "proper t" "listed fs f (path_join src m) t" "m \<notin> fst ` set cs" "\<forall>k \<in> fst ` set cs. plain_name k"
    using Cons.prems(1) c by (auto simp: children_ready_def)
  obtain f1 v where one: "copy_one fs n dst en f = (f1, Inr v)" and rest: "copy_entries fs n dst es f1 = (f', Inr u)"
    using Cons.prems(2) by (auto simp: e copy_entries_Cons try_then_Inr)
  have "readable fs f1 (path_join dst m) t"
  proof (rule copy_one_readable [OF ok p _ r(1,3) one])
    show "entry_shows src (Inr en) (m, t)" using Cons.hyps(1) c e by simp
    show "readable fs f1 (path_join dst m) t"
      if "t = DirTree ds" "copy_dir fs n (path_join src m) (path_join dst m) f = (f1, Inr v)" for ds
      using that by (intro Cons.prems(3) [OF _ that(1) r(3)]) (simp_all add: c)
  qed
  moreover have "\<forall>k \<in> fst ` set cs. plain_name k \<and> apart (path_join dst m) (path_join dst k)"
    using siblings_apart [OF p(2) r(1)] r(4,5) by blast
  ultimately have "readable fs f' (path_join dst m) t"
    using copy_entries_keeps [OF ok p(2) Cons.hyps(2) join_plain(2) [OF p(2) r(1)] r(2)] rest by (metis fst_conv)
  moreover have "children_ready fs src cs f1"
    using copy_one_children_ready [OF ok p Cons.prems(1), of en n] one c e by simp
  then have "\<forall>(m, t) \<in> set cs. readable fs f' (path_join dst m) t"
    by (rule Cons.IH [OF _ rest]) (rule Cons.prems(3), simp_all)
  ultimately show ?case by (simp add: c)
qed simp

lemma copy_readable:
  assumes ok: "copy_fs_ok fs"
  shows "plain_path src \<Longrightarrow> plain_path dst \<Longrightarrow> apart src dst \<Longrightarrow> proper t \<Longrightarrow> listed fs f src t \<Longrightarrow> t = DirTree cs \<Longrightarrow>
    copy_dir fs n src dst f = (f', Inr u) \<Longrightarrow> readable fs f' dst t"
proof (induction t arbitrary: n src dst f f' u cs)
  case (DirTree ds)
  note p = DirTree.prems(1-3)
  from DirTree.prems(7) obtain k g es where n: "n = Suc k" and g: "fs_create_dir_all fs dst f = (g, Inr ())"
    and es: "fs_read_dir fs g src = Inr es" and run: "copy_entries fs k dst es g = (f', Inr u)"
    by (cases n) (auto simp: copy_dir_Suc try_then_Inr)
  have "outside_same fs dst f g" using ok g unfolding copy_fs_ok_def by (metis fst_conv)
  from listed_outside [OF this p(3,1) DirTree.prems(4,5)] have li: "listed fs g src (DirTree ds)" .
  then have "list_all2 (entry_shows src) es ds" "children_ready fs src ds g"
    using es DirTree.prems(4) by (auto simp: children_ready_def)
  then have "\<forall>(m, t) \<in> set ds. readable fs f' (path_join dst m) t"
  proof (rule copy_entries_readable [OF ok p _ _ run])
    fix m t cs h h' v
    assume c: "(m, t) \<in> set ds" "t = DirTree cs" "listed fs h (path_join src m) t"
      "copy_dir fs k (path_join src m) (path_join dst m) h = (h', Inr v)"
    have t: "plain_name m" "proper t" using c(1) DirTree.prems(4) by auto
    note j = join_plain [OF p(1) t(1)] join_plain [OF p(2) t(1)]
    have "apart (path_join src m) (path_join dst m)"
      using apart_below [of "path_join src m" dst] apart_below [of dst src] p(3) j(3,6) by blast
    then show "readable fs h' (path_join dst m) t"
      using DirTree.IH [of "(m, t)" t "path_join src m" "path_join dst m" h cs k h' v] c t j(2,5) by auto
  qed
  then show ?case by simp
qed simp_all

section \<open>The depth of the tree is fuel enough\<close>

lemma copy_one_fuel:
  assumes "entry_shows src (Inr en) (m, t)"
    and "\<And>cs. t = DirTree cs \<Longrightarrow> copy_dir fs n (path_join src m) (path_join dst m) f = copy_dir fs k (path_join src m) (path_join dst m) f"
  shows "copy_one fs n dst en f = copy_one fs k dst en f"
  using assms by (auto simp: copy_one_def entry_shows_def)

lemma copy_entries_fuel:
  assumes ok: "copy_fs_ok fs" and p: "plain_path src" "plain_path dst" "apart src dst"
    and "list_all2 (entry_shows src) es cs" "children_ready fs src cs f"
    and sub: "\<And>m t ds f. (m, t) \<in> set cs \<Longrightarrow> t = DirTree ds \<Longrightarrow> listed fs f (path_join src m) t \<Longrightarrow>
      copy_dir fs n (path_join src m) (path_join dst m) f = copy_dir fs k (path_join src m) (path_join dst m) f"
  shows "copy_entries fs n dst es f = copy_entries fs k dst es f"
  using assms(5-)
proof (induction es cs arbitrary: f rule: list_all2_induct)
  case (Cons e es c cs)
  obtain m t where c: "c = (m, t)" by fastforce
  obtain en where e: "e = Inr en" "entry_name en = m" using Cons.hyps(1) c by (auto simp: entry_shows_def)
  have li: "listed fs f (path_join src m) t" using Cons.prems(1) c by (auto simp: children_ready_def)
  have one: "copy_one fs n dst en f = copy_one fs k dst en f"
    using Cons.hyps(1) c e by (intro copy_one_fuel [of src en m t] Cons.prems(2) [OF _ _ li]) auto
  have children_ready: "children_ready fs src cs (fst (copy_one fs k dst en f))"
    by (rule copy_one_children_ready [OF ok p Cons.prems(1)]) (simp add: c e)
  have "copy_entries fs n dst es g = copy_entries fs k dst es g" if "copy_one fs k dst en f = (g, v)" for g v
    using children_ready that by (intro Cons.IH Cons.prems(2)) auto
  then show ?case by (auto simp: e(1) copy_entries_Cons one try_then_def split: prod.splits sum.splits)
qed simp

lemma copy_dir_fuel:
  assumes ok: "copy_fs_ok fs"
  shows "plain_path src \<Longrightarrow> plain_path dst \<Longrightarrow> apart src dst \<Longrightarrow> proper t \<Longrightarrow> listed fs f src t \<Longrightarrow> t = DirTree cs \<Longrightarrow>
    depth t \<le> n \<Longrightarrow> depth t \<le> k \<Longrightarrow> copy_dir fs n src dst f = copy_dir fs k src dst f"
proof (induction t arbitrary: n k src dst f cs)
  case (DirTree ds)
  note p = DirTree.prems(1-3)
  obtain n' k' where nk: "n = Suc n'" "k = Suc k'" using DirTree.prems(7,8) by (cases n; cases k) auto
  have le: "depth t \<le> n'" "depth t \<le> k'" if "(m, t) \<in> set ds" for m t
    using DirTree.prems(7,8) nk that by auto
  have "copy_entries fs n' dst es g = copy_entries fs k' dst es g"
    if g: "fs_create_dir_all fs dst f = (g, Inr ())" and es: "fs_read_dir fs g src = Inr es" for g es
  proof -
    have "outside_same fs dst f g" using ok g unfolding copy_fs_ok_def by (metis fst_conv)
    from listed_outside [OF this p(3,1) DirTree.prems(4,5)] have "listed fs g src (DirTree ds)" .
    then have "list_all2 (entry_shows src) es ds" "children_ready fs src ds g"
      using es DirTree.prems(4) by (auto simp: children_ready_def)
    then show ?thesis
    proof (rule copy_entries_fuel [OF ok p])
      fix m t cs h
      assume c: "(m, t) \<in> set ds" "t = DirTree cs" "listed fs h (path_join src m) t"
      have t: "plain_name m" "proper t" using c(1) DirTree.prems(4) by auto
      note j = join_plain [OF p(1) t(1)] join_plain [OF p(2) t(1)]
      have "apart (path_join src m) (path_join dst m)"
        using apart_below [of "path_join src m" dst] apart_below [of dst src] p(3) j(3,6) by blast
      then show "copy_dir fs n' (path_join src m) (path_join dst m) h = copy_dir fs k' (path_join src m) (path_join dst m) h"
        using DirTree.IH [of "(m, t)" t "path_join src m" "path_join dst m" h cs n' k'] c t le [OF c(1)] j(2,5) by auto
    qed
  qed
  then show ?case unfolding nk copy_dir_Suc by (auto simp: try_then_def split: prod.splits sum.splits)
qed simp_all

section \<open>Properties\<close>

lemma child_of_inside: "child_of d p \<Longrightarrow> inside d p"
proof -
  assume "child_of d p"
  then have "take (Suc (length d)) p = d @ ''/''" by (simp add: child_of_def Let_def)
  then have "p = d @ ''/'' @ drop (Suc (length d)) p" by (metis append.assoc append_take_drop_id)
  then show ?thesis by (auto simp: inside_def)
qed

lemma child_of_name: "child_of d p \<Longrightarrow> plain_name (drop (Suc (length d)) p)"
  by (simp add: child_of_def Let_def plain_name_def)

lemma mem_copy_fs_ok: "copy_fs_ok mem_fs"
proof -
  have create: "outside_same mem_fs p f (fst (fs_create_dir_all mem_fs p f))" for p f
    by (auto simp: outside_same_def mem_fs_def dest: child_of_inside split: option.splits node.splits)
  have kept: "filter (\<lambda>x. (case x of (r, n) \<Rightarrow> r \<noteq> q) \<and> (case x of (r, n) \<Rightarrow> child_of d r)) f = filter (\<lambda>(r, n). child_of d r) f"
    if "\<not> child_of d q" for d q and f :: mem_files
    using that by (induction f) auto
  have copy: "outside_same mem_fs q f (fst (fs_copy mem_fs p q f))" for p q f
    using child_of_inside
    by (auto simp: outside_same_def mem_fs_def map_of_filter_neq kept split: option.splits node.splits)
  show ?thesis unfolding copy_fs_ok_def
    by (intro conjI allI impI create copy)
      (auto simp: mem_fs_def plain_name_def child_of_def Let_def split: option.splits node.splits if_splits)
qed



abbreviation sample_dir :: mem_files where
  "sample_dir \<equiv> [(''base'', DirNode), (''base/a'', FileNode [1]), (''base/sub'', DirNode), (''base/sub/b'', FileNode [2])]"

abbreviation sample_dir_tree :: "(string \<times> dir_tree) list" where
  "sample_dir_tree \<equiv> [(''a'', FileTree [1]), (''sub'', DirTree [(''b'', FileTree [2])])]"

lemma sample_dir_ok:
  "plain_path ''base''" "plain_path ''tmp''" "apart ''base'' ''tmp''" "proper (DirTree sample_dir_tree)"
  "listed mem_fs sample_dir ''base'' (DirTree sample_dir_tree)" "depth (DirTree sample_dir_tree) = 2"
  by (simp_all add: plain_path_def inside_def plain_name_def path_join_def entry_shows_def mem_fs_def child_of_def node_meta_def)

lemma sample_copy:
  "copy_dir mem_fs 2 ''base'' ''tmp'' sample_dir =
     ([(''tmp/sub/b'', FileNode [2]), (''tmp/sub'', DirNode), (''tmp/a'', FileNode [1]), (''tmp'', DirNode)] @ sample_dir, Inr ())"
  by (simp add: numeral_2_eq_2 copy_dir_Suc copy_entries_Cons copy_one_def path_join_def mem_fs_def child_of_def node_meta_def)



end
