(* ===== verification/Catch_Up.thy ===== *)
theory Catch_Up
  imports Node_State
begin

text \<open>
  Whether a delta snapshot carries what was applied. The applied log of \<open>src/storage.rs\<close>
  (\<open>raft_logs\<close>) is written both when an entry is appended and when it is applied, and is not
  cut when the consensus log is truncated. Here it is followed through a run of applied
  entries: when nothing foreign is left in it, a follower that installs the delta ends with the
  data of the leader; what truncation leaves behind, on the other hand, goes into the delta.
\<close>

section \<open>The applied log of a run\<close>

definition entry_index :: "'m Entry \<Rightarrow> u64" where
  "entry_index e = li_index (entry_log_id e)"

text \<open>What an entry leaves in the applied log, and the delta entries made of that.\<close>

definition logged :: "KVRequest codec \<Rightarrow> 'm Entry \<Rightarrow> (u64 \<times> LogEntry) list" where
  "logged rc e = (case entry_payload e of
     Normal r \<Rightarrow> (case to_stdvec rc r of Inr b \<Rightarrow> [(entry_index e, LogEntry_new (li_term (entry_log_id e)) (entry_index e) b)] | Inl _ \<Rightarrow> [])
   | _ \<Rightarrow> [])"

abbreviation logged_all :: "KVRequest codec \<Rightarrow> 'm Entry list \<Rightarrow> (u64 \<times> LogEntry) list" where
  "logged_all rc es \<equiv> concat (map (logged rc) es)"

definition delta_entry :: "u64 \<times> LogEntry \<Rightarrow> DeltaEntry" where
  "delta_entry p = DeltaEntry_new (log_term (snd p)) (log_index (snd p)) (log_payload (snd p))"

definition encodable :: "KVRequest codec \<Rightarrow> 'm Entry \<Rightarrow> bool" where
  "encodable rc e \<longleftrightarrow> (\<forall>r. entry_payload e = Normal r \<longrightarrow> \<not> isl (to_stdvec rc r))"

lemma apply_payload_logs:
  assumes "apply_payload E e S = (S', Inr r)"
  shows "encodable (so_request E) e"
    "raft_logs S' = fold (\<lambda>(k, v). bt_insert k v) (logged (so_request E) e) (raft_logs S)"
    "snapshot_state (metadata S') = snapshot_state (metadata S)"
proof -
  have "encodable (so_request E) e \<and> raft_logs S' = fold (\<lambda>(k, v). bt_insert k v) (logged (so_request E) e) (raft_logs S) \<and>
    snapshot_state (metadata S') = snapshot_state (metadata S)"
  proof (cases "entry_payload e")
    case (Normal req)
    then obtain v where ap: "append_log_entry E (li_term (entry_log_id e)) (li_index (entry_log_id e)) req
        (S\<lparr>state_machine := kv_effect req (state_machine S)\<rparr>) = (S', Inr v)"
      using assms by (auto simp: apply_payload_def Let_def apply_request_eq try_then_Inr)
    then show ?thesis
      using append_log_entry_frame(4) [OF ap] Normal
      by (cases rule: append_log_entry_cases) (auto simp: encodable_def logged_def entry_index_def)
  qed (use assms in \<open>auto simp: apply_payload_def encodable_def logged_def\<close>)
  then show "encodable (so_request E) e"
    "raft_logs S' = fold (\<lambda>(k, v). bt_insert k v) (logged (so_request E) e) (raft_logs S)"
    "snapshot_state (metadata S') = snapshot_state (metadata S)" by blast+
qed

lemma apply_stream_logs:
  assumes "apply_stream E (map Inr xs) S sent = ((S', sent'), Inr u)"
  shows "\<forall>x \<in> set xs. encodable (so_request E) (fst x)"
    "raft_logs S' = fold (\<lambda>(k, v). bt_insert k v) (logged_all (so_request E) (map fst xs)) (raft_logs S)"
    "snapshot_state (metadata S') = snapshot_state (metadata S)"
proof -
  have "(\<forall>x \<in> set xs. encodable (so_request E) (fst x)) \<and>
    raft_logs S' = fold (\<lambda>(k, v). bt_insert k v) (logged_all (so_request E) (map fst xs)) (raft_logs S) \<and>
    snapshot_state (metadata S') = snapshot_state (metadata S)"
    using assms
  proof (induction xs arbitrary: S sent)
    case (Cons x xs)
    obtain e b where x: "x = (e, b)" by fastforce
    let ?a = "\<lparr>last_applied_index = li_index (entry_log_id e), last_applied_term = li_term (entry_log_id e)\<rparr>"
    obtain S1 q where 1: "apply_payload E e S = (S1, q)" by fastforce
    obtain S2 y where 2: "on_metadata (save_applied_state (so_kv E) (so_meta E) ?a) S1 = (S2, y)" by fastforce
    from Cons.prems 1 2 x obtain resp v where q: "q = Inr resp" and y: "y = Inr v"
      and rest: "apply_stream E (map Inr xs) S2 (if b then sent @ [resp] else sent) = ((S', sent'), Inr u)"
      by (cases q; cases y) (auto simp: Let_def)
    have "raft_logs S2 = raft_logs S1" using 2 by (auto simp: on_metadata_iff)
    then show ?case
      using Cons.IH [OF rest] apply_payload_logs [OF 1 [unfolded q]] save_applied_frame(5) [OF 2 [unfolded y]] x by simp
  qed simp
  then show "\<forall>x \<in> set xs. encodable (so_request E) (fst x)"
    "raft_logs S' = fold (\<lambda>(k, v). bt_insert k v) (logged_all (so_request E) (map fst xs)) (raft_logs S)"
    "snapshot_state (metadata S') = snapshot_state (metadata S)" by blast+
qed

lemma apply_stream_ends:
  assumes "apply_stream E (map Inr xs) S sent = ((S', sent'), Inr u)"
  shows "state_machine S' = fold kv_effect (requests_in (map fst xs)) (state_machine S)"
    "raft_entries S' = raft_entries S"
    "xs \<noteq> [] \<Longrightarrow> last_applied_index (applied_state (metadata S')) = entry_index (fst (last xs))"
proof -
  have "state_machine S' = fold kv_effect (requests_in (map fst xs)) (state_machine S) \<and> raft_entries S' = raft_entries S \<and>
    (xs \<noteq> [] \<longrightarrow> last_applied_index (applied_state (metadata S')) = entry_index (fst (last xs)))"
    using apply_stream_Inr [OF assms] by (auto simp: inj_map_eq_map entry_index_def)
  then show "state_machine S' = fold kv_effect (requests_in (map fst xs)) (state_machine S)"
    "raft_entries S' = raft_entries S"
    "xs \<noteq> [] \<Longrightarrow> last_applied_index (applied_state (metadata S')) = entry_index (fst (last xs))" by blast+
qed

text \<open>The entries of a run with increasing indexes are logged in that order, each under its index.\<close>

lemma logged_key: "(k, l) \<in> set (logged rc e) \<Longrightarrow> k = entry_index e \<and> (\<exists>r. entry_payload e = Normal r)"
  by (cases "entry_payload e") (auto simp: logged_def split: sum.splits)

lemma logged_sorted:
  assumes "sorted_wrt (<) (map entry_index es)"
  shows "sorted_wrt (<) (map fst (logged_all rc es))"
  using assms
proof (induction es)
  case (Cons e es)
  have "length (logged rc e) \<le> 1" by (simp add: logged_def split: EntryPayload.splits sum.splits)
  then have "sorted_wrt (<) (map fst (logged rc e))" by (cases "logged rc e") auto
  moreover have "fst p < fst q" if "p \<in> set (logged rc e)" "q \<in> set (logged_all rc es)" for p q
    using that Cons.prems logged_key [of "fst p" "snd p"] logged_key [of "fst q" "snd q"] by fastforce
  ultimately show ?case using Cons by (simp add: sorted_wrt_append split_paired_all)
qed simp

lemma logged_requests:
  assumes "codec_ok rc" "\<forall>e \<in> set es. encodable rc e"
  shows "requests_of rc (map delta_entry (logged_all rc es)) = Some (requests_in es)"
  using assms(2)
proof (induction es)
  case (Cons e es)
  then show ?case
    using codec_okD [OF assms(1)]
    by (cases "entry_payload e"; cases "to_stdvec rc (case entry_payload e of Normal r \<Rightarrow> r)")
      (auto simp: requests_in_def logged_def encodable_def delta_entry_def LogEntry_new_def DeltaEntry_new_def)
qed (simp add: requests_in_def)

section \<open>The delta of a clean log\<close>

lemma clean_candidates:
  assumes wf: "bt_wf (raft_logs L\<^sub>0)" and cp: "last_checkpoint (snapshot_state (metadata L\<^sub>0)) = Some cp"
    and run: "apply_stream E (map Inr xs) L\<^sub>0 [] = ((L, sent), Inr u)" and "xs \<noteq> []"
    and order: "sorted_wrt (<) (map (entry_index \<circ> fst) xs)" "\<forall>x \<in> set xs. checkpoint_index cp < entry_index (fst x)"
    and clean: "\<forall>(i, l) \<in> set (raft_logs L\<^sub>0). checkpoint_index cp < i \<longrightarrow> i \<in> fst ` set (logged_all (so_request E) (map fst xs))"
  shows "delta_candidates L = map delta_entry (logged_all (so_request E) (map fst xs))"
proof -
  let ?kvs = "logged_all (so_request E) (map fst xs)"
  let ?lo = "saturating_add (checkpoint_index cp) 1" and ?hi = "entry_index (fst (last xs))"
  note logs = apply_stream_logs [OF run]
  have sorted: "sorted_wrt (<) (map fst ?kvs)" using logged_sorted order(1) by (metis map_map)
  have wfL: "bt_wf (raft_logs L)" using bt.inv_fold_insert [OF wf] logs(2) by simp
  have get: "bt_get (raft_logs L) = bt_get (raft_logs L\<^sub>0) ++ map_of (rev ?kvs)"
    using bt.lookup_fold_insert [OF wf] logs(2) by simp
  have look: "map_of (rev ?kvs) k = Some l \<longleftrightarrow> (k, l) \<in> set ?kvs" for k l
  proof -
    have "distinct (map fst ?kvs)" using sorted by (simp only: strict_sorted_iff)
    then have "distinct (map fst (rev ?kvs))" by (simp only: rev_map [symmetric] distinct_rev)
    then show ?thesis by (simp only: map_of_eq_Some_iff set_rev)
  qed
  have bounds: "checkpoint_index cp < k" "k \<le> ?hi" if kv: "(k, l) \<in> set ?kvs" for k l
  proof -
    obtain x where x: "x \<in> set xs" "k = entry_index (fst x)" using kv logged_key by fastforce
    then show "checkpoint_index cp < k" using order(2) by blast
    obtain pre z where "xs = pre @ [z]" using \<open>xs \<noteq> []\<close> rev_exhaust by blast
    then show "k \<le> ?hi" using x order(1) by (auto simp: sorted_wrt_append less_imp_le)
  qed
  have succ: "?lo \<le> k \<longleftrightarrow> checkpoint_index cp < k" for k
    using order(2) \<open>xs \<noteq> []\<close> saturating_succ_le by (metis last_in_set word_order.extremum_strict not_less word_order.extremum)
  have range: "bt_range ?lo ?hi (raft_logs L) = ?kvs"
  proof (rule sorted_keys_unique [OF bt.rng_sorted [OF wfL] sorted])
    have "(k, l) \<in> set (bt_range ?lo ?hi (raft_logs L)) \<longleftrightarrow> (k, l) \<in> set ?kvs" for k l
    proof -
      have "(k, l) \<in> set (bt_range ?lo ?hi (raft_logs L)) \<longleftrightarrow> checkpoint_index cp < k \<and> k \<le> ?hi \<and> bt_get (raft_logs L) k = Some l"
        by (simp add: bt.rng_set [OF wfL] succ)
      moreover have "bt_get (raft_logs L\<^sub>0) k = None" if "checkpoint_index cp < k" "map_of (rev ?kvs) k = None"
      proof (rule ccontr)
        assume "bt_get (raft_logs L\<^sub>0) k \<noteq> None"
        then obtain l' where "(k, l') \<in> set (raft_logs L\<^sub>0)" using bt_get_iff [OF wf] by auto
        then have "k \<in> fst ` set ?kvs" using clean that(1) by fastforce
        then show False using that(2) by (auto simp: map_of_eq_None_iff)
      qed
      ultimately have "(k, l) \<in> set (bt_range ?lo ?hi (raft_logs L)) \<longleftrightarrow>
          checkpoint_index cp < k \<and> k \<le> ?hi \<and> map_of (rev ?kvs) k = Some l"
        unfolding get map_add_Some_iff by fastforce
      then show ?thesis unfolding look using bounds by blast
    qed
    then show "set (bt_range ?lo ?hi (raft_logs L)) = set ?kvs" by auto
  qed
  have "last_applied_index (applied_state (metadata L)) = ?hi" using apply_stream_ends(3) [OF run] \<open>xs \<noteq> []\<close> by (simp add: entry_index_def)
  moreover have "\<not> ?hi < ?lo" using succ order(2) \<open>xs \<noteq> []\<close> by (auto simp: not_less)
  ultimately show ?thesis
    using range cp logs(3) by (auto simp: delta_candidates_def applied_log_entries_def Let_def delta_entry_def not_less)
qed

text \<open>
  Claim C10: a delta brings a follower level with the leader. Let a leader apply entries after its
  last checkpoint, in order, with nothing in its applied log above the checkpoint but what these
  entries write there. A follower at the checkpoint with the data the leader had then, that
  installs the delta the leader builds, ends with exactly the data of the leader, and both answer
  every read alike.
\<close>

theorem delta_brings_follower_level:
  assumes codecs: "codec_ok (se_envelope (so_snap E))" "codec_ok (se_entries (so_snap E))" "zstd_ok (se_zstd (so_snap E))" "codec_ok (so_request E)"
    and log: "bt_wf (raft_logs L\<^sub>0)" "last_checkpoint (snapshot_state (metadata L\<^sub>0)) = Some cp"
    and run: "apply_stream E (map Inr xs) L\<^sub>0 [] = ((L, sent), Inr u)" "xs \<noteq> []"
    and order: "sorted_wrt (<) (map (entry_index \<circ> fst) xs)" "\<forall>x \<in> set xs. checkpoint_index cp < entry_index (fst x)"
    and clean: "\<forall>(i, l) \<in> set (raft_logs L\<^sub>0). checkpoint_index cp < i \<longrightarrow> i \<in> fst ` set (logged_all (so_request E) (map fst xs))"
    and built: "build_snapshot_auto E trm L = (L', Inr snap)"
      "decode_snapshot_payload (so_snap E) (snap_data snap) = Inr (Some (DecodedDelta m es))"
    and follower: "state_machine F = state_machine L\<^sub>0" "last_applied_index (applied_state (metadata F)) = checkpoint_index cp"
    and inst: "install_snapshot_auto E snap F = (F', Inr v)"
  shows "state_machine F' = state_machine L' \<and> (\<forall>key. Storage_read key F' = Storage_read key L')"
proof -
  note logs = apply_stream_logs [OF run(1)]
  have d: "es = delta_candidates L" "dm_format m = Delta (checkpoint_index cp) (of_nat (length (delta_candidates L)))"
    using built_delta [OF codecs(1-3) built] log(2) logs(3) by auto
  have "requests_of (so_request E) es = Some (requests_in (map fst xs))"
    using logged_requests [OF codecs(4), of "map fst xs"] logs(1) clean_candidates [OF log run order clean] d(1) by simp
  moreover have "apply_delta_entries E es F = (F', Inr v)"
    using inst built(2) d(2) follower(2) by (simp add: install_snapshot_auto_def)
  ultimately have "state_machine F' = fold kv_effect (requests_in (map fst xs)) (state_machine F)"
    using apply_delta_entries_Inr by fastforce
  moreover have "state_machine L = fold kv_effect (requests_in (map fst xs)) (state_machine L\<^sub>0)"
    by (rule apply_stream_ends(1) [OF run(1)])
  moreover have "state_machine L' = state_machine L" using build_snapshot_auto_data [of E trm L] built(1) by simp
  ultimately show ?thesis using follower(1) by (simp add: Storage_read_def)
qed

text \<open>A codec that round-trips the requests of the sample entries, and the run that produces them.\<close>

definition sample_requests :: "KVRequest codec" where
  "sample_requests = \<lparr>
     to_stdvec = (\<lambda>r. case r of
         Set k v \<Rightarrow> if k = ''a'' \<and> v \<noteq> [3] then Inr v else Inl ''unsupported''
       | Delete k \<Rightarrow> if k = ''b'' then Inr [3] else Inl ''unsupported''),
     from_bytes = (\<lambda>b. if b = [3] then Inr (Delete ''b'') else Inr (Set ''a'' b))\<rparr>"

abbreviation level_env :: "(mem_tree, mem_txn, mem_files, unit) storage_env" where
  "level_env \<equiv> loose_env\<lparr>so_request := sample_requests\<rparr>"

abbreviation sample_run :: "(unit Entry \<times> bool) list" where
  "sample_run \<equiv> [(set_entry 1 10 ''a'' [1, 2], True),
     (\<lparr>entry_log_id = new_term_index 1 11, entry_payload = Normal (Delete ''b'')\<rparr>, False)]"

lemma sample_requests_ok: "codec_ok sample_requests"
  by (auto simp: codec_ok_def sample_requests_def split: KVRequest.splits if_splits)

lemma level_append:
  assumes "to_stdvec sample_requests req = Inr p"
  shows "append_log_entry level_env trm index req S =
     (S\<lparr>raft_logs := bt_insert index (LogEntry_new trm index p) (raft_logs S),
        metadata := (metadata S)\<lparr>tree := (tree (metadata S))(key_applied := Some []),
          applied_state := \<lparr>last_applied_index = index, last_applied_term = trm\<rparr>\<rparr>\<rparr>, Inr ())"
  using assms by (simp add: append_log_entry_def loose_env_def on_metadata_def mem_save_applied loose_codec_def)

lemma level_run:
  obtains L where "apply_stream level_env (map Inr sample_run) sample_follower [] = ((L, [Ok]), Inr ())"
    "st_world L = mem_world [] (\<lambda>_. 5)" "merge_executor L = None"
proof -
  have "to_stdvec sample_requests (Set ''a'' [1, 2]) = Inr [1, 2]" "to_stdvec sample_requests (Delete ''b'') = Inr [3]"
    by (simp_all add: sample_requests_def)
  note ap = this [THEN level_append]
  have "\<exists>L. apply_stream level_env (map Inr sample_run) sample_follower [] = ((L, [Ok]), Inr ()) \<and>
      st_world L = mem_world [] (\<lambda>_. 5) \<and> merge_executor L = None"
    by (simp add: apply_payload_def set_entry_def apply_request_def ap loose_save_applied Let_def sample_node_def)
  with that show thesis by blast
qed

theorem delta_brings_follower_level_witness:
  "\<exists>L L' snap F'. apply_stream level_env (map Inr sample_run) sample_follower [] = ((L, [Ok]), Inr ()) \<and>
     build_snapshot_auto level_env 1 L = (L', Inr snap) \<and>
     install_snapshot_auto level_env snap sample_follower = (F', Inr ()) \<and>
     state_machine F' = state_machine L' \<and> (\<forall>key. Storage_read key F' = Storage_read key L')"
proof -
  let ?E = level_env and ?m = "env_metadata sample_delta_envelope" and ?cp = "PersistedCheckpointMetadata_new 9 1 7 5"
  obtain L where run: "apply_stream ?E (map Inr sample_run) sample_follower [] = ((L, [Ok]), Inr ())"
    and w: "st_world L = mem_world [] (\<lambda>_. 5)" "merge_executor L = None" by (rule level_run)
  have log: "bt_wf (raft_logs sample_follower)" "last_checkpoint (snapshot_state (metadata sample_follower)) = Some ?cp"
    by (simp_all add: sample_node_def sample_state_checkpoint bt.inv_empty)
  have ne: "sample_run \<noteq> []" by simp
  have order: "sorted_wrt (<) (map (entry_index \<circ> fst) sample_run)" "\<forall>x \<in> set sample_run. checkpoint_index ?cp < entry_index (fst x)"
    by (simp_all add: entry_index_def set_entry_def new_term_index_def sample_state_checkpoint)
  have clean: "\<forall>(i, l) \<in> set (raft_logs sample_follower). checkpoint_index ?cp < i \<longrightarrow>
      i \<in> fst ` set (logged_all (so_request ?E) (map fst sample_run))"
    by (simp add: sample_node_def)
  have cand: "delta_candidates L = sample_entries"
    using clean_candidates [OF log run ne order clean]
    by (simp add: logged_def set_entry_def sample_requests_def delta_entry_def entry_index_def new_term_index_def
        LogEntry_new_def sample_entries_def)
  have snapE: "so_snap ?E = sample_env [sample_delta_envelope]" by (simp add: loose_env_def)
  have "snapshot_state (metadata L) = sample_state" using apply_stream_logs(3) [OF run] by (simp add: sample_node_def)
  moreover have "last_applied_index (applied_state (metadata L)) = 11"
    using apply_stream_ends(3) [OF run ne] by (simp add: entry_index_def new_term_index_def)
  ultimately obtain L' snap where built: "build_snapshot_auto ?E 1 L = (L', Inr snap)"
      "decode_snapshot_payload (so_snap ?E) (snap_data snap) = Inr (Some (DecodedDelta ?m sample_entries))"
    using sample_build [OF refl cand _ _ w, folded snapE] by blast
  have "dm_format ?m = Delta 9 2"
    by (simp add: sample_delta_envelope_def DeltaMetadata_with_file_path_def DeltaMetadata_new_def)
  moreover have "\<exists>F'. apply_delta_entries ?E sample_entries sample_follower = (F', Inr ())"
    by (simp add: sample_entries_def DeltaEntry_new_def loose_env_def sample_requests_def apply_request_def append_log_entry_def
        on_metadata_def mem_save_applied loose_codec_def)
  ultimately obtain F' where inst: "install_snapshot_auto ?E snap sample_follower = (F', Inr ())"
    using built(2) by (auto simp: install_snapshot_auto_def sample_node_def MetadataManager_new_def)
  have codecs: "codec_ok (se_envelope (so_snap ?E))" "codec_ok (se_entries (so_snap ?E))" "zstd_ok (se_zstd (so_snap ?E))" "codec_ok (so_request ?E)"
    using loose_env_ok sample_requests_ok by simp_all
  have F: "last_applied_index (applied_state (metadata sample_follower)) = checkpoint_index ?cp"
    by (simp add: sample_node_def sample_state_checkpoint)
  show ?thesis
    using run built(1) inst delta_brings_follower_level [OF codecs log run ne order clean built refl F inst] by blast
qed

section \<open>What truncation leaves behind\<close>

text \<open>
  Claim C40: an entry that was truncated away comes back in a delta. A node appends a request at an
  index above its checkpoint, the entry is truncated because another leader has a blank entry
  there, and that blank entry is appended and applied. The consensus log then holds the blank
  entry and the state machine has not seen the request; but the applied log still holds it, so
  the delta the node builds next contains the request as if it had been committed.
\<close>

theorem truncated_entry_enters_delta:
  assumes wf: "bt_wf (raft_logs S)" "bt_wf (raft_entries S)"
    and cp: "last_checkpoint (snapshot_state (metadata S)) = Some cp" "checkpoint_index cp < entry_index e"
    and e: "entry_payload e = Normal req" and b: "entry_payload b = Blank" "entry_index b = entry_index e"
    and run: "Raft_append E [e] S = (S\<^sub>1, Inr u\<^sub>1)" "truncate_after l S\<^sub>1 = (S\<^sub>2, Inr u\<^sub>2)"
      "Raft_append E [b] S\<^sub>2 = (S\<^sub>3, Inr u\<^sub>3)" "apply_stream E [Inr (b, waits)] S\<^sub>3 [] = ((S\<^sub>4, sent), Inr u\<^sub>4)"
  shows "bt_get (raft_entries S\<^sub>4) (entry_index e) = Some b \<and> state_machine S\<^sub>4 = state_machine S \<and>
    (\<exists>payload. to_stdvec (so_request E) req = Inr payload \<and>
       DeltaEntry_new (li_term (entry_log_id e)) (entry_index e) payload \<in> set (delta_candidates S\<^sub>4))"
proof -
  from run(1) e obtain A v where ap: "append_log_entry E (li_term (entry_log_id e)) (li_index (entry_log_id e)) req S = (A, Inr v)"
    and S1: "S\<^sub>1 = A\<lparr>raft_entries := bt_insert (li_index (entry_log_id e)) e (raft_entries A)\<rparr>"
    by (cases "append_log_entry E (li_term (entry_log_id e)) (li_index (entry_log_id e)) req S";
        cases "snd (append_log_entry E (li_term (entry_log_id e)) (li_index (entry_log_id e)) req S)") (auto simp: Let_def)
  note frame = append_log_entry_frame [OF ap]
  obtain payload where pay: "to_stdvec (so_request E) req = Inr payload"
    and get: "bt_get (raft_logs A) (entry_index e) = Some (LogEntry_new (li_term (entry_log_id e)) (entry_index e) payload)"
    using frame(5) [OF wf(1)] by (auto simp: entry_index_def)
  have wfA: "bt_wf (raft_logs A)" using ap bt_wf_insert [OF wf(1)] by (cases rule: append_log_entry_cases) auto
  have kept: "bt_wf (bt_retain P (bt_insert (li_index (entry_log_id e)) e (raft_entries S)))" for P
    by (rule bt.inv_retain) (rule bt.inv_insert [OF wf(2)])
  have S2: "raft_logs S\<^sub>2 = raft_logs A" "state_machine S\<^sub>2 = state_machine S" "metadata S\<^sub>2 = metadata A" "bt_wf (raft_entries S\<^sub>2)"
    using run(2) frame(1,2) by (auto simp: truncate_after_def S1 split: option.splits intro: kept)
  have S3: "S\<^sub>3 = S\<^sub>2\<lparr>raft_entries := bt_insert (entry_index e) b (raft_entries S\<^sub>2)\<rparr>"
    using run(3) b by (simp add: entry_index_def)
  have "apply_stream E (map Inr [(b, waits)]) S\<^sub>3 [] = ((S\<^sub>4, sent), Inr u\<^sub>4)" using run(4) by (simp only: list.map)
  note logs = apply_stream_logs [OF this] and ends = apply_stream_ends [OF this]
  have logL: "raft_logs S\<^sub>4 = raft_logs A" "snapshot_state (metadata S\<^sub>4) = snapshot_state (metadata S)"
    using logs b(1) S3 S2 frame(4) by (simp_all add: logged_def)
  have hi: "last_applied_index (applied_state (metadata S\<^sub>4)) = entry_index e" using ends(3) b(2) by (simp add: entry_index_def)
  have "checkpoint_index cp \<noteq> - 1" using cp(2) by (auto simp: word_order.extremum_strict)
  then have lo: "saturating_add (checkpoint_index cp) 1 \<le> entry_index e" using saturating_succ_le cp(2) by blast
  have "(entry_index e, LogEntry_new (li_term (entry_log_id e)) (entry_index e) payload) \<in>
      set (bt_range (saturating_add (checkpoint_index cp) 1) (entry_index e) (raft_logs A))"
    using get lo by (simp add: bt.rng_set [OF wfA])
  then have "DeltaEntry_new (li_term (entry_log_id e)) (entry_index e) payload \<in> set (delta_candidates S\<^sub>4)"
    using cp(1) logL hi lo by (force simp: delta_candidates_def applied_log_entries_def Let_def LogEntry_new_def)
  moreover have "bt_get (raft_entries S\<^sub>4) (entry_index e) = Some b" by (simp add: ends(2) S3 bt_get_insert [OF S2(4)])
  moreover have "state_machine S\<^sub>4 = state_machine S" using ends(1) b(1) S3 S2(2) by (simp add: requests_in_def)
  ultimately show ?thesis using pay by blast
qed

theorem truncated_entry_enters_delta_witness:
  "\<exists>S\<^sub>1 S\<^sub>2 S\<^sub>3 S\<^sub>4 sent. Raft_append loose_env [set_entry 1 10 ''a'' [7]] sample_follower = (S\<^sub>1, Inr ()) \<and>
     truncate_after (Some (new_term_index 1 9)) S\<^sub>1 = (S\<^sub>2, Inr ()) \<and>
     Raft_append loose_env [small_entry 2 10] S\<^sub>2 = (S\<^sub>3, Inr ()) \<and>
     apply_stream loose_env [Inr (small_entry 2 10, False)] S\<^sub>3 [] = ((S\<^sub>4, sent), Inr ()) \<and>
     bt_get (raft_entries S\<^sub>4) 10 = Some (small_entry 2 10) \<and> state_machine S\<^sub>4 ''a'' = None \<and>
     DeltaEntry_new 1 10 [] \<in> set (delta_candidates S\<^sub>4)"
proof -
  let ?e = "set_entry 1 10 ''a'' [7]" and ?b = "small_entry 2 10" and ?cp = "PersistedCheckpointMetadata_new 9 1 7 5"
  obtain S\<^sub>1 S\<^sub>2 where 1: "Raft_append loose_env [?e] sample_follower = (S\<^sub>1, Inr ())"
    and 2: "truncate_after (Some (new_term_index 1 9)) S\<^sub>1 = (S\<^sub>2, Inr ())"
    by (simp add: set_entry_def loose_append Let_def truncate_after_def)
  obtain S\<^sub>3 S\<^sub>4 sent where 3: "Raft_append loose_env [?b] S\<^sub>2 = (S\<^sub>3, Inr ())"
    and 4: "apply_stream loose_env [Inr (?b, False)] S\<^sub>3 [] = ((S\<^sub>4, sent), Inr ())"
    by (simp add: small_entry_def Let_def apply_payload_def loose_save_applied)
  have wf: "bt_wf (raft_logs sample_follower)" "bt_wf (raft_entries sample_follower)" by (simp_all add: sample_node_def bt.inv_empty)
  have cp: "last_checkpoint (snapshot_state (metadata sample_follower)) = Some ?cp" "checkpoint_index ?cp < entry_index ?e"
    by (simp_all add: sample_node_def sample_state_checkpoint entry_index_def set_entry_def new_term_index_def)
  have es: "entry_payload ?e = Normal (Set ''a'' [7])" "entry_payload ?b = Blank" "entry_index ?b = entry_index ?e"
    by (simp_all add: set_entry_def small_entry_def entry_index_def new_term_index_def)
  show ?thesis
    using 1 2 3 4 truncated_entry_enters_delta [OF wf cp es 1 2 3 4]
    by (auto simp: entry_index_def set_entry_def new_term_index_def sample_node_def loose_env_def)
qed

end
