(* ===== verification/Replica_Spec.thy ===== *)
theory Replica_Spec
  imports Raft_Storage
begin

text \<open>
  What a node's storage promises to the consensus layer, as an abstract replica: a log, a vote,
  key-value data and a membership, and what each call may answer and do to them, errors
  included. \<open>simulation\<close> is the interface between this specification and an implementation: when
  every call of the implementation is one of the specification, so are its runs.
\<close>

section \<open>Simulation\<close>

text \<open>A run: the calls with their answers, one after the other.\<close>

inductive runs :: "('s \<Rightarrow> 'c \<Rightarrow> 'r \<Rightarrow> 's \<Rightarrow> bool) \<Rightarrow> 's \<Rightarrow> ('c \<times> 'r) list \<Rightarrow> 's \<Rightarrow> bool" for serve where
  no_call: "runs serve s [] s"
| one_call: "serve s c r s' \<Longrightarrow> runs serve s' tr s'' \<Longrightarrow> runs serve s ((c, r) # tr) s''"

inductive_simps runs_Nil [simp]: "runs serve s [] s'"
inductive_simps runs_Cons [simp]: "runs serve s ((c, r) # tr) s'"

lemma runs_append: "runs serve s (tr @ tr') s'' \<longleftrightarrow> (\<exists>s'. runs serve s tr s' \<and> runs serve s' tr' s'')"
proof (induction tr arbitrary: s)
  case (Cons x tr)
  then show ?case by (cases x) auto
qed simp

locale simulation =
  fixes serve :: "'s \<Rightarrow> 'c \<Rightarrow> 'r \<Rightarrow> 's \<Rightarrow> bool"
    and spec :: "'a \<Rightarrow> 'c \<Rightarrow> 'r \<Rightarrow> 'a \<Rightarrow> bool"
    and abstraction :: "'s \<Rightarrow> 'a"
    and good :: "'s \<Rightarrow> bool"
  assumes serve_good: "good s \<Longrightarrow> serve s c r s' \<Longrightarrow> good s'"
    and serve_spec: "good s \<Longrightarrow> serve s c r s' \<Longrightarrow> spec (abstraction s) c r (abstraction s')"
begin

lemma runs_spec:
  assumes "runs serve s tr s'" and "good s"
  shows "good s'" "runs spec (abstraction s) tr (abstraction s')"
proof -
  have "good s' \<and> runs spec (abstraction s) tr (abstraction s')"
    using assms
  proof (induction rule: runs.induct)
    case (one_call s c r s' tr s'')
    then show ?case using serve_good serve_spec by (blast intro: runs.one_call)
  qed (simp add: runs.no_call)
  then show "good s'" "runs spec (abstraction s) tr (abstraction s')" by blast+
qed

end

section \<open>Calls and answers\<close>

datatype 'm storage_call =
    CallAppend "'m Entry list"
  | CallTruncate "LogId option"
  | CallPurge LogId
  | CallReadLog "bound \<times> bound"
  | CallLogState
  | CallSaveVote Vote
  | CallReadVote
  | CallApply "(string + 'm Entry \<times> bool) list"
  | CallInstall "'m SnapshotMeta" bytes
  | CallBuild
  | CallRecover
  | CallMerge MergeTrigger
  | CallWrite KVRequest
  | CallRead string
  | CallRestart

text \<open>
  \<open>Logged\<close> has what the callback of an append was told and what the append returned,
  \<open>Responded\<close> the responses that were sent while entries were applied and the result.
\<close>

datatype 'm answer =
    Returned
  | Failed string
  | Logged "(string + unit) list" "string + unit"
  | Responded "KVResponse list" "string + unit"
  | Entries "'m Entry list"
  | LogStateIs LogState
  | Voted "Vote option"
  | Found "bytes option"

fun answer_of :: "('r \<Rightarrow> 'm answer) \<Rightarrow> string + 'r \<Rightarrow> 'm answer" where
  "answer_of f (Inl e) = Failed e"
| "answer_of f (Inr x) = f x"

abbreviation ended :: "string + 'r \<Rightarrow> 'm answer" where
  "ended r \<equiv> answer_of (\<lambda>_. Returned) r"

section \<open>The abstract replica\<close>

record 'm replica =
  rep_log :: "u64 \<Rightarrow> 'm Entry option"
  rep_purged :: "LogId option"
  rep_vote :: "string + Vote option"
  rep_data :: "string \<Rightarrow> bytes option"
  rep_members :: "'m StoredMembership"

definition write_entries :: "'m Entry list \<Rightarrow> (u64 \<Rightarrow> 'm Entry option) \<Rightarrow> u64 \<Rightarrow> 'm Entry option" where
  "write_entries es log = log ++ map_of (rev (map (\<lambda>e. (li_index (entry_log_id e), e)) es))"

definition apply_entries_to :: "'m Entry list \<Rightarrow> 'm replica \<Rightarrow> 'm replica" where
  "apply_entries_to es a = a\<lparr>rep_data := fold kv_effect (requests_in es) (rep_data a),
     rep_members := membership_after es (rep_members a)\<rparr>"

text \<open>The entries a stream delivers before its first error.\<close>

definition delivered :: "(string + 'm Entry \<times> bool) list \<Rightarrow> 'm Entry list" where
  "delivered items = map (fst \<circ> projr) (takeWhile (Not \<circ> isl) items)"

text \<open>
  What may remain of a vote whose save failed half-way on a node that had never saved one: the
  term and the candidate, as a vote that is not committed.
\<close>

definition half_saved :: "Vote \<Rightarrow> Vote option" where
  "half_saved v = map_option (\<lambda>id. \<lparr>vote_term = vote_term v, vote_voted_for = Some id, vote_committed = False\<rparr>) (vote_voted_for v)"

text \<open>
  \<open>carried\<close> are the requests in the data of a snapshot, \<open>members\<close> is the membership of a fresh
  node. A restart keeps the vote and nothing else.
\<close>

inductive replica_serves ::
  "(bytes \<Rightarrow> KVRequest list) \<Rightarrow> 'm StoredMembership \<Rightarrow> 'm replica \<Rightarrow> 'm storage_call \<Rightarrow> 'm answer \<Rightarrow> 'm replica \<Rightarrow> bool"
  for carried members where
  appended: "replica_serves carried members a (CallAppend es) (Logged [Inr ()] (Inr ()))
    (a\<lparr>rep_log := write_entries es (rep_log a)\<rparr>)"
| append_stopped: "k < length es \<Longrightarrow> replica_serves carried members a (CallAppend es) (Logged [] (Inl e))
    (a\<lparr>rep_log := write_entries (take k es) (rep_log a)\<rparr>)"
| truncated: "replica_serves carried members a (CallTruncate l) Returned
    (a\<lparr>rep_log := (\<lambda>i. case l of None \<Rightarrow> None | Some p \<Rightarrow> if i \<le> li_index p then rep_log a i else None)\<rparr>)"
| purged: "replica_serves carried members a (CallPurge p) Returned
    (a\<lparr>rep_log := (\<lambda>i. if li_index p < i then rep_log a i else None), rep_purged := Some p\<rparr>)"
| log_read: "\<lbrakk>sorted_wrt (<) (map (\<lambda>e. li_index (entry_log_id e)) es);
    fst r \<noteq> Excluded (- 1) \<Longrightarrow> snd r \<noteq> Excluded 0 \<Longrightarrow> set es = {e. \<exists>i. in_range r i \<and> rep_log a i = Some e};
    set es \<subseteq> {e. \<exists>i. rep_log a i = Some e}\<rbrakk> \<Longrightarrow>
    replica_serves carried members a (CallReadLog r) (Entries es) a"
| log_state: "\<lbrakk>ls_last_purged_log_id ls = rep_purged a;
    \<And>i e. rep_log a i = Some e \<Longrightarrow> (\<And>j. i < j \<Longrightarrow> rep_log a j = None) \<Longrightarrow> ls_last_log_id ls = Some (entry_log_id e);
    (\<And>i. rep_log a i = None) \<Longrightarrow> ls_last_log_id ls = rep_purged a\<rbrakk> \<Longrightarrow>
    replica_serves carried members a CallLogState (LogStateIs ls) a"
| vote_saved: "replica_serves carried members a (CallSaveVote v) Returned (a\<lparr>rep_vote := Inr (Some v)\<rparr>)"
| vote_not_saved: "b \<in> {rep_vote a, Inr (half_saved v)} \<Longrightarrow>
    replica_serves carried members a (CallSaveVote v) (Failed e) (a\<lparr>rep_vote := b\<rparr>)"
| vote_read: "rep_vote a = Inr v \<Longrightarrow> replica_serves carried members a CallReadVote (Voted v) a"
| vote_not_read: "replica_serves carried members a CallReadVote (Failed e) a"
| entries_applied: "replica_serves carried members a (CallApply (map Inr xs))
    (Responded (replicate (length (filter snd xs)) Ok) (Inr ())) (apply_entries_to (map fst xs) a)"
| apply_stopped: "k \<le> length (delivered items) \<Longrightarrow>
    replica_serves carried members a (CallApply items) (Responded sent (Inl e)) (apply_entries_to (take k (delivered items)) a)"
| snapshot_installed: "replica_serves carried members a (CallInstall meta data) Returned
    (a\<lparr>rep_data := fold kv_effect (carried data) (rep_data a), rep_members := meta_last_membership meta\<rparr>)"
| install_stopped: "k \<le> length (carried data) \<Longrightarrow> replica_serves carried members a (CallInstall meta data) (Failed e)
    (a\<lparr>rep_data := fold kv_effect (take k (carried data)) (rep_data a)\<rparr>)"
| internal: "c \<in> {CallBuild, CallRecover} \<union> range CallMerge \<Longrightarrow> r \<in> insert Returned (range Failed) \<Longrightarrow>
    replica_serves carried members a c r a"
| written: "replica_serves carried members a (CallWrite req) Returned (a\<lparr>rep_data := kv_effect req (rep_data a)\<rparr>)"
| data_read: "replica_serves carried members a (CallRead key) (Found (rep_data a key)) a"
| restarted: "replica_serves carried members a CallRestart Returned
    \<lparr>rep_log = (\<lambda>_. None), rep_purged = None, rep_vote = rep_vote a, rep_data = (\<lambda>_. None), rep_members = members\<rparr>"

lemma write_entries_Nil [simp]: "write_entries [] log = log"
  by (simp add: write_entries_def)

lemma write_entries_Cons: "write_entries (e # es) log = write_entries es (log(li_index (entry_log_id e) \<mapsto> e))"
  by (auto simp: write_entries_def map_add_def fun_eq_iff split: option.splits)

lemma delivered_simps [simp]:
  "delivered [] = []" "delivered (Inl e # items) = []" "delivered (Inr x # items) = fst x # delivered items"
  "delivered (map Inr xs) = map fst xs"
proof -
  show "delivered (map Inr xs) = map fst xs" by (induction xs) (simp_all add: delivered_def)
qed (simp_all add: delivered_def)

section \<open>Properties of the replica\<close>

lemma vote_kept:
  assumes "runs (replica_serves carried members) a tr a'" and "\<forall>(c, r) \<in> set tr. \<forall>v. c \<noteq> CallSaveVote v"
  shows "rep_vote a' = rep_vote a"
  using assms
proof (induction rule: runs.induct)
  case (one_call a c r a' tr a'')
  from one_call(1) one_call.prems have "rep_vote a' = rep_vote a"
    by (cases rule: replica_serves.cases) (auto simp: apply_entries_to_def)
  with one_call show ?case by simp
qed simp

text \<open>A call that leaves the entry at an index in the log, unless it is overwritten.\<close>

fun spares :: "u64 \<Rightarrow> 'm storage_call \<Rightarrow> bool" where
  "spares i (CallTruncate l) = (case l of None \<Rightarrow> False | Some p \<Rightarrow> i \<le> li_index p)"
| "spares i (CallPurge p) = (li_index p < i)"
| "spares i CallRestart = False"
| "spares i c = True"

lemma write_entries_Some:
  "write_entries es log i = Some e \<Longrightarrow> e \<in> set es \<and> li_index (entry_log_id e) = i \<or> log i = Some e"
  by (auto simp: write_entries_def map_add_Some_iff dest!: map_of_SomeD)

lemma log_origin:
  assumes "runs (replica_serves carried members) a tr a'" and "rep_log a' i = Some e"
  shows "rep_log a i = Some e \<and> (\<forall>(c, r) \<in> set tr. spares i c) \<or>
    (\<exists>before es r after. tr = before @ (CallAppend es, r) # after \<and> e \<in> set es \<and> li_index (entry_log_id e) = i \<and>
       (\<forall>(c, r) \<in> set after. spares i c))"
  using assms
proof (induction rule: runs.induct)
  case (one_call a c r a' tr a'')
  from one_call.IH [OF one_call.prems] show ?case
  proof (elim disjE exE conjE)
    assume kept: "rep_log a' i = Some e" "\<forall>(c, r) \<in> set tr. spares i c"
    from one_call(1) kept(1) have "rep_log a i = Some e \<and> spares i c \<or> (\<exists>es. c = CallAppend es \<and> e \<in> set es \<and> li_index (entry_log_id e) = i)"
      by (cases rule: replica_serves.cases)
        (auto simp: apply_entries_to_def dest!: write_entries_Some dest: in_set_takeD split: option.splits if_splits)
    then show ?thesis
    proof (elim disjE exE conjE)
      fix es assume "c = CallAppend es" "e \<in> set es" "li_index (entry_log_id e) = i"
      then have "(c, r) # tr = [] @ (CallAppend es, r) # tr \<and> e \<in> set es \<and> li_index (entry_log_id e) = i \<and> (\<forall>(c, r) \<in> set tr. spares i c)"
        using kept(2) by simp
      then show ?thesis by blast
    qed (use kept(2) in auto)
  next
    fix before es q after
    assume "tr = before @ (CallAppend es, q) # after" "e \<in> set es" "li_index (entry_log_id e) = i" "\<forall>(c, r) \<in> set after. spares i c"
    then show ?thesis by (intro disjI2 exI [of _ "(c, r) # before"]) auto
  qed
qed simp

end
