(* ===== verification/Replica.thy ===== *)
theory Replica
  imports Node_State Replica_Spec
begin

text \<open>
  The storage of \<open>src/storage.rs\<close> and \<open>src/storage_raft_impl.rs\<close>, with its tree, caches, two
  logs, snapshot state, merge task and restarts, simulates the replica of \<open>Replica_Spec\<close> call by
  call. What is proved of the runs of the replica therefore holds of the storage.
\<close>

section \<open>The storage answering calls\<close>

inductive storage_serves ::
  "('t, 'x, 'f, 'm) storage_env \<Rightarrow> ('t, 'f, 'm) SurrealStorage \<Rightarrow> 'm storage_call \<Rightarrow> 'm answer \<Rightarrow>
   ('t, 'f, 'm) SurrealStorage \<Rightarrow> bool" for E where
  append_call: "append_flushed E es S = ((S', io), r) \<Longrightarrow> storage_serves E S (CallAppend es) (Logged io r) S'"
| truncate_call: "truncate_after l S = (S', r) \<Longrightarrow> storage_serves E S (CallTruncate l) (ended r) S'"
| purge_call: "purge p S = (S', r) \<Longrightarrow> storage_serves E S (CallPurge p) (ended r) S'"
| read_log_call: "storage_serves E S (CallReadLog rng) (answer_of Entries (try_get_log_entries rng S)) S"
| log_state_call: "storage_serves E S CallLogState (answer_of LogStateIs (get_log_state S)) S"
| save_vote_call: "save_vote E v S = (S', r) \<Longrightarrow> storage_serves E S (CallSaveVote v) (ended r) S'"
| read_vote_call: "storage_serves E S CallReadVote (answer_of Voted (read_vote E S)) S"
| apply_call: "apply_stream E items S [] = ((S', sent), r) \<Longrightarrow> storage_serves E S (CallApply items) (Responded sent r) S'"
| install_call: "install_snapshot E meta data S = (S', r) \<Longrightarrow> storage_serves E S (CallInstall meta data) (ended r) S'"
| build_call: "build_snapshot E S = (S', r) \<Longrightarrow> storage_serves E S CallBuild (ended r) S'"
| recover_call: "recover_merge_state E S = (S', r) \<Longrightarrow>
    storage_serves E S CallRecover (ended (map_err display_RaftError r)) S'"
| merge_call: "\<lbrakk>merge_executor S = Some x; tr \<in> set (spawned S); run_task E x tr S = (S', r)\<rbrakk> \<Longrightarrow>
    storage_serves E S (CallMerge tr) (ended (map_err display_RaftError r)) (S'\<lparr>spawned := remove1 tr (spawned S)\<rparr>)"
| write_call: "apply_request req S = (S', r) \<Longrightarrow>
    storage_serves E S (CallWrite req) (ended (map_err display_RaftError r)) S'"
| read_call: "storage_serves E S (CallRead key) (answer_of Found (map_err display_RaftError (Storage_read key S))) S"
| restart_call: "SurrealStorage_new E (tree (metadata S)) w = Inr R \<Longrightarrow> storage_serves E S CallRestart Returned R"
| restart_merging_call: "SurrealStorage_new E (tree (metadata S)) w = Inr R \<Longrightarrow>
    storage_serves E S CallRestart Returned (with_merge_policy E policy R)"

text \<open>Each call is a step of the storage, a read, or a restart; so the invariant of the storage is kept.\<close>

lemma storage_serves_ok:
  assumes env: "env_ok (so_kv E) view pend (so_meta E)" and "storage_serves E S c r S'" and ok: "storage_ok view E S"
  shows "storage_ok view E S'"
proof -
  have "S' = S \<or> storage_step E S S' \<or> (\<exists>R w policy. SurrealStorage_new E (tree (metadata S)) w = Inr R \<and>
      (S' = R \<or> S' = with_merge_policy E policy R))"
    using assms(2)
  proof cases
    case (append_call es io r)
    then have "S' = fst (Raft_append E es S)" by (auto simp: append_flushed_def split: prod.splits sum.splits)
    then show ?thesis by (simp add: storage_step.append_step)
  next
    case (apply_call items sent r)
    then show ?thesis using storage_step.apply_step [of E S items] by simp
  next
    case (merge_call x tr S' r)
    then show ?thesis using storage_step.merge_step [of S x tr E] by simp
  qed (metis storage_step.intros fst_conv)+
  then show ?thesis using storage_step_ok [OF env _ ok] storage_new_ok [OF env] with_merge_policy_ok ok by metis
qed

section \<open>What the parts of the storage leave alone\<close>

text \<open>The vote as the trait reads it: the stored one, or the one of the voting state.\<close>

definition stored_vote ::
  "('t \<Rightarrow> bytes \<Rightarrow> bytes option) \<Rightarrow> ('t, 'x, 'f, 'm) storage_env \<Rightarrow> 't MetadataManager \<Rightarrow> string + Vote option" where
  "stored_vote view E m = (case view (tree m) key_vote_v2 of
     Some bytes \<Rightarrow> map_sum id Some (from_bytes (so_vote E) bytes)
   | None \<Rightarrow> Inr (map_option (\<lambda>id. \<lparr>vote_term = current_term (voting_state m), vote_voted_for = Some id, vote_committed = False\<rparr>)
       (voted_for (voting_state m))))"

definition same_vote :: "('t \<Rightarrow> bytes \<Rightarrow> bytes option) \<Rightarrow> 't MetadataManager \<Rightarrow> 't MetadataManager \<Rightarrow> bool" where
  "same_vote view m m' \<longleftrightarrow> voting_state m = voting_state m' \<and> view (tree m) key_vote_v2 = view (tree m') key_vote_v2"

lemma same_voteD: "same_vote view m m' \<Longrightarrow> stored_vote view E m = stored_vote view E m'"
  by (auto simp: same_vote_def stored_vote_def split: option.split)

abbreviation same_log :: "('t, 'f, 'm) SurrealStorage \<Rightarrow> ('t, 'f, 'm) SurrealStorage \<Rightarrow> bool" where
  "same_log S S' \<equiv> raft_entries S = raft_entries S' \<and> last_purged_log_id S = last_purged_log_id S'"

definition untouched ::
  "('t \<Rightarrow> bytes \<Rightarrow> bytes option) \<Rightarrow> ('t, 'f, 'm) SurrealStorage \<Rightarrow> ('t, 'f, 'm) SurrealStorage \<Rightarrow> bool" where
  "untouched view S S' \<longleftrightarrow> same_log S S' \<and> same_vote view (metadata S) (metadata S')"

lemma untouched_refl [simp]: "untouched view S S"
  by (simp add: untouched_def same_vote_def)

lemma untouched_fields [simp]:
  "untouched view (S\<lparr>state_machine := sm\<rparr>) T = untouched view S T"
  "untouched view (S\<lparr>last_membership := lm\<rparr>) T = untouched view S T"
  "untouched view (S\<lparr>current_snapshot := cs\<rparr>) T = untouched view S T"
  "untouched view (S\<lparr>spawned := ts\<rparr>) T = untouched view S T"
  "untouched view (S\<lparr>st_world := w\<rparr>) T = untouched view S T"
  "untouched view (S\<lparr>raft_logs := l\<rparr>) T = untouched view S T"
  by (simp_all add: untouched_def)

lemma untouched_metadata: "untouched view S T \<Longrightarrow> same_vote view m (metadata S) \<Longrightarrow> untouched view (S\<lparr>metadata := m\<rparr>) T"
  by (simp add: untouched_def same_vote_def)

lemma untouched_on_metadata:
  "same_vote view (fst (op (metadata S))) (metadata S) \<Longrightarrow> untouched view S T \<Longrightarrow> untouched view (fst (on_metadata op S)) T"
  by (simp add: fst_on_metadata untouched_metadata)

lemma save_slot_keeps_vote:
  assumes kv: "surrealkv_ok kv view pend" and key: "key \<noteq> key_vote_v2"
    and assign: "\<And>v m. voting_state (assign v m) = voting_state m \<and> tree (assign v m) = tree m"
  shows "same_vote view (fst (save_slot kv key c assign v m)) m"
proof -
  obtain m' r where run: "save_slot kv key c assign v m = (m', r)" by fastforce
  with kv have "same_vote view m' m" by (cases rule: save_slot_cases) (use key assign in \<open>simp_all add: same_vote_def\<close>)
  with run show ?thesis by simp
qed

lemma saves_keep_vote:
  assumes kv: "surrealkv_ok kv view pend"
  shows "same_vote view (fst (save_applied_state kv mc a m)) m"
    "same_vote view (fst (save_snapshot_state kv mc st m)) m"
    "same_vote view (fst (save_merge_progress_state kv mc p m)) m"
  unfolding save_applied_state_def save_snapshot_state_def save_merge_progress_state_def
  by (rule save_slot_keeps_vote [OF kv]; simp)+

lemma save_applied_untouched:
  "surrealkv_ok (so_kv E) view pend \<Longrightarrow> untouched view S T \<Longrightarrow>
   untouched view (fst (on_metadata (save_applied_state (so_kv E) (so_meta E) a) S)) T"
  by (intro untouched_on_metadata saves_keep_vote)

lemma append_log_entry_untouched:
  assumes kv: "surrealkv_ok (so_kv E) view pend" and T: "untouched view S T"
  shows "untouched view (fst (append_log_entry E trm i req S)) T"
  using T by (auto simp: append_log_entry_def save_applied_untouched [OF kv] split: sum.split)

lemma apply_request_untouched: "untouched view S T \<Longrightarrow> untouched view (fst (apply_request req S)) T"
  by (simp add: apply_request_eq)

lemma apply_payload_untouched:
  assumes kv: "surrealkv_ok (so_kv E) view pend" and T: "untouched view S T"
  shows "untouched view (fst (apply_payload E e S)) T"
proof (cases "entry_payload e")
  case (Normal req)
  have "untouched view (fst (try_then (map_err_st display_RaftError (apply_request req S)) (\<lambda>S resp.
          try_then (map_err_st display_RaftError (append_log_entry E t i req S)) (\<lambda>S _. (S, Inr resp))))) T" for t i
    by (rule try_then_inv, simp add: T apply_request_untouched, rule try_then_inv, simp add: append_log_entry_untouched [OF kv]) simp
  with Normal show ?thesis by (simp add: apply_payload_def Let_def)
qed (use T in \<open>simp_all add: apply_payload_def Let_def\<close>)

lemma apply_stream_untouched:
  assumes kv: "surrealkv_ok (so_kv E) view pend"
    and "untouched view S T"
  shows "untouched view (fst (fst (apply_stream E items S sent))) T"
  using assms
proof (induction E items S sent rule: apply_stream.induct)
  case (3 E e responder items S sent)
  obtain S1 q where 1: "apply_payload E e S = (S1, q)" by fastforce
  let ?a = "\<lparr>last_applied_index = li_index (entry_log_id e), last_applied_term = li_term (entry_log_id e)\<rparr>"
  obtain S2 x where 2: "on_metadata (save_applied_state (so_kv E) (so_meta E) ?a) S1 = (S2, x)" by fastforce
  have s1: "untouched view S1 T" using apply_payload_untouched [OF 3(2,3), of e] 1 by simp
  have s2: "untouched view S2 T" using save_applied_untouched [OF 3(2) s1, of ?a] 2 by simp
  show ?case using 1 2 3 s1 s2 by (cases q; cases x) (simp_all add: Let_def)
qed simp_all


lemma apply_delta_entries_untouched:
  assumes kv: "surrealkv_ok (so_kv E) view pend"
  shows "untouched view S T \<Longrightarrow> untouched view (fst (apply_delta_entries E es S)) T"
proof (induction es arbitrary: S)
  case (Cons e es)
  have "untouched view (fst (try_then (apply_request req S) (\<lambda>S _.
          try_then (append_log_entry E (de_term e) (de_index e) req S) (\<lambda>S _. apply_delta_entries E es S)))) T" for req
    by (rule try_then_inv, rule apply_request_untouched, rule Cons.prems, rule try_then_inv,
        erule append_log_entry_untouched [OF kv], erule Cons.IH)
  then show ?case using Cons.prems by (simp split: sum.split)
qed simp

lemma install_snapshot_untouched:
  assumes kv: "surrealkv_ok (so_kv E) view pend"
  shows "untouched view (fst (install_snapshot E meta data S)) S"
proof -
  have "untouched view (fst (install_snapshot_auto E snap S)) S" for snap
    using apply_delta_entries_untouched [OF kv, of S S]
    by (auto simp: install_snapshot_auto_def on_st_world_def Let_def split: sum.splits option.splits
        DecodedSnapshotPayload.splits prod.splits)
  then show ?thesis
    unfolding install_snapshot_def Let_def
    by (intro try_then_inv [where P = "\<lambda>S'. untouched view S' S"])
      (auto simp: save_applied_untouched [OF kv] split: option.splits)
qed

lemma spawn_task_untouched: "untouched view S T \<Longrightarrow> untouched view (fst (spawn_task E x S)) T"
  by (rule spawn_task_frame [of E x S "fst (spawn_task E x S)" "snd (spawn_task E x S)"]) simp_all

lemma build_snapshot_untouched:
  assumes kv: "surrealkv_ok (so_kv E) view pend"
  shows "untouched view (fst (build_snapshot E S)) S"
proof -
  have tree: "untouched view (fst (on_tree_world (build_snapshot_with_delta (so_snap E) cfg ai st es) S)) S" for cfg ai st es
    using tree_frame_build [OF kv, of "tree (metadata S)" "(tree (metadata S), st_world S)" cfg ai st es]
    by (auto simp: on_tree_world_def tree_frame_def untouched_def same_vote_def split: prod.splits)
  have "untouched view (fst (build_snapshot_auto E trm S)) S" for trm
    unfolding build_snapshot_auto_def Let_def
    by (intro try_then_inv [where P = "\<lambda>S'. untouched view S' S"] tree)
      (auto simp: untouched_on_metadata saves_keep_vote(2) [OF kv] spawn_task_untouched split: option.splits DecodedSnapshotPayload.splits)
  then show ?thesis
    unfolding build_snapshot_def by (intro try_then_inv [where P = "\<lambda>S'. untouched view S' S"]) (simp_all add: Let_def)
qed

lemma recover_untouched:
  assumes kv: "surrealkv_ok (so_kv E) view pend"
  shows "untouched view (fst (recover_merge_state E S)) S"
proof -
  have "untouched view S1 S" if "spawn_task E x S = (S1, q)" for x S1 q
    using spawn_task_untouched [of view S S E x] that by simp
  then show ?thesis
    by (auto simp: recover_merge_state_def Let_def untouched_on_metadata saves_keep_vote(3) [OF kv]
        split: option.splits sum.splits prod.splits)
qed

lemma run_task_untouched:
  assumes env: "env_ok (so_kv E) view pend (so_meta E)" and ok: "storage_ok view E S" and x: "merge_executor S = Some x"
  shows "untouched view (fst (run_task E x tr S)) S"
proof -
  obtain base where b: "ex_backend x = checkpoint_backend (so_merge E) base" using ok x by (auto simp: storage_ok_def)
  obtain s0 started where s0: "on_world now_secs (metadata S, st_world S) = (s0, started)" by fastforce
  obtain s' r where run: "merge_attempts (so_kv E) (so_meta E) (so_fs E) (checkpoint_backend (so_merge E) base)
      (ex_cleanup x) tr (ex_max_retries x) started 0 s0 = (s', r)" by fastforce
  have m0: "fst s0 = metadata S" using s0 by (auto split: prod.splits)
  have "checkpoint_merge.outcome view (so_meta E) started (max (ex_max_retries x) (0 + 1)) s0 s' r"
    using storage_ok_synced [OF ok] m0 by (intro checkpoint_merge.attempts_outcome [OF env _ run]) simp_all
  then have "voting_state (fst s') = voting_state (metadata S)" by (simp add: checkpoint_merge.outcome_def m0)
  moreover have "view (tree (fst s')) key_vote_v2 = view (tree (metadata S)) key_vote_v2"
    using checkpoint_merge.attempts_keys [OF env_ok_kv [OF env] _ run, of key_vote_v2] m0 by simp
  moreover have "fst (run_task E x tr S) = S\<lparr>metadata := fst s', st_world := snd s'\<rparr>"
    using run s0 by (cases s') (simp add: run_task_def on_merge_def run_merge_loop_def b)
  ultimately show ?thesis by (simp add: untouched_def same_vote_def)
qed

section \<open>What the calls do\<close>

text \<open>An append that fails has written a proper prefix of its entries to the consensus log.\<close>

lemma Raft_append_prefix:
  assumes kv: "surrealkv_ok (so_kv E) view pend"
    and "bt_wf (raft_entries S)" and "Raft_append E es S = (S', r)"
  shows "\<exists>k. bt_get (raft_entries S') = write_entries (take k es) (bt_get (raft_entries S)) \<and>
      (if isl r then k < length es else k = length es) \<and>
      last_purged_log_id S' = last_purged_log_id S \<and> same_vote view (metadata S') (metadata S)"
  using assms(2,3)
proof (induction es arbitrary: S)
  case (Cons e es)
  let ?i = "li_index (entry_log_id e)"
  let ?logged = "case entry_payload e of
        Normal req \<Rightarrow> map_err_st display_RaftError (append_log_entry E (li_term (entry_log_id e)) ?i req S)
      | _ \<Rightarrow> (S, Inr ())"
  obtain S1 q where 1: "?logged = (S1, q)" by fastforce
  have "untouched view (fst ?logged) S" by (simp add: append_log_entry_untouched [OF kv] split: EntryPayload.split)
  then have u: "raft_entries S1 = raft_entries S" "last_purged_log_id S1 = last_purged_log_id S" "same_vote view (metadata S1) (metadata S)"
    using 1 by (simp_all add: untouched_def)
  show ?case
  proof (cases q)
    case (Inl x)
    then show ?thesis using 1 u Cons.prems(2) by (intro exI [of _ 0]) (auto simp: Let_def)
  next
    case (Inr v)
    let ?S = "S1\<lparr>raft_entries := bt_insert ?i e (raft_entries S1)\<rparr>"
    have "Raft_append E es ?S = (S', r)" using Cons.prems(2) 1 Inr by (simp add: Let_def)
    then obtain k where k: "bt_get (raft_entries S') = write_entries (take k es) (bt_get (raft_entries ?S))"
      "if isl r then k < length es else k = length es" "last_purged_log_id S' = last_purged_log_id ?S" "same_vote view (metadata S') (metadata ?S)"
      using Cons.IH [of ?S] Cons.prems(1) u(1) by (auto simp: bt_wf_insert)
    have "bt_get (raft_entries ?S) = (bt_get (raft_entries S))(?i \<mapsto> e)" using Cons.prems(1) u(1) by (simp add: bt_get_insert)
    then show ?thesis using k u by (intro exI [of _ "Suc k"]) (auto simp: write_entries_Cons same_vote_def split: if_splits)
  qed
qed (auto simp: same_vote_def)

text \<open>A stream that fails has applied a prefix of what it delivered.\<close>

lemma apply_payload_effect:
  assumes "apply_payload E e S = (S', q)"
  shows "state_machine S' = fold kv_effect (requests_in [e]) (state_machine S)" "last_membership S' = membership_after [e] (last_membership S)"
proof -
  have "same_data S' (S\<lparr>state_machine := fold kv_effect (requests_in [e]) (state_machine S), last_membership := membership_after [e] (last_membership S)\<rparr>)"
  proof (cases "entry_payload e")
    case (Normal req)
    let ?S = "S\<lparr>state_machine := kv_effect req (state_machine S)\<rparr>"
    obtain S1 q1 where ap: "append_log_entry E (li_term (entry_log_id e)) (li_index (entry_log_id e)) req ?S = (S1, q1)" by fastforce
    then have "S' = S1" using assms Normal by (cases q1) (auto simp: apply_payload_def Let_def apply_request_eq)
    then show ?thesis using append_log_entry_data [of E _ _ req ?S] ap Normal by (simp add: requests_in_def) (metis fst_conv)
  qed (use assms in \<open>auto simp: apply_payload_def requests_in_def\<close>)
  then show "state_machine S' = fold kv_effect (requests_in [e]) (state_machine S)" "last_membership S' = membership_after [e] (last_membership S)"
    by simp_all
qed

lemma apply_stream_prefix:
  assumes "apply_stream E items S sent = ((S', sent'), r)"
  shows "\<exists>k \<le> length (delivered items). state_machine S' = fold kv_effect (requests_in (take k (delivered items))) (state_machine S) \<and>
    last_membership S' = membership_after (take k (delivered items)) (last_membership S)"
  using assms
proof (induction items arbitrary: S sent)
  case (Cons item items)
  show ?case
  proof (cases item)
    case (Inr er)
    obtain e responder where er: "er = (e, responder)" by fastforce
  obtain S1 q where 1: "apply_payload E e S = (S1, q)" by fastforce
  note eff = apply_payload_effect [OF 1]
  let ?a = "\<lparr>last_applied_index = li_index (entry_log_id e), last_applied_term = li_term (entry_log_id e)\<rparr>"
  obtain S2 x where 2: "on_metadata (save_applied_state (so_kv E) (so_meta E) ?a) S1 = (S2, x)" by fastforce
  have d2: "same_data S2 S1" using part_data(1,2) [of _ S1] 2 by (metis fst_conv)
  have stop: ?thesis if "same_data S' S1" using that eff Inr er by (intro exI [of _ 1]) simp
  show ?thesis
  proof (cases "\<exists>v w. q = Inr v \<and> x = Inr w")
    case True
    then obtain v w where qx: "q = Inr v" "x = Inr w" by blast
    then have "apply_stream E items S2 (if responder then sent @ [v] else sent) = ((S', sent'), r)"
      using Cons.prems 1 2 Inr er by (simp add: Let_def)
    from Cons.IH [OF this] obtain k where k: "k \<le> length (delivered items)"
      "state_machine S' = fold kv_effect (requests_in (take k (delivered items))) (state_machine S2)"
      "last_membership S' = membership_after (take k (delivered items)) (last_membership S2)"
      by auto
    then show ?thesis
      using d2 eff Inr er by (intro exI [of _ "Suc k"]) (simp add: requests_in_def)
  next
    case False
    then have "S' = S1 \<or> S' = S2" using Cons.prems 1 2 Inr er by (cases q; cases x) (auto simp: Let_def)
    then show ?thesis using stop d2 by auto
  qed
  qed (use Cons.prems in \<open>auto simp: requests_in_def\<close>)
qed (auto simp: requests_in_def)

text \<open>The requests of a delta up to the first that does not decode, and what an install makes of them.\<close>

primrec decodable :: "KVRequest codec \<Rightarrow> DeltaEntry list \<Rightarrow> KVRequest list" where
  "decodable rc [] = []"
| "decodable rc (e # es) = (case from_bytes rc (de_payload e) of Inl _ \<Rightarrow> [] | Inr r \<Rightarrow> r # decodable rc es)"

definition carried_requests :: "('t, 'x, 'f, 'm) storage_env \<Rightarrow> bytes \<Rightarrow> KVRequest list" where
  "carried_requests E data = (case decode_snapshot_payload (so_snap E) data of
     Inr (Some (DecodedDelta m es)) \<Rightarrow> decodable (so_request E) es | _ \<Rightarrow> [])"

lemma apply_delta_prefix:
  assumes "apply_delta_entries E es S = (S', r)"
  shows "\<exists>k \<le> length (decodable (so_request E) es).
    state_machine S' = fold kv_effect (take k (decodable (so_request E) es)) (state_machine S) \<and>
    last_membership S' = last_membership S \<and> (\<not> isl r \<longrightarrow> k = length (decodable (so_request E) es))"
  using assms
proof (induction es arbitrary: S)
  case (Cons e es)
  show ?case
  proof (cases "from_bytes (so_request E) (de_payload e)")
    case (Inr req)
    let ?S = "S\<lparr>state_machine := kv_effect req (state_machine S)\<rparr>"
    obtain S1 q where 1: "append_log_entry E (de_term e) (de_index e) req ?S = (S1, q)" by fastforce
    have d: "same_data S1 ?S" using append_log_entry_data [of E "de_term e" "de_index e" req ?S] 1 by simp
    show ?thesis
    proof (cases q)
      case (Inl x)
      then have "S' = S1" "isl r" using Cons.prems Inr 1 by (auto simp: apply_request_eq)
      then show ?thesis using d Inr by (intro exI [of _ 1]) simp
    next
      case q: (Inr v)
      then have "apply_delta_entries E es S1 = (S', r)" using Cons.prems Inr 1 by (simp add: apply_request_eq)
      from Cons.IH [OF this] obtain k where "k \<le> length (decodable (so_request E) es)"
        "state_machine S' = fold kv_effect (take k (decodable (so_request E) es)) (state_machine S1)"
        "last_membership S' = last_membership S1" "\<not> isl r \<longrightarrow> k = length (decodable (so_request E) es)"
        by auto
      then show ?thesis using d Inr by (intro exI [of _ "Suc k"]) simp
    qed
  qed (use Cons.prems in auto)
qed auto

lemma install_auto_prefix:
  assumes "install_snapshot_auto E snap S = (S', r)"
  shows "\<exists>k \<le> length (carried_requests E (snap_data snap)).
    state_machine S' = fold kv_effect (take k (carried_requests E (snap_data snap))) (state_machine S) \<and>
    last_membership S' = last_membership S \<and> (\<not> isl r \<longrightarrow> k = length (carried_requests E (snap_data snap)))"
proof -
  consider (delta) m es where "decode_snapshot_payload (so_snap E) (snap_data snap) = Inr (Some (DecodedDelta m es))"
      "apply_delta_entries E es S = (S', r)"
    | (refused) "same_data S' S" "isl r"
    | (full) "same_data S' S" "carried_requests E (snap_data snap) = []"
    using assms
    by (auto simp: install_snapshot_auto_def carried_requests_def Let_def on_st_world_def
        split: sum.splits option.splits DecodedSnapshotPayload.splits prod.splits if_splits)
  then show ?thesis
  proof cases
    case delta
    then show ?thesis using apply_delta_prefix [OF delta(2)] by (simp add: carried_requests_def)
  qed (auto intro: exI [of _ 0])
qed

lemma install_snapshot_prefix:
  assumes "install_snapshot E meta data S = (S', r)"
  shows "\<exists>k \<le> length (carried_requests E data).
    state_machine S' = fold kv_effect (take k (carried_requests E data)) (state_machine S) \<and>
    last_membership S' = (if isl r then last_membership S else meta_last_membership meta) \<and>
    (\<not> isl r \<longrightarrow> k = length (carried_requests E data))"
proof -
  let ?snap = "\<lparr>snap_meta = meta, snap_data = data\<rparr>"
  obtain S1 q where 1: "install_snapshot_auto E ?snap S = (S1, q)" by fastforce
  let ?saved = "case meta_last_log_id meta of None \<Rightarrow> (S1, Inr ())
    | Some lst \<Rightarrow> map_err_st display_RaftError (on_metadata (save_applied_state (so_kv E) (so_meta E)
        \<lparr>last_applied_index = li_index lst, last_applied_term = li_term lst\<rparr>) S1)"
  obtain S2 x where 2: "?saved = (S2, x)" by fastforce
  have d: "same_data S2 S1"
  proof -
    have "same_data (fst ?saved) S1" by (simp add: part_data split: option.split)
    then show ?thesis by (simp only: 2 fst_conv)
  qed
  show ?thesis
  proof (cases "isl q")
    case True
    then have "S' = S1" "isl r" using assms 1 by (auto simp: install_snapshot_def Let_def isl_def)
    then show ?thesis using install_auto_prefix [OF 1] by auto
  next
    case False
    then obtain v where q: "q = Inr v" by (cases q) auto
    have "(isl x \<and> isl r \<and> S' = S2) \<or> (\<not> isl r \<and> S' = S2\<lparr>last_membership := meta_last_membership meta, current_snapshot := Some ?snap\<rparr>)"
      using assms 1 q 2 by (cases x) (auto simp: install_snapshot_def Let_def)
    then show ?thesis using install_auto_prefix [OF 1] q d by (auto intro!: exI [of _ "length (carried_requests E data)"])
  qed
qed

text \<open>Votes: what a save leaves to be read, and what a read returns.\<close>

lemma save_vote_done:
  assumes "surrealkv_ok (so_kv E) view pend" "codec_ok (so_vote E)" "save_vote E v S = (S', Inr u)"
  shows "stored_vote view E (metadata S') = Inr (Some v)" "same_log S' S"
proof -
  obtain m bs t where "to_stdvec (so_vote E) v = Inr bs" "view t = (view (tree m))(key_vote_v2 \<mapsto> bs)"
    "S' = S\<lparr>metadata := m\<lparr>tree := t\<rparr>\<rparr>"
    using assms(1,3) by (rule save_vote_cases)
  then show "stored_vote view E (metadata S') = Inr (Some v)" "same_log S' S"
    using codec_okD [OF assms(2)] by (simp_all add: stored_vote_def)
qed

lemma save_vote_failed:
  assumes kv: "surrealkv_ok (so_kv E) view pend" and run: "save_vote E v S = (S', Inl e)"
  shows "stored_vote view E (metadata S') \<in> {stored_vote view E (metadata S), Inr (half_saved v)}" "same_log S' S"
proof -
  let ?v = "\<lparr>current_term = vote_term v, voted_for = vote_voted_for v\<rparr>"
  obtain m q where m: "save_voting_state (so_kv E) (so_meta E) ?v (metadata S) = (m, q)" by fastforce
  have s: "save_slot (so_kv E) key_vote (voting_codec (so_meta E)) (\<lambda>st. voting_state_update (\<lambda>_. st)) ?v (metadata S) = (m, q)"
    using m by (simp add: save_voting_state_def)
  obtain t where S': "S' = S\<lparr>metadata := m\<lparr>tree := t\<rparr>\<rparr>" and t: "view t = view (tree m)"
  proof (cases q)
    case (Inl x)
    then have "S' = S\<lparr>metadata := m\<lparr>tree := tree m\<rparr>\<rparr>" using run m by (simp add: save_vote_def on_metadata_def)
    then show thesis using that by blast
  next
    case (Inr x)
    let ?txn = "and_then (to_stdvec (so_vote E) v) (\<lambda>data.
          and_then (tree_begin (so_kv E) (tree m)) (\<lambda>txn. txn_set (so_kv E) txn key_vote_v2 data))"
    show thesis
    proof (cases ?txn)
      case (Inl y)
      then have "S' = S\<lparr>metadata := m\<lparr>tree := tree m\<rparr>\<rparr>" using run m Inr by (simp add: save_vote_def on_metadata_def)
      then show thesis using that by blast
    next
      case x': (Inr x')
      obtain t q' where co: "txn_commit (so_kv E) (tree m) x' = (t, q')" by fastforce
      then have "S' = S\<lparr>metadata := m\<lparr>tree := t\<rparr>\<rparr>" "q' = Inl e"
        using run m Inr x' by (auto simp: save_vote_def on_metadata_def on_tree_eq)
      then show thesis using that surrealkv_commit(2) [OF kv] co by blast
    qed
  qed
  from kv s show "stored_vote view E (metadata S') \<in> {stored_vote view E (metadata S), Inr (half_saved v)}"
    by (cases rule: save_slot_cases) (auto simp: S' t stored_vote_def half_saved_def split: option.splits)
  show "same_log S' S" by (simp add: S')
qed

lemma read_vote_returns:
  assumes "surrealkv_ok (so_kv E) view pend" "read_vote E S = Inr r"
  shows "stored_vote view E (metadata S) = Inr r"
  using assms(2) surrealkv_begin(2) [OF assms(1), of "tree (metadata S)"]
  by (fastforce simp: read_vote_def and_then_Inr stored_vote_def Let_def split: option.splits)

section \<open>The storage implements the replica\<close>

definition replica_of ::
  "('t \<Rightarrow> bytes \<Rightarrow> bytes option) \<Rightarrow> ('t, 'x, 'f, 'm) storage_env \<Rightarrow> ('t, 'f, 'm) SurrealStorage \<Rightarrow> 'm replica" where
  "replica_of view E S = \<lparr>rep_log = bt_get (raft_entries S), rep_purged = last_purged_log_id S,
     rep_vote = stored_vote view E (metadata S), rep_data = state_machine S, rep_members = last_membership S\<rparr>"

lemma replica_untouched:
  "untouched view S' S \<Longrightarrow> replica_of view E S' = (replica_of view E S)\<lparr>rep_data := state_machine S', rep_members := last_membership S'\<rparr>"
  by (simp add: replica_of_def untouched_def same_voteD)

lemma read_log_spec:
  assumes ok: "storage_ok view E S"
  shows "replica_serves carried members (replica_of view E S) (CallReadLog r) (answer_of Entries (try_get_log_entries r S)) (replica_of view E S)"
proof -
  let ?es = "read_log (range_start r) (range_end_inclusive r) S"
  have wf: "bt_wf (raft_entries S)" "\<forall>(i, e) \<in> set (raft_entries S). li_index (entry_log_id e) = i" using ok by (auto simp: storage_ok_def)
  obtain es where es: "try_get_log_entries r S = Inr es" "es = [] \<or> es = ?es"
    by (cases "range_end_inclusive r < range_start r") (auto simp: try_get_log_entries_def Let_def read_log_def)
  have sub: "set ?es \<subseteq> {e. \<exists>i. bt_get (raft_entries S) i = Some e}"
    using wf by (auto simp: read_log_def bt.rng_set)
  have "map (\<lambda>e. li_index (entry_log_id e)) ?es = map fst (bt_range (range_start r) (range_end_inclusive r) (raft_entries S))"
    using wf(2) by (auto simp: read_log_def bt_range_def)
  then have "sorted_wrt (<) (map (\<lambda>e. li_index (entry_log_id e)) ?es)" using bt.rng_sorted [OF wf(1)] by simp
  moreover have "set es = {e. \<exists>i. in_range r i \<and> bt_get (raft_entries S) i = Some e}" if "fst r \<noteq> Excluded (- 1)" "snd r \<noteq> Excluded 0"
    using log_range_read [OF ok, of r] that es(1) by auto
  ultimately show ?thesis
    using es sub by (auto simp: replica_of_def intro!: replica_serves.log_read)
qed

lemma log_state_spec:
  assumes ok: "storage_ok view E S"
  shows "replica_serves carried members (replica_of view E S) CallLogState (answer_of LogStateIs (get_log_state S)) (replica_of view E S)"
proof -
  have wf: "bt_wf (raft_entries S)" using ok by (simp add: storage_ok_def)
  show ?thesis
  proof (cases "bt_last (raft_entries S)")
    case None
    then have "\<forall>i. bt_get (raft_entries S) i = None" using bt.last_kv_None [OF wf] by simp
    then show ?thesis using None by (auto simp: get_log_state_def replica_of_def intro!: replica_serves.log_state)
  next
    case (Some p)
    obtain i e where p: "p = (i, e)" by fastforce
    have i: "bt_get (raft_entries S) i = Some e" "\<And>j. bt_get (raft_entries S) j \<noteq> None \<Longrightarrow> j \<le> i"
      using Some bt.last_kv_Some [OF wf, of i e] by (auto simp: p)
    have "e' = e" if "bt_get (raft_entries S) j = Some e'" "\<And>k. j < k \<Longrightarrow> bt_get (raft_entries S) k = None" for j e'
    proof -
      have "\<not> j < i" using that(2) [of i] i(1) by auto
      then have "j = i" using i(2) [of j] that(1) by force
      then show ?thesis using that(1) i(1) by simp
    qed
    then show ?thesis using Some p i(1) by (fastforce simp: get_log_state_def replica_of_def intro!: replica_serves.log_state)
  qed
qed

text \<open>One lemma for each call that changes something.\<close>

lemma append_spec:
  assumes kv: "surrealkv_ok (so_kv E) view pend" and ok: "storage_ok view E S"
    and run: "append_flushed E es S = ((S', io), q)"
  shows "replica_serves carried members (replica_of view E S) (CallAppend es) (Logged io q) (replica_of view E S')"
proof -
  obtain q1 where ap: "Raft_append E es S = (S', q1)"
    and io: "case q1 of Inl e \<Rightarrow> io = [] \<and> q = Inl e | Inr _ \<Rightarrow> io = [Inr ()] \<and> q = Inr ()"
    using run by (auto simp: append_flushed_def split: prod.splits sum.splits)
  obtain k where k: "bt_get (raft_entries S') = write_entries (take k es) (bt_get (raft_entries S))"
    "if isl q1 then k < length es else k = length es" "last_purged_log_id S' = last_purged_log_id S" "same_vote view (metadata S') (metadata S)"
    using Raft_append_prefix [OF kv _ ap] ok by (auto simp: storage_ok_def)
  have a: "replica_of view E S' = (replica_of view E S)\<lparr>rep_log := write_entries (take k es) (rep_log (replica_of view E S))\<rparr>"
    using k same_voteD [OF k(4), of E] Raft_append_data [of E es S] ap by (simp add: replica_of_def)
  show ?thesis
  proof (cases q1)
    case (Inl e)
    then show ?thesis using a k(2) io by (simp add: replica_serves.append_stopped)
  next
    case (Inr u)
    then show ?thesis using a k(2) io replica_serves.appended [of carried members "replica_of view E S" es] by simp
  qed
qed

lemma truncate_spec:
  assumes "truncate_after l S = (S', q)"
  shows "replica_serves carried members (replica_of view E S) (CallTruncate l) (ended q) (replica_of view E S')"
proof -
  let ?cut = "\<lambda>i. case l of None \<Rightarrow> None | Some p \<Rightarrow> if i \<le> li_index p then rep_log (replica_of view E S) i else None"
  have "bt_get (raft_entries S') = ?cut"
    using assms by (auto simp: truncate_after_def replica_of_def bt_get_retain bt_get_def [of "[]"] split: option.splits)
  then have "replica_of view E S' = (replica_of view E S)\<lparr>rep_log := ?cut\<rparr>"
    using assms by (auto simp: truncate_after_def replica_of_def split: option.splits)
  moreover have "q = Inr ()" using assms by (auto simp: truncate_after_def split: option.splits)
  ultimately show ?thesis by (simp only: answer_of.simps) (rule replica_serves.truncated)
qed

lemma purge_spec:
  assumes "purge p S = (S', q)"
  shows "replica_serves carried members (replica_of view E S) (CallPurge p) (ended q) (replica_of view E S')"
proof -
  have "replica_of view E S' = (replica_of view E S)\<lparr>rep_log := (\<lambda>i. if li_index p < i then rep_log (replica_of view E S) i else None),
      rep_purged := Some p\<rparr>" "q = Inr ()"
    using assms by (auto simp: purge_def replica_of_def bt_get_retain fun_eq_iff)
  then show ?thesis by (simp only: answer_of.simps) (rule replica_serves.purged)
qed

lemma save_vote_spec:
  assumes kv: "surrealkv_ok (so_kv E) view pend" "codec_ok (so_vote E)" and run: "save_vote E v S = (S', q)"
  shows "replica_serves carried members (replica_of view E S) (CallSaveVote v) (ended q) (replica_of view E S')"
proof -
  have "replica_of view E S' = (replica_of view E S)\<lparr>rep_vote := stored_vote view E (metadata S')\<rparr>" if "same_log S' S"
    using that save_vote_data [of E v S] run by (simp add: replica_of_def)
  note a = this
  show ?thesis
  proof (cases q)
    case (Inl e)
    note f = save_vote_failed [OF kv(1) run [unfolded Inl]]
    show ?thesis using f(1) unfolding a [OF f(2)] Inl answer_of.simps by (intro replica_serves.vote_not_saved) (simp add: replica_of_def)
  next
    case (Inr u)
    note f = save_vote_done [OF kv run [unfolded Inr]]
    show ?thesis unfolding a [OF f(2)] f(1) Inr answer_of.simps by (rule replica_serves.vote_saved)
  qed
qed

lemma read_vote_spec:
  assumes "surrealkv_ok (so_kv E) view pend"
  shows "replica_serves carried members (replica_of view E S) CallReadVote (answer_of Voted (read_vote E S)) (replica_of view E S)"
  using read_vote_returns [OF assms, of S]
  by (cases "read_vote E S") (simp_all add: replica_serves.vote_not_read replica_serves.vote_read replica_of_def)

lemma apply_spec:
  assumes kv: "surrealkv_ok (so_kv E) view pend" and run: "apply_stream E items S [] = ((S', sent), q)"
  shows "replica_serves carried members (replica_of view E S) (CallApply items) (Responded sent q) (replica_of view E S')"
proof -
  have u: "untouched view S' S" using apply_stream_untouched [OF kv untouched_refl [of view S], of items "[]"] run by simp
  have a: "replica_of view E S' = apply_entries_to es (replica_of view E S)"
    if "state_machine S' = fold kv_effect (requests_in es) (state_machine S)" "last_membership S' = membership_after es (last_membership S)" for es
    using replica_untouched [OF u, of E] that by (simp add: apply_entries_to_def replica_of_def)
  show ?thesis
  proof (cases q)
    case (Inl e)
    then show ?thesis using apply_stream_prefix [OF run] a by (auto intro!: replica_serves.apply_stopped)
  next
    case (Inr u)
    then obtain xs where "items = map Inr xs" "sent = replicate (length (filter snd xs)) Ok"
      "state_machine S' = fold kv_effect (requests_in (map fst xs)) (state_machine S)" "last_membership S' = membership_after (map fst xs) (last_membership S)"
      using apply_stream_Inr [OF run [unfolded Inr]] by auto
    then show ?thesis using Inr a [of "map fst xs"] by (simp add: replica_serves.entries_applied)
  qed
qed

lemma install_spec:
  assumes kv: "surrealkv_ok (so_kv E) view pend" and run: "install_snapshot E meta data S = (S', q)"
  shows "replica_serves (carried_requests E) members (replica_of view E S) (CallInstall meta data) (ended q) (replica_of view E S')"
proof -
  have "untouched view S' S" using install_snapshot_untouched [OF kv, of meta data S] run by simp
  note a = replica_untouched [OF this, of E]
  obtain k where k: "k \<le> length (carried_requests E data)"
    "state_machine S' = fold kv_effect (take k (carried_requests E data)) (state_machine S)"
    "last_membership S' = (if isl q then last_membership S else meta_last_membership meta)"
    "\<not> isl q \<longrightarrow> k = length (carried_requests E data)"
    using install_snapshot_prefix [OF run] by blast
  show ?thesis
  proof (cases q)
    case (Inl e)
    then show ?thesis using a k replica_serves.install_stopped [where carried = "carried_requests E" and data = data, OF k(1), of members "replica_of view E S" meta e]
      by (simp add: replica_of_def)
  next
    case (Inr u)
    then show ?thesis using a k replica_serves.snapshot_installed [of "carried_requests E" members "replica_of view E S" meta data]
      by (simp add: replica_of_def)
  qed
qed

lemma internal_spec:
  assumes "c \<in> {CallBuild, CallRecover} \<union> range CallMerge" "untouched view S' S" "same_data S' S"
  shows "replica_serves carried members (replica_of view E S) c (ended q) (replica_of view E S')"
proof -
  have "replica_of view E S' = replica_of view E S" using replica_untouched [OF assms(2), of E] assms(3) by (simp add: replica_of_def)
  then show ?thesis using assms(1) by (cases q) (auto intro!: replica_serves.internal)
qed

lemma restart_spec:
  assumes "env_ok (so_kv E) view pend (so_meta E)" "storage_ok view E S" "SurrealStorage_new E (tree (metadata S)) w = Inr R"
  shows "replica_serves carried (default_stored_membership E) (replica_of view E S) CallRestart Returned (replica_of view E R)"
proof -
  have "replica_of view E R = \<lparr>rep_log = (\<lambda>_. None), rep_purged = None, rep_vote = rep_vote (replica_of view E S),
      rep_data = (\<lambda>_. None), rep_members = default_stored_membership E\<rparr>"
    using reopened_node [OF assms] by (simp add: replica_of_def bt_get_def fun_eq_iff)
  then show ?thesis by (simp only:) (rule replica_serves.restarted)
qed

lemma storage_serves_spec:
  assumes env: "env_ok (so_kv E) view pend (so_meta E)" and codec: "codec_ok (so_vote E)"
    and "storage_serves E S c r S'" and ok: "storage_ok view E S"
  shows "replica_serves (carried_requests E) (default_stored_membership E) (replica_of view E S) c r (replica_of view E S')"
  using assms(3)
proof cases
  note kv = env_ok_kv [OF env]
  case (append_call es io q) then show ?thesis using append_spec [OF kv ok] by simp
next
  case (truncate_call l q) then show ?thesis using truncate_spec by blast
next
  case (purge_call p q) then show ?thesis using purge_spec by blast
next
  case (read_log_call rng) then show ?thesis using read_log_spec [OF ok] by simp
next
  case log_state_call then show ?thesis using log_state_spec [OF ok] by simp
next
  case (save_vote_call v q) then show ?thesis using save_vote_spec [OF env_ok_kv [OF env] codec] by simp
next
  case read_vote_call then show ?thesis using read_vote_spec [OF env_ok_kv [OF env]] by simp
next
  case (apply_call items sent q) then show ?thesis using apply_spec [OF env_ok_kv [OF env]] by simp
next
  case (install_call meta data q) then show ?thesis using install_spec [OF env_ok_kv [OF env]] by simp
next
  case (build_call q)
  then show ?thesis using build_snapshot_untouched [OF env_ok_kv [OF env], of S] build_snapshot_data [of E S] by (simp add: internal_spec)
next
  case (recover_call q)
  then show ?thesis using recover_untouched [OF env_ok_kv [OF env], of S] recover_merge_state_data [of E S] by (simp add: internal_spec)
next
  case (merge_call x tr T q)
  then have T: "T = fst (run_task E x tr S)" by simp
  have "same_data T S" by (simp add: T run_task_def part_data)
  moreover have "untouched view T S" unfolding T using merge_call by (intro run_task_untouched [OF env ok]) simp
  ultimately show ?thesis unfolding merge_call(1-3) by (intro internal_spec) simp_all
next
  case (write_call req q)
  then show ?thesis using replica_serves.written [of _ _ "replica_of view E S" req] by (auto simp: apply_request_eq replica_of_def)
next
  case (read_call key)
  then show ?thesis using replica_serves.data_read [of _ _ "replica_of view E S" key] by (simp add: Storage_read_def replica_of_def)
next
  case (restart_call w)
  then show ?thesis using restart_spec [OF env ok] by simp
next
  case (restart_merging_call w R policy)
  moreover have "replica_of view E (with_merge_policy E policy R) = replica_of view E R" by (simp add: replica_of_def with_merge_policy_def)
  ultimately show ?thesis using restart_spec [OF env ok] by simp
qed

interpretation storage_replica: simulation
  "storage_serves E" "replica_serves (carried_requests E) (default_stored_membership E)" "replica_of view E"
  "\<lambda>S. env_ok (so_kv E) view pend (so_meta E) \<and> codec_ok (so_vote E) \<and> storage_ok view E S"
  for E view pend
  by unfold_locales (auto intro: storage_serves_ok storage_serves_spec)

section \<open>Properties of the storage\<close>

text \<open>
  Claim C2: the storage is a replica. Every run of a node's storage, with any calls of the
  consensus layer, the merge scheduler and the HTTP handlers, with failures and restarts, is a run
  of the abstract replica with the same answers: its log is a map from indexes that appends
  overwrite, truncations and purges cut and nothing else changes; its vote is the last one
  saved; its data and membership are the effects of the applied entries, of the requests in the
  installed deltas and of local writes; an append reports its entries as flushed exactly when
  all of them are in the log; and a restart keeps the vote only.
\<close>

theorem storage_refines_replica:
  assumes "env_ok (so_kv E) view pend (so_meta E)" "codec_ok (so_vote E)" "storage_reach E S"
    and "runs (storage_serves E) S tr S'"
  shows "runs (replica_serves (carried_requests E) (default_stored_membership E)) (replica_of view E S) tr (replica_of view E S')"
  using storage_replica.runs_spec(2) [OF assms(4)] assms(1,2) storage_reach_ok [OF assms(1,3)] by blast

text \<open>
  Claim C3: a vote is not forgotten. After a vote was saved, whatever the node does and however
  often it is restarted, a read of the vote returns that vote until another is saved: the
  term, the candidate and whether it was committed.
\<close>

theorem vote_is_not_forgotten:
  assumes env: "env_ok (so_kv E) view pend (so_meta E)" and codec: "codec_ok (so_vote E)" and reach: "storage_reach E S"
    and run: "runs (storage_serves E) S ((CallSaveVote v, Returned) # tr @ [(CallReadVote, Voted b)]) S'"
    and others: "\<forall>(c, r) \<in> set tr. \<forall>v'. c \<noteq> CallSaveVote v'"
  shows "b = Some v"
proof -
  have "runs (replica_serves (carried_requests E) (default_stored_membership E)) (replica_of view E S)
      ((CallSaveVote v, Returned) # tr @ [(CallReadVote, Voted b)]) (replica_of view E S')"
    using storage_replica.runs_spec(2) [OF run] env codec storage_reach_ok [OF env reach] by blast
  then obtain a\<^sub>1 a\<^sub>2 where saved: "replica_serves (carried_requests E) (default_stored_membership E) (replica_of view E S) (CallSaveVote v) Returned a\<^sub>1"
    and between: "runs (replica_serves (carried_requests E) (default_stored_membership E)) a\<^sub>1 tr a\<^sub>2"
    and "replica_serves (carried_requests E) (default_stored_membership E) a\<^sub>2 CallReadVote (Voted b) (replica_of view E S')"
    by (auto simp: runs_append)
  moreover have "rep_vote a\<^sub>1 = Inr (Some v)" using saved by (cases rule: replica_serves.cases) auto
  ultimately show ?thesis using vote_kept [OF between others] by (auto elim: replica_serves.cases)
qed

text \<open>
  Claim C4: the log holds what was appended. Each entry that a read of the log of a node returns
  was handed to an append of the same run since the node was opened, and no later call cut it off:
  every truncation since kept its index, every purge was below it, and there was no restart.
\<close>

theorem log_reads_what_was_appended:
  assumes env: "env_ok (so_kv E) view pend (so_meta E)" and codec: "codec_ok (so_vote E)" and opened: "SurrealStorage_new E t w = Inr S"
    and run: "runs (storage_serves E) S (tr @ [(CallReadLog rng, Entries es)]) S'" and e: "e \<in> set es"
  shows "\<exists>before es' r after. tr = before @ (CallAppend es', r) # after \<and> e \<in> set es' \<and>
    (\<forall>(c, r) \<in> set after. spares (li_index (entry_log_id e)) c)"
proof -
  let ?spec = "replica_serves (carried_requests E) (default_stored_membership E)"
  have "runs ?spec (replica_of view E S) (tr @ [(CallReadLog rng, Entries es)]) (replica_of view E S')"
    using storage_replica.runs_spec(2) [OF run] env codec storage_new_ok [OF env opened] by blast
  then obtain a where a: "runs ?spec (replica_of view E S) tr a" and "?spec a (CallReadLog rng) (Entries es) (replica_of view E S')"
    by (auto simp: runs_append)
  then obtain i where "rep_log a i = Some e" using e by (auto elim!: replica_serves.cases)
  moreover have "rep_log (replica_of view E S) i = None"
    using opened by (auto simp: SurrealStorage_new_def replica_of_def bt_get_def split: prod.splits sum.splits)
  ultimately show ?thesis using log_origin [OF a] by fastforce
qed

section \<open>Concrete runs\<close>

lemma vote_env_ok: "env_ok (so_kv vote_env) (\<lambda>t. t) snd (so_meta vote_env)" "codec_ok (so_vote vote_env)"
  using strict_env_ok by (simp_all add: vote_env_def table_codec_ok)

lemma vote_env_opened:
  "\<exists>S. SurrealStorage_new vote_env (\<lambda>_. None) (mem_world [] (\<lambda>_. 5)) = Inr S \<and> metadata S = MetadataManager_new (\<lambda>_. None)"
proof -
  have "so_kv vote_env = mem_kv" by (simp add: vote_env_def strict_env_def loose_env_def)
  then show ?thesis by (simp add: SurrealStorage_new_def sample_load)
qed

abbreviation vote_trace :: "Vote option \<Rightarrow> (unit storage_call \<times> unit answer) list" where
  "vote_trace b \<equiv> [(CallSaveVote sample_ballot, Returned), (CallRestart, Returned), (CallReadVote, Voted b)]"

lemma vote_trace_run:
  obtains S b S' where "storage_reach vote_env S" "runs (storage_serves vote_env) S (vote_trace b) S'"
proof -
  obtain S where S: "SurrealStorage_new vote_env (\<lambda>_. None) (mem_world [] (\<lambda>_. 5)) = Inr S" and m: "metadata S = MetadataManager_new (\<lambda>_. None)"
    using vote_env_opened by blast
  obtain S\<^sub>1 R b where 1: "save_vote vote_env sample_ballot S = (S\<^sub>1, Inr ())"
    and 2: "SurrealStorage_new vote_env (tree (metadata S\<^sub>1)) (mem_world [] (\<lambda>_. 5)) = Inr R" and 3: "read_vote vote_env R = Inr b"
    using sample_vote_run [OF m] by blast
  have "runs (storage_serves vote_env) S (vote_trace b) R"
    using storage_serves.save_vote_call [OF 1] storage_serves.restart_call [OF 2] storage_serves.read_vote_call [of vote_env R] 3 by auto
  with storage_reach.opened [OF S] show thesis by (rule that)
qed

theorem storage_refines_replica_witness:
  "\<exists>S b S'. runs (storage_serves vote_env) S (vote_trace b) S' \<and>
     runs (replica_serves (carried_requests vote_env) (default_stored_membership vote_env)) (replica_of (\<lambda>t. t) vote_env S)
       (vote_trace b) (replica_of (\<lambda>t. t) vote_env S')"
proof -
  obtain S b S' where run: "storage_reach vote_env S" "runs (storage_serves vote_env) S (vote_trace b) S'" by (rule vote_trace_run)
  show ?thesis using run(2) storage_refines_replica [OF vote_env_ok run] by blast
qed

theorem vote_is_not_forgotten_witness:
  "\<exists>S S'. runs (storage_serves vote_env) S (vote_trace (Some sample_ballot)) S'"
proof -
  obtain S b S' where reach: "storage_reach vote_env S" and run: "runs (storage_serves vote_env) S (vote_trace b) S'" by (rule vote_trace_run)
  have "b = Some sample_ballot"
    by (rule vote_is_not_forgotten [OF vote_env_ok reach, of sample_ballot "[(CallRestart, Returned)]" b S']) (use run in auto)
  with run show ?thesis by blast
qed

abbreviation log_trace :: "(unit storage_call \<times> unit answer) list" where
  "log_trace \<equiv> [(CallAppend [small_entry 1 1, small_entry 1 2], Logged [Inr ()] (Inr ())), (CallTruncate (Some (new_term_index 1 1)), Returned)]"

theorem log_reads_what_was_appended_witness:
  "\<exists>S S'. runs (storage_serves vote_env) S (log_trace @ [(CallReadLog (Included 0, Unbounded), Entries [small_entry 1 1])]) S' \<and>
     (\<exists>before es r after. log_trace = before @ (CallAppend es, r) # after \<and> small_entry 1 1 \<in> set es \<and>
        (\<forall>(c, r) \<in> set after. spares (li_index (entry_log_id (small_entry 1 1))) c))"
proof -
  obtain S where S: "SurrealStorage_new vote_env (\<lambda>_. None) (mem_world [] (\<lambda>_. 5)) = Inr S" using vote_env_opened by blast
  have log: "raft_entries S = []" using S by (auto simp: SurrealStorage_new_def split: prod.splits sum.splits)
  let ?es = "[small_entry 1 1, small_entry 1 2]"
  let ?S\<^sub>1 = "S\<lparr>raft_entries := [(1, small_entry 1 1), (2, small_entry 1 2)]\<rparr>" and ?S\<^sub>2 = "S\<lparr>raft_entries := [(1, small_entry 1 1)]\<rparr>"
  have "append_flushed vote_env ?es S = ((?S\<^sub>1, [Inr ()]), Inr ())"
    by (simp add: append_flushed_def small_entry_def new_term_index_def Let_def log)
  moreover have "truncate_after (Some (new_term_index 1 1)) ?S\<^sub>1 = (?S\<^sub>2, Inr ())"
    by (simp add: truncate_after_def bt_retain_def new_term_index_def word_le_nat_alt)
  moreover have "try_get_log_entries (Included 0, Unbounded) ?S\<^sub>2 = Inr [small_entry 1 1]"
    by (simp add: try_get_log_entries_def range_start_def range_end_inclusive_def bt_range_def)
  ultimately have run: "runs (storage_serves vote_env) S (log_trace @ [(CallReadLog (Included 0, Unbounded), Entries [small_entry 1 1])]) ?S\<^sub>2"
    using storage_serves.append_call [of vote_env ?es S ?S\<^sub>1] storage_serves.truncate_call [of "Some (new_term_index 1 1)" ?S\<^sub>1 ?S\<^sub>2 "Inr ()" vote_env]
      storage_serves.read_log_call [of vote_env ?S\<^sub>2 "(Included 0, Unbounded)"]
    by auto
  from log_reads_what_was_appended [OF vote_env_ok S run] have "\<exists>before es r after. log_trace = before @ (CallAppend es, r) # after \<and> small_entry 1 1 \<in> set es \<and>
        (\<forall>(c, r) \<in> set after. spares (li_index (entry_log_id (small_entry 1 1))) c)"
    by simp
  with run show ?thesis by blast
qed

end
