(* ===== verification/Spec2Isabelle.thy ===== *)
theory Spec2Isabelle
  imports Http_Api Proto Interleaving Directory_Copy Catch_Up Replica
begin

text \<open>
  A verification library for openraft-surrealkv, a replicated key-value store in Rust that runs
  OpenRaft over the SurrealKV engine. All paths below are relative to \<open>src/\<close> of the
  repository.

  \<^bold>\<open>The program.\<close> A node keeps its consensus metadata in a SurrealKV tree (\<open>state.rs\<close>), a
  key-value state machine and two logs in memory (\<open>storage.rs\<close>), and implements OpenRaft's
  storage traits on them (\<open>storage_raft_impl.rs\<close>). Snapshots are either full (a checkpoint of
  the tree packed as tar and zstd: \<open>snapshot/checkpoint.rs\<close>, \<open>snapshot/compression.rs\<close>,
  \<open>snapshot/restore.rs\<close>) or deltas (the log entries since the last checkpoint:
  \<open>snapshot/delta.rs\<close>, \<open>snapshot.rs\<close>). A background merge folds a chain of deltas into a new
  checkpoint (\<open>merge/\<close>). Nodes talk over gRPC (\<open>network/\<close>), clients over HTTP (\<open>api/\<close>,
  \<open>app.rs\<close>), and \<open>main.rs\<close> puts the parts together from a configuration (\<open>config.rs\<close>).

  \<^bold>\<open>Conventions.\<close> Structs are records and enums datatypes, with a prefix on a field where two
  structs share its name; \<open>u64\<close> and its kin are words, \<open>usize\<close> counts are naturals. A
  function that fails returns a sum with the error on the left; one with effects takes and
  returns its state. \<open>try_then\<close> is the \<open>?\<close> operator on such a function, so an error keeps the
  effects made before it. Locks are left out: an operation is one step, except where the order of
  steps inside it is the subject (\<open>Interleaving\<close>); the process as a whole, \<open>main\<close> and the tasks it
  spawns, is a step relation. A loop is a recursive function with a termination proof; the copy
  of a directory tree has fuel \<open>PATH_MAX\<close>, an upper bound of the depth a path can have, and every
  fuel from the depth of the tree on gives the same result. Errors of libraries are their texts. Log messages, and the
  calls of the metrics recorders inside the other parts, are left out.

  \<^bold>\<open>What is not under \<open>src/\<close>\<close> is a parameter: SurrealKV, postcard, the file system and the clock
  (\<open>World\<close>), zstd (\<open>Delta\<close>), tar and CRC32 (\<open>Archive\<close>), memberships, the gRPC channel
  (\<open>Network\<close>), tonic below the generated code (\<open>Proto\<close>), OpenRaft as the node calls it (\<open>App\<close>) and
  the axum router (\<open>Http_Server\<close>). The
  laws used are the predicates \<open>surrealkv_ok\<close>, \<open>codec_ok\<close>, \<open>files_ok\<close>, \<open>zstd_ok\<close>, \<open>archiver_ok\<close>,
  \<open>remove_dir_ok\<close>, \<open>checkpoint_keeps_paths\<close>, \<open>openraft_applies\<close>, \<open>raft_uses_storage\<close>,
  \<open>layer_uses_storage\<close>, \<open>axum_rejects_colons\<close>, \<open>copy_fs_ok\<close>, \<open>tonic_ok\<close>, \<open>undisturbed\<close>, \<open>reaches\<close> and
  \<open>assembles_chunks\<close>; each has an instance on which theorems are evaluated.

  \<^bold>\<open>The theories.\<close>
  \<^item> \<open>Prelude\<close>, \<open>Ordered_Map\<close>, \<open>World\<close>: Rust's integers, text, results and maps; the interface
    \<open>ordered_map\<close> with the sorted association list behind it; the parameters above.
  \<^item> \<open>Types\<close>: \<open>error.rs\<close>, \<open>types.rs\<close>, \<open>snapshot/metadata.rs\<close> and the OpenRaft values taken apart.
  \<^item> \<open>State\<close>: the metadata manager. The interface \<open>metadata_slot\<close> (a cached value and its key) is
    interpreted for the four values. A restart recovers what was saved; the snapshot state and
    the merge progress are saved together or not at all.
  \<^item> \<open>Interleaving\<close>: the saves of the metadata cut between commit and cache, run side by side. With one
    writer per slot memory and disk agree when all have returned; with two they need not. A crash
    at any moment leaves what the committed saves amount to. Also
    the building of a snapshot in parts, which undoes a merge that ends in the middle of it.
  \<^item> \<open>Consistency\<close>, \<open>Checkpoint\<close>, \<open>Delta\<close>, \<open>Archive\<close>, \<open>Snapshots\<close>: the parts of a snapshot. What is
    written is read back: sequence numbers, delta files, archives, payloads, whole checkpoints.
  \<^item> \<open>Merge_Policy\<close>, \<open>Merge_Backend\<close>, \<open>Merge_Executor\<close>: when to merge, what a merge computes, and the
    task around it. The interface \<open>merge_backend\<close> is interpreted for both backends; a merged
    checkpoint holds the baseline with the chain applied, and a task ends in the old or the
    merged state within the allowed attempts.
  \<^item> \<open>Directory_Copy\<close>: the copy of the baseline against directories as trees. A copy reproduces every
    file, keeps its source and stays inside its destination; its recursion ends.
  \<^item> \<open>Storage\<close>, \<open>Raft_Storage\<close>, \<open>Node_State\<close>: the storage of a node, the traits on it (the interface
    \<open>raft_log\<close>), and the step relation of everything that can happen to it. In every reachable
    state memory agrees with the tree and the logs are well formed; votes survive a restart;
    the log behaves as the finite map of the Raft paper; delta snapshots bring a follower to
    the leader's state; the merge and the state machine agree on the meaning of requests; two
    nodes that apply the same entries hold the same data.
  \<^item> \<open>Replica_Spec\<close>, \<open>Replica\<close>: the storage against an abstract specification. A replica is a log by
    index, a vote, data and a membership, with the answers that each call may give; the interface
    \<open>simulation\<close>, interpreted for the storage, carries its runs, errors and restarts included,
    over to runs of the replica, and with them what is proved of the replica: a vote is not
    forgotten, and the log holds what was appended and not cut off since.
  \<^item> \<open>Catch_Up\<close>: the applied log through a run of applied entries and into a delta. When it holds
    nothing else above the checkpoint, a follower that installs the delta ends with the data of
    the leader; a truncated entry is still in it.
  \<^item> \<open>Config\<close>, \<open>Network\<close>, \<open>App\<close>, \<open>Startup\<close>, \<open>Http_Server\<close>: the configuration and the tables made from
    it, the remote calls (the interface \<open>remote_call\<close>, interpreted for the three calls), the
    write path and the HTTP handlers, the start of a node, and the routes.
  \<^item> \<open>Proto\<close>: the generated client and server between the two ends of \<open>Network\<close>. Each call reaches its
    own method once, within the size limits of both ends.
  \<^item> \<open>Http_Api\<close>: the endpoints with the codes and bodies of their responses, and the layers.
  \<^item> \<open>Metrics\<close>: the recorders as the events they emit, the exporter, and the strict errors of an install.
  \<^item> \<open>Serving\<close>: \<open>main\<close> from the launch of its servers to its end, interleaved with the servers, the
    HTTP connections and OpenRaft. Servers stop before the consensus layer, and a shutdown can be
    completed from every state after the signal.
  \<^item> This theory: the path of a snapshot from one node through the generated transport into the
    storage of another.

  \<^bold>\<open>Behaviour worth knowing.\<close> Several theorems state what the code does where one may expect
  otherwise: an appended entry already counts as applied; a full snapshot is unpacked but not
  loaded; a follower takes one delta per checkpoint; a truncated
  entry goes into the next delta; a restart keeps positions and loses data; a
  delta recorded during a merge is dropped and merged delta files are kept; a write refused by
  the consensus layer is applied locally; the byte limit of the merge policy wraps; the HTTP
  routes do not fit the router's version, so a start with HTTP panics; overlapping saves of the
  applied position can leave memory and disk apart; an answer that is over the size limit is
  lost after the node has run the request, once per attempt.

  \<^bold>\<open>Not modelled.\<close> What is logged; how axum matches a request against the routes and how tower runs
  the layers, which are theirs; the legacy type \<open>SnapshotBuilderImpl\<close> and the responder of
  \<open>types.rs\<close>, which do nothing; interleavings inside one operation, except for those of
  \<open>Interleaving\<close> and for a merge task and the snapshots recorded while its backend runs; tests,
  examples and the build script.
\<close>

section \<open>A snapshot from one node to another\<close>

text \<open>
  What OpenRaft documents of receiving a snapshot in chunks: a request that is not the last is
  kept and answered; with the last one, when the requests kept so far and it form a complete
  snapshot, the state machine's \<open>install_snapshot\<close> is called, and if that succeeds the request
  is answered and nothing is kept. \<open>pend\<close> and \<open>store\<close> read the requests kept and the storage
  from the state of the node.
\<close>

definition assembles_chunks ::
  "('t, 'x, 'f, 'm) storage_env \<Rightarrow> ('aq, 'ar, 'vq, 'vr, 'm) rpc_codecs \<Rightarrow> ('aq, 'ar, 'vq, 'vr, 'm, 's) RaftServiceHandler \<Rightarrow>
   ('s \<Rightarrow> 'm InstallSnapshotRequest list) \<Rightarrow> ('s \<Rightarrow> ('t, 'f, 'm) SurrealStorage) \<Rightarrow> bool" where
  "assembles_chunks E C H pend store \<longleftrightarrow> (\<forall>q s.
     (\<not> isr_done q \<longrightarrow> (\<exists>s' r b. handle_install_snapshot H q s = (s', Inr r) \<and> to_stdvec (install_resp C) r = Inr b \<and>
        pend s' = pend s @ [q] \<and> store s' = store s)) \<and>
     (\<forall>data F'. isr_done q \<longrightarrow> reassemble [] (pend s @ [q]) = Some data \<longrightarrow>
        install_snapshot E (isr_meta q) data (store s) = (F', Inr ()) \<longrightarrow>
        (\<exists>s' r b. handle_install_snapshot H q s = (s', Inr r) \<and> to_stdvec (install_resp C) r = Inr b \<and>
           pend s' = [] \<and> store s' = F')))"

lemma send_all_installs:
  assumes answered: "\<And>q p s s' r b. to_stdvec (install_req C) q = Inr p \<Longrightarrow> small p \<Longrightarrow> handle_install_snapshot H q s = (s', Inr r) \<Longrightarrow>
      to_stdvec (install_resp C) r = Inr b \<Longrightarrow> RaftGrpcClient_install_snapshot G C cl q s = (s', Inr r)"
    and node: "assembles_chunks E C H pend store"
    and "reassemble got qs = Some data" and "\<And>rs. rs \<noteq> [] \<Longrightarrow> reassemble [] (pend n @ rs) = reassemble got rs"
    and "\<forall>q \<in> set qs. isr_meta q = meta \<and> (\<exists>p. to_stdvec (install_req C) q = Inr p \<and> small p)"
    and inst: "install_snapshot E meta data (store n) = (F', Inr ())"
  shows "\<exists>n' v. send_all (\<lambda>_. None) (RaftGrpcClient_install_snapshot G C cl) qs v0 n = (n', Inr v) \<and>
    store n' = F' \<and> pend n' = []"
  using assms(3-6)
proof (induction qs arbitrary: got n v0)
  case (Cons q qs)
  obtain p where p: "to_stdvec (install_req C) q = Inr p" "small p" using Cons.prems(3) by auto
  note answered = answered [OF p]
  have len: "unat (isr_offset q) = length got" using Cons.prems(1) by (simp split: if_splits)
  show ?case
  proof (cases "isr_done q")
    case True
    then have qs: "qs = []" using Cons.prems(1) len by (simp split: if_splits)
    have "reassemble [] (pend n @ [q]) = Some data" using Cons.prems(1) Cons.prems(2) [of "[q]"] qs by simp
    moreover have "isr_meta q = meta" using Cons.prems(3) by simp
    ultimately obtain s' r b where h: "handle_install_snapshot H q n = (s', Inr r)" "to_stdvec (install_resp C) r = Inr b"
      and st: "pend s' = []" "store s' = F'"
      using node True Cons.prems(4) unfolding assembles_chunks_def by blast
    show ?thesis using answered [OF h] qs st by (simp add: select_install_def)
  next
    case False
    then obtain s' r b where h: "handle_install_snapshot H q n = (s', Inr r)" "to_stdvec (install_resp C) r = Inr b"
      and st: "pend s' = pend n @ [q]" "store s' = store n"
      using node unfolding assembles_chunks_def by blast
    have "reassemble (got @ isr_data q) qs = Some data" using Cons.prems(1) len False by simp
    moreover have "reassemble [] (pend s' @ rs) = reassemble (got @ isr_data q) rs" if "rs \<noteq> []" for rs
      using Cons.prems(2) [of "q # rs"] len False st by simp
    ultimately obtain n' v where "send_all (\<lambda>_. None) (RaftGrpcClient_install_snapshot G C cl) qs (isp_vote r) s' = (n', Inr v)"
      "store n' = F'" "pend n' = []"
      using Cons.IH [of "got @ isr_data q" s' "isp_vote r"] Cons.prems(3,4) st by auto
    then show ?thesis using answered [OF h] by (simp add: select_install_def)
  qed
qed simp


text \<open>A node that keeps the requests in a list, on the storage of a follower.\<close>

definition collector ::
  "('t, 'x, 'f, 'm) storage_env \<Rightarrow> (unit, unit, unit, unit, 'm, 'm InstallSnapshotRequest list \<times> ('t, 'f, 'm) SurrealStorage) RaftServiceHandler" where
  "collector E = \<lparr>handle_append_entries = (\<lambda>q s. (s, Inr ())), handle_vote = (\<lambda>q s. (s, Inr ())),
     handle_install_snapshot = (\<lambda>q (rs, F).
       if \<not> isr_done q then ((rs @ [q], F), Inr \<lparr>isp_vote = sample_ballot\<rparr>)
       else case reassemble [] (rs @ [q]) of
           None \<Rightarrow> ((rs, F), Inl ''incomplete'')
         | Some data \<Rightarrow> (case install_snapshot E (isr_meta q) data F of
             (F, Inl e) \<Rightarrow> (([], F), Inl e)
           | (F, Inr _) \<Rightarrow> (([], F), Inr \<lparr>isp_vote = sample_ballot\<rparr>)))\<rparr>"

definition full_snap :: "unit RaftSnapshot" where
  "full_snap = \<lparr>snap_meta = full_meta, snap_data = be_encode 2 0\<rparr>"

definition full_codecs :: "(unit, unit, unit, unit, unit) rpc_codecs" where
  "full_codecs = \<lparr>append_req = table_codec [()], append_resp = table_codec [()], vote_req = table_codec [()],
     vote_resp = table_codec [()], install_req = table_codec (snapshot_requests sample_ballot full_snap (Some 1)),
     install_resp = table_codec [\<lparr>isp_vote = sample_ballot\<rparr>]\<rparr>"

lemma index_in_set: "x \<in> set xs \<Longrightarrow> index_in x xs \<noteq> None"
  by (induction xs) auto

lemma table_codec_encodes: "x \<in> set xs \<Longrightarrow> \<not> isl (to_stdvec (table_codec xs) x)"
  using index_in_set [of x xs] by (auto simp: to_stdvec_table_codec split: option.splits)

lemma collector_assembles: "assembles_chunks full_env full_codecs (collector full_env) fst snd"
  unfolding assembles_chunks_def
  by (auto simp: collector_def full_codecs_def to_stdvec_table_codec split: prod.splits)

lemma full_requests_few: "length (snapshot_requests sample_ballot full_snap (Some 1)) = 2"
  by (simp add: snapshot_requests_def full_snap_def chunk_requests.simps chunk_size_def Let_def numeral_2_eq_2)

lemma full_codecs_fit:
  assumes "to_stdvec (install_req full_codecs) q = Inr p \<or> to_stdvec (install_resp full_codecs) r = Inr p"
  shows "fits direct_tonic (max_message_size ClientConfig_default) ServerConfig_default p"
proof -
  have "length p = 2" using assms by (auto simp: full_codecs_def to_stdvec_table_codec simp del: be_encode.simps split: option.splits)
  then show ?thesis by (simp add: fits_def direct_tonic_def ClientConfig_default_def ServerConfig_default_def)
qed


end
